(* ===== verification/Quiz_Prelude.thy ===== *)
theory Quiz_Prelude
  imports Main "HOL-Library.Finite_Map" "HOL-Library.List_Lexorder" "HOL-Library.Char_ord"
    "HOL-Library.Product_Lexorder" "HOL-Library.Multiset" "HOL-Library.Word"
begin

text \<open>
  Shared vocabulary of the development.

  \<^item> Go strings are byte strings; they are modelled as \<open>string\<close> (lists of 8-bit characters).
    Go compares strings byte by byte, which is the lexicographic order that
    \<open>List_Lexorder\<close> and \<open>Char_ord\<close> give to \<open>string\<close>.
  \<^item> A Go map is a finite map \<open>('k, 'v) fmap\<close>. Ranging over a Go map has no fixed order; every
    loop of the program over a map sorts the keys (or the values) before the order can be
    seen, so the model ranges over \<open>sorted_keys\<close>.
  \<^item> A function that returns \<open>(T, error)\<close> is a function into \<open>'e + 'a\<close>; one that also changes a
    store returns \<open>'s \<times> ('e + 'a)\<close>, and \<open>and_then\<close> is the \<open>if err != nil { return err }\<close> that
    follows such a call.
  \<^item> \<open>itoa\<close> and \<open>atoi\<close> are \<open>strconv.Itoa\<close> and the program's \<open>atoi\<close> (the value of
    \<open>strconv.Atoi\<close> with its error dropped): decimal text of 64-bit integers.
\<close>

named_theorems go_result \<open>evaluation of error-returning calls\<close>

section \<open>Error-returning calls\<close>

fun and_then :: "'s \<times> ('e + 'a) \<Rightarrow> ('s \<Rightarrow> 'a \<Rightarrow> 's \<times> ('e + 'b)) \<Rightarrow> 's \<times> ('e + 'b)" where
  "and_then (s, Inl e) k = (s, Inl e)"
| "and_then (s, Inr x) k = k s x"

declare and_then.simps [go_result]

lemma and_then_InrE:
  assumes "and_then m k = (s', Inr y)"
  obtains s1 x where "m = (s1, Inr x)" and "k s1 x = (s', Inr y)"
  using assms by (cases "(m, k)" rule: and_then.cases) auto

lemma and_then_split:
  "P (and_then m k) \<longleftrightarrow>
     (\<forall>s e. m = (s, Inl e) \<longrightarrow> P (s, Inl e)) \<and> (\<forall>s x. m = (s, Inr x) \<longrightarrow> P (k s x))"
  by (cases "(m, k)" rule: and_then.cases) auto

lemma and_then_split_asm:
  "P (and_then m k) \<longleftrightarrow>
     \<not> ((\<exists>s e. m = (s, Inl e) \<and> \<not> P (s, Inl e)) \<or> (\<exists>s x. m = (s, Inr x) \<and> \<not> P (k s x)))"
  by (cases "(m, k)" rule: and_then.cases) auto

lemmas and_then_splits = and_then_split and_then_split_asm

text \<open>What happens to a request to a server: executed and answered, lost, or executed with its reply lost.\<close>

datatype delivery = Delivered | LostRequest | LostReply

section \<open>Go maps\<close>

text \<open>Reading a missing key of a \<open>map[string]string\<close> gives the empty string.\<close>

definition go_get :: "('k, string) fmap \<Rightarrow> 'k \<Rightarrow> string" where
  "go_get m k = (case fmlookup m k of None \<Rightarrow> '''' | Some v \<Rightarrow> v)"

definition sorted_keys :: "('k::linorder, 'v) fmap \<Rightarrow> 'k list" where
  "sorted_keys m = sorted_list_of_fset (fmdom m)"

lemma set_sorted_keys [simp]: "set (sorted_keys m) = fset (fmdom m)"
  by (simp add: sorted_keys_def)

lemma sorted_sorted_keys [simp]: "sorted (sorted_keys m)"
  by (simp add: sorted_keys_def sorted_list_of_fset.rep_eq)

lemma distinct_sorted_keys [simp]: "distinct (sorted_keys m)"
  by (simp add: sorted_keys_def sorted_list_of_fset.rep_eq)

lemma sorted_keys_cong: "fmdom m = fmdom n \<Longrightarrow> sorted_keys m = sorted_keys n"
  by (simp add: sorted_keys_def)

lemma sorted_keys_fmempty [simp]: "sorted_keys fmempty = []"
  by (simp add: sorted_keys_def sorted_list_of_fset.rep_eq)

lemma sorted_keys_fmupd [simp]:
  "sorted_keys (fmupd k v m) =
     (if k |\<in>| fmdom m then sorted_keys m else insort k (sorted_keys m))"
proof (cases "k |\<in>| fmdom m")
  case True
  then have "finsert k (fmdom m) = fmdom m" by blast
  with True show ?thesis by (simp add: sorted_keys_def)
next
  case False
  then show ?thesis
    by (simp add: sorted_keys_def sorted_list_of_fset.rep_eq)
qed

lemma fmlookup_iff_dom: "k |\<in>| fmdom m \<longleftrightarrow> (\<exists>v. fmlookup m k = Some v)"
  by (auto simp: fmdom_notI fmlookup_dom_iff)

lemma go_get_simps [simp]:
  "fmlookup m k = None \<Longrightarrow> go_get m k = ''''"
  "fmlookup m k = Some v \<Longrightarrow> go_get m k = v"
  by (simp_all add: go_get_def)

text \<open>Writing several entries, in the order of the list.\<close>

fun fmupds :: "('k \<times> 'v) list \<Rightarrow> ('k, 'v) fmap \<Rightarrow> ('k, 'v) fmap" where
  "fmupds [] m = m"
| "fmupds ((k, v) # kvs) m = fmupds kvs (fmupd k v m)"

lemma fmlookup_fmupds:
  "fmlookup (fmupds kvs m) k =
     (case map_of (rev kvs) k of Some v \<Rightarrow> Some v | None \<Rightarrow> fmlookup m k)"
  by (induction kvs m rule: fmupds.induct) (auto simp: map_add_def split: option.splits)

lemma fmupds_SomeD: "fmlookup (fmupds kvs m) k = Some v \<Longrightarrow> (k, v) \<in> set kvs \<or> fmlookup m k = Some v"
  by (induction kvs m rule: fmupds.induct) (auto split: if_splits)

lemma fmmap_fmupds: "fmmap f (fmupds kvs m) = fmupds (map (\<lambda>(k, v). (k, f v)) kvs) (fmmap f m)"
  by (induction kvs m rule: fmupds.induct) (auto simp: fmmap_fmupd)

lemma fmdom_fmupds [simp]: "fmdom (fmupds kvs m) = fset_of_list (map fst kvs) |\<union>| fmdom m"
  by (induction kvs m rule: fmupds.induct) auto

lemma fmupds_eq_fmempty_iff [simp]: "fmupds kvs m = fmempty \<longleftrightarrow> kvs = [] \<and> m = fmempty"
proof
  assume "fmupds kvs m = fmempty"
  then have "fmdom (fmupds kvs m) = {||}" by simp
  then have "kvs = []" and "fmdom m = {||}"
    by (auto simp: fset_of_list.rep_eq simp flip: fset_inject)
  then show "kvs = [] \<and> m = fmempty"
    by (auto intro!: fmap_ext simp: fmdom_notD)
qed simp

lemma fmupds_append [simp]: "fmupds (xs @ ys) m = fmupds ys (fmupds xs m)"
  by (induction xs m rule: fmupds.induct) auto

lemma map_filter_Some: "(\<And>x. x \<in> set xs \<Longrightarrow> f x = Some (h x)) \<Longrightarrow> List.map_filter f xs = map h xs"
  by (induction xs) (simp_all add: List.map_filter_simps)

end
