(* ===== verification/Game_State.thy ===== *)
theory Game_State
  imports Quiz_Prelude
begin

text \<open>
  The data types of \<open>internal/domain/domain.go\<close> and the game state of
  \<open>internal/game/state.go\<close>: a \<open>State\<close> is a game as loaded from the store, a value; its methods
  compute the views sent to clients and the facts the rules need.

  Go's typed strings (status, reason, actor type, visibility) stay strings, because the code
  converts stored text to them unchecked. Times are nanoseconds since the Unix epoch
  (\<open>int\<close>). Go's nil slices and empty slices are both \<open>[]\<close>; the JSON layer prints the first as
  \<open>null\<close>, which the client documentation allows. A nil pointer dereference (a panic) is the
  value \<open>None\<close> of the functions that can meet one.
\<close>

section \<open>Domain types\<close>

type_synonym GameStatus = string
type_synonym GameOverReason = string
type_synonym time = int

text \<open>The zero \<open>time.Time\<close> is January 1 of year 1, in nanoseconds from 1970.\<close>

definition zero_time :: time where "zero_time = - 62135596800000000000"

definition GameStatusWaiting :: GameStatus where "GameStatusWaiting = ''waiting''"
definition GameStatusRunning :: GameStatus where "GameStatusRunning = ''running''"
definition GameStatusFinished :: GameStatus where "GameStatusFinished = ''finished''"

definition GameOverLastPlayerStanding :: GameOverReason where
  "GameOverLastPlayerStanding = ''last_player_standing''"
definition GameOverAllEliminated :: GameOverReason where
  "GameOverAllEliminated = ''all_eliminated''"
definition GameOverNoMoreQuestions :: GameOverReason where
  "GameOverNoMoreQuestions = ''no_more_questions''"

lemmas status_defs [simp] = GameStatusWaiting_def GameStatusRunning_def GameStatusFinished_def
lemmas reason_defs [simp] = GameOverLastPlayerStanding_def GameOverAllEliminated_def
  GameOverNoMoreQuestions_def

record player =
  p_ID :: string
  p_Name :: string
  p_Lives :: int
  p_Active :: bool
  p_GameID :: string
  p_ActorID :: string

record question_theme =
  qt_ID :: string
  qt_Name :: string
  qt_Scope :: string

record qoption =
  o_ID :: string
  o_Text :: string

record question =
  q_ID :: string
  q_QuestionListID :: string
  q_Text :: string
  q_Options :: "qoption list"
  q_CorrectOptionID :: string
  q_OrderIndex :: int
  q_Theme :: "question_theme option"

record EngineConfig =
  InitialLives :: int
  AnswerTimeoutSeconds :: int

record State =
  s_ID :: string
  s_Status :: GameStatus
  s_OwnerID :: string
  s_QuestionListID :: string
  s_CreatedAt :: time
  s_Config :: EngineConfig
  s_TotalQuestions :: int
  s_CurrentQIdx :: int
  s_QuestionOpen :: bool
  s_QuestionStart :: time
  s_EndReason :: GameOverReason
  s_Players :: "(string, player) fmap"
  s_Current :: "question option"
  s_Answers :: "(string, string) fmap"

record PlayerScore =
  ps_ID :: string
  ps_Name :: string
  ps_Lives :: int
  ps_Active :: bool

section \<open>Queries\<close>

definition RemainingQuestions :: "State \<Rightarrow> int" where
  "RemainingQuestions s = s_TotalQuestions s - s_CurrentQIdx s - 1"

definition HostActorID :: "State \<Rightarrow> string" where
  "HostActorID s = (case fmlookup (s_Players s) (s_OwnerID s) of
      Some owner \<Rightarrow> p_ActorID owner | None \<Rightarrow> '''')"

definition PlayerActorID :: "State \<Rightarrow> string \<Rightarrow> string option" where
  "PlayerActorID s playerID = (case fmlookup (s_Players s) playerID of
      None \<Rightarrow> None | Some p \<Rightarrow> Some (p_ActorID p))"

text \<open>The players of a map in the order of their IDs, with their IDs.\<close>

definition player_entries :: "State \<Rightarrow> (string \<times> player) list" where
  "player_entries s = map (\<lambda>pid. (pid, the (fmlookup (s_Players s) pid))) (sorted_keys (s_Players s))"

definition ActorView :: "State \<Rightarrow> string \<Rightarrow> bool \<times> string list" where
  "ActorView s actorID =
     (HostActorID s = actorID \<and> actorID \<noteq> '''',
      map fst (filter (\<lambda>(pid, p). p_ActorID p = actorID) (player_entries s)))"

definition player_score :: "player \<Rightarrow> PlayerScore" where
  "player_score p = \<lparr>ps_ID = p_ID p, ps_Name = p_Name p, ps_Lives = p_Lives p, ps_Active = p_Active p\<rparr>"

text \<open>Sorted by name then ID.\<close>

definition Scoreboard :: "State \<Rightarrow> PlayerScore list" where
  "Scoreboard s = sort_key (\<lambda>sc. (ps_Name sc, ps_ID sc)) (map (player_score \<circ> snd) (player_entries s))"

definition activePlayers :: "State \<Rightarrow> string list" where
  "activePlayers s = map fst (filter (\<lambda>(pid, p). p_Active p) (player_entries s))"

definition sortedPlayerIDs :: "State \<Rightarrow> string list" where
  "sortedPlayerIDs s = sorted_keys (s_Players s)"

text \<open>
  The loop of \<open>leader\<close>, with its three variables; \<open>None\<close> when an ID is no player (the code
  would dereference nil).
\<close>

fun leader_loop :: "State \<Rightarrow> string list \<Rightarrow> string \<Rightarrow> int \<Rightarrow> bool \<Rightarrow> (string \<times> int \<times> bool) option" where
  "leader_loop s [] ldr best tied = Some (ldr, best, tied)"
| "leader_loop s (pid # ids) ldr best tied =
     (case fmlookup (s_Players s) pid of
        None \<Rightarrow> None
      | Some p \<Rightarrow>
          if p_Lives p > best then leader_loop s ids pid (p_Lives p) False
          else if p_Lives p = best then leader_loop s ids ldr best True
          else leader_loop s ids ldr best tied)"

definition leader :: "State \<Rightarrow> string list \<Rightarrow> string option" where
  "leader s ids = (case leader_loop s ids '''' (-1) False of
      None \<Rightarrow> None
    | Some (ldr, best, tied) \<Rightarrow> Some (if tied then '''' else ldr))"

definition hasOption :: "question \<Rightarrow> string \<Rightarrow> bool" where
  "hasOption q optionID = list_ex (\<lambda>opt. o_ID opt = optionID) (q_Options q)"

section \<open>The question as clients see it\<close>

text \<open>
  \<open>time.Duration(t) * time.Second\<close>: a product of 64-bit integers, in nanoseconds, that wraps.
\<close>

definition duration_seconds :: "int \<Rightarrow> int" where
  "duration_seconds t = sint ((word_of_int t :: 64 word) * 1000000000)"

text \<open>
  The payload of \<open>question_started\<close>. \<open>qp_timeout\<close> holds the two keys that are present only with
  a timeout (\<open>answer_timeout_seconds\<close> and \<open>closes_at\<close>), \<open>qp_answered_by\<close> the key that
  \<open>CurrentQuestion\<close> adds.
\<close>

record QuestionPayload =
  qp_question_id :: string
  qp_index :: int
  qp_total :: int
  qp_is_last :: bool
  qp_text :: string
  qp_options :: "qoption list"
  qp_theme :: "question_theme option"
  qp_timeout :: "(int \<times> time) option"
  qp_answered_by :: "string list option"

definition questionPayload :: "State \<Rightarrow> QuestionPayload option" where
  "questionPayload s = (case s_Current s of
      None \<Rightarrow> None
    | Some q \<Rightarrow> Some
        \<lparr>qp_question_id = q_ID q,
         qp_index = s_CurrentQIdx s,
         qp_total = s_TotalQuestions s,
         qp_is_last = (s_CurrentQIdx s = s_TotalQuestions s - 1),
         qp_text = q_Text q,
         qp_options = q_Options q,
         qp_theme = q_Theme q,
         qp_timeout = (let t = AnswerTimeoutSeconds (s_Config s) in
            if t > 0 then Some (t, s_QuestionStart s + duration_seconds t) else None),
         qp_answered_by = None\<rparr>)"

definition CurrentQuestion :: "State \<Rightarrow> QuestionPayload option" where
  "CurrentQuestion s =
     (if \<not> s_QuestionOpen s \<or> s_Current s = None then None
      else map_option (\<lambda>p. p\<lparr>qp_answered_by := Some (sorted_keys (s_Answers s))\<rparr>) (questionPayload s))"

section \<open>Facts about the queries\<close>

lemma map_fst_player_entries [simp]: "map fst (player_entries s) = sorted_keys (s_Players s)"
  by (simp add: player_entries_def comp_def)

lemma player_entries_iff [simp]:
  "(pid, p) \<in> set (player_entries s) \<longleftrightarrow> fmlookup (s_Players s) pid = Some p"
  by (auto simp: player_entries_def fmlookup_dom_iff)

lemma distinct_player_entries: "distinct (map fst (player_entries s))"
  by simp

lemma map_fst_filter_entries:
  "map fst (filter (\<lambda>(pid, p). P pid p) (player_entries s)) =
     filter (\<lambda>pid. P pid (the (fmlookup (s_Players s) pid))) (sorted_keys (s_Players s))"
  by (simp add: player_entries_def filter_map comp_def)

lemma set_activePlayers:
  "set (activePlayers s) = {pid. \<exists>p. fmlookup (s_Players s) pid = Some p \<and> p_Active p}"
  by (auto simp: activePlayers_def map_fst_filter_entries fmlookup_dom_iff)

lemma sorted_activePlayers [simp]: "sorted (activePlayers s)"
  by (simp add: activePlayers_def map_fst_filter_entries sorted_filter[where f = "\<lambda>x. x", simplified])

lemma distinct_activePlayers [simp]: "distinct (activePlayers s)"
  by (simp add: activePlayers_def map_fst_filter_entries)

lemma activePlayers_cong: "s_Players s = s_Players t \<Longrightarrow> activePlayers s = activePlayers t"
  by (simp add: activePlayers_def player_entries_def)

lemma mset_Scoreboard:
  "mset (Scoreboard s) = image_mset (\<lambda>pid. player_score (the (fmlookup (s_Players s) pid))) (mset_set (fset (fmdom (s_Players s))))"
proof -
  have "mset (sorted_keys (s_Players s)) = mset_set (fset (fmdom (s_Players s)))"
    by (metis distinct_sorted_keys mset_set_set set_sorted_keys)
  then show ?thesis
    by (simp add: Scoreboard_def player_entries_def comp_def multiset.map_comp flip: mset_map)
      (simp add: comp_def)
qed

lemma sorted_Scoreboard: "sorted (map (\<lambda>sc. (ps_Name sc, ps_ID sc)) (Scoreboard s))"
  by (simp add: Scoreboard_def)

subsection \<open>The leader\<close>

definition lives_of :: "State \<Rightarrow> string \<Rightarrow> int" where
  "lives_of s pid = (case fmlookup (s_Players s) pid of None \<Rightarrow> 0 | Some p \<Rightarrow> p_Lives p)"

lemma fold_max_ge: "(b::int) \<le> fold max xs b"
  by (induction xs arbitrary: b) (auto intro: order_trans[OF max.cobounded2])

lemma fold_max_mem: "x \<in> set xs \<Longrightarrow> (x::int) \<le> fold max xs b"
proof (induction xs arbitrary: b)
  case (Cons y ys)
  then show ?case
    using fold_max_ge[of "max y b" ys] by auto
qed simp

lemma fold_max_in: "fold max xs (b::int) = b \<or> fold max xs b \<in> set xs"
proof (induction xs arbitrary: b)
  case (Cons y ys)
  then show ?case by (auto simp: max_def split: if_splits)
qed simp

lemma leader_loop_eq:
  assumes "set ids \<subseteq> fset (fmdom (s_Players s))"
  defines "m \<equiv> \<lambda>b. fold max (map (lives_of s) ids) b"
  shows "leader_loop s ids l b t =
    Some (if m b > b then hd (filter (\<lambda>i. lives_of s i = m b) ids) else l, m b,
          if m b > b then length (filter (\<lambda>i. lives_of s i = m b) ids) > 1
          else t \<or> filter (\<lambda>i. lives_of s i = m b) ids \<noteq> [])"
  using assms(1) unfolding m_def
proof (induction ids arbitrary: l b t)
  case (Cons i ids)
  then obtain p where p: "fmlookup (s_Players s) i = Some p" by (auto simp: fmlookup_dom_iff)
  then have lv: "lives_of s i = p_Lives p" by (simp add: lives_of_def)
  note IH = Cons.IH and sub = Cons.prems
  have ge: "p_Lives p \<le> fold max (map (lives_of s) ids) (max (p_Lives p) b)"
    by (meson fold_max_ge max.boundedE)
  consider "p_Lives p > b" | "p_Lives p = b" | "p_Lives p < b" by linarith
  then show ?case
  proof cases
    case 1
    then have [simp]: "max (p_Lives p) b = p_Lives p" by simp
    show ?thesis using 1 p lv sub ge by (auto simp: IH)
  next
    case 2
    show ?thesis using 2 p lv sub ge by (auto simp: IH)
  next
    case 3
    then have [simp]: "max (p_Lives p) b = b" by simp
    show ?thesis using 3 p lv sub fold_max_ge[of b "map (lives_of s) ids"] by (auto simp: IH)
  qed
qed simp

definition strict_leader :: "State \<Rightarrow> string list \<Rightarrow> string \<Rightarrow> bool" where
  "strict_leader s ids w \<longleftrightarrow> w \<in> set ids \<and> (\<forall>i \<in> set ids. i \<noteq> w \<longrightarrow> lives_of s i < lives_of s w)"

lemma leader_cases:
  assumes "set ids \<subseteq> fset (fmdom (s_Players s))" and "distinct ids"
    and "\<forall>i \<in> set ids. 0 \<le> lives_of s i"
  shows "\<exists>w. leader s ids = Some w \<and> (w \<noteq> '''' \<longrightarrow> strict_leader s ids w) \<and>
           (\<forall>i. strict_leader s ids i \<longrightarrow> w = i)"
proof (cases "ids = []")
  case True
  then show ?thesis by (simp add: leader_def strict_leader_def)
next
  case False
  define m where "m = fold max (map (lives_of s) ids) (-1)"
  define tops where "tops = filter (\<lambda>i. lives_of s i = m) ids"
  have le: "lives_of s i \<le> m" if "i \<in> set ids" for i
    using that fold_max_mem[of "lives_of s i" "map (lives_of s) ids"] by (simp add: m_def)
  have m: "m > -1"
    using False assms(3) le by (cases ids) force+
  then have "m \<in> lives_of s ` set ids"
    using fold_max_in[of "map (lives_of s) ids" "-1"] by (auto simp: m_def)
  then have ne: "tops \<noteq> []" by (auto simp: tops_def filter_empty_conv)
  have ldr: "leader s ids = Some (if length tops > 1 then '''' else hd tops)"
    using m by (simp add: leader_def leader_loop_eq[OF assms(1)] m_def[symmetric] tops_def[symmetric])
  have top: "i \<in> set tops \<longleftrightarrow> i \<in> set ids \<and> lives_of s i = m" for i
    by (auto simp: tops_def)
  have dist: "distinct tops" using assms(2) by (simp add: tops_def)
  have strict: "set tops = {i}" if "strict_leader s ids i" for i
  proof -
    obtain j where j: "j \<in> set tops" using ne by (cases tops) auto
    have "j = i" if "j \<in> set tops" for j
      using that \<open>strict_leader s ids i\<close> le by (fastforce simp: top strict_leader_def)
    with j show ?thesis by auto
  qed
  show ?thesis
  proof (cases "length tops > 1")
    case True
    have "\<not> strict_leader s ids i" for i
    proof
      assume "strict_leader s ids i"
      then have "card (set tops) = 1" by (simp add: strict)
      with distinct_card[OF dist] True show False by simp
    qed
    with True ldr show ?thesis by simp
  next
    case False
    then obtain w where w: "tops = [w]" using ne by (cases tops) auto
    have in_w: "i \<in> set ids \<and> lives_of s i = m \<longleftrightarrow> i = w" for i using top[of i] w by simp
    have w_top: "w \<in> set ids" "lives_of s w = m" using in_w[of w] by blast+
    have "lives_of s i < lives_of s w" if "i \<in> set ids" "i \<noteq> w" for i
    proof -
      have "lives_of s i \<noteq> m" using that in_w[of i] by blast
      with le[OF that(1)] w_top(2) show ?thesis by linarith
    qed
    then have "strict_leader s ids w" using w_top(1) by (simp only: strict_leader_def) blast
    moreover have "\<forall>i. strict_leader s ids i \<longrightarrow> w = i" using strict w by simp
    moreover have "leader s ids = Some w" using ldr w by simp
    ultimately show ?thesis by blast
  qed
qed

end
