(* ===== verification/Game_Rules.thy ===== *)
theory Game_Rules
  imports Game_State
begin

text \<open>
  The rules applied when a question is closed: \<open>applyPenalties\<close> of \<open>internal/game/engine.go\<close>.
  The loop over the sorted player IDs is \<open>penalty_loop\<close>; it mutates the players of the state and
  appends to the result, so it returns the new state, the result and the \<open>livesAfter\<close> map.
  \<open>penalty_loop_eq\<close> gives the loop in closed form, on which the properties rest.
\<close>

record LifeDelta =
  ld_PlayerID :: string
  ld_LivesLeft :: int
  ld_Active :: bool

record CloseQuestionResult =
  cr_LifeLost :: "string list"
  cr_LifeDeltas :: "LifeDelta list"
  cr_Eliminated :: "string list"
  cr_GameOver :: bool
  cr_Winner :: string
  cr_Survivors :: "string list"
  cr_Reason :: GameOverReason
  cr_RemainingQuestions :: int
  cr_Players :: "PlayerScore list"

definition empty_result :: CloseQuestionResult where
  "empty_result = \<lparr>cr_LifeLost = [], cr_LifeDeltas = [], cr_Eliminated = [], cr_GameOver = False,
     cr_Winner = '''', cr_Survivors = [], cr_Reason = '''', cr_RemainingQuestions = 0, cr_Players = []\<rparr>"

section \<open>The loop\<close>

fun penalty_loop :: "string list \<Rightarrow> State \<Rightarrow> CloseQuestionResult \<Rightarrow> (string, int) fmap
    \<Rightarrow> (State \<times> CloseQuestionResult \<times> (string, int) fmap) option" where
  "penalty_loop [] s result livesAfter = Some (s, result, livesAfter)"
| "penalty_loop (pid # pids) s result livesAfter =
     (case fmlookup (s_Players s) pid of
        None \<Rightarrow> None
      | Some player \<Rightarrow>
          if \<not> p_Active player then penalty_loop pids s result livesAfter
          else case s_Current s of
            None \<Rightarrow> None
          | Some q \<Rightarrow>
              if go_get (s_Answers s) pid \<noteq> q_CorrectOptionID q then
                (let lives = p_Lives player - 1;
                     out = (lives \<le> 0);
                     player' = player\<lparr>p_Lives := lives, p_Active := \<not> out\<rparr>;
                     s' = s\<lparr>s_Players := fmupd pid player' (s_Players s)\<rparr>;
                     result' = result
                       \<lparr>cr_LifeLost := cr_LifeLost result @ [pid],
                        cr_Eliminated := (if out then cr_Eliminated result @ [pid] else cr_Eliminated result),
                        cr_LifeDeltas := cr_LifeDeltas result @
                          [\<lparr>ld_PlayerID = pid, ld_LivesLeft = lives, ld_Active = \<not> out\<rparr>]\<rparr>
                 in penalty_loop pids s' result' (fmupd pid lives livesAfter))
              else penalty_loop pids s result livesAfter)"

definition applyPenalties :: "State \<Rightarrow> (State \<times> CloseQuestionResult \<times> (string, int) fmap) option" where
  "applyPenalties s =
     (case penalty_loop (sortedPlayerIDs s) s empty_result fmempty of
        None \<Rightarrow> None
      | Some (s1, r1, livesAfter) \<Rightarrow>
          (let active = activePlayers s1;
               remaining = RemainingQuestions s1;
               reason = (if length active = 1 then GameOverLastPlayerStanding
                         else if length active = 0 then GameOverAllEliminated
                         else if remaining = 0 then GameOverNoMoreQuestions
                         else cr_Reason r1);
               r2 = r1\<lparr>cr_RemainingQuestions := remaining, cr_Reason := reason\<rparr>
           in if reason \<noteq> '''' then
                (let s2 = s1\<lparr>s_Status := GameStatusFinished, s_EndReason := reason\<rparr>
                 in case leader s2 active of
                      None \<Rightarrow> None
                    | Some w \<Rightarrow> Some (s2, r2\<lparr>cr_GameOver := True, cr_Survivors := active,
                                           cr_Winner := w, cr_Players := Scoreboard s2\<rparr>, livesAfter))
              else Some (s1, r2\<lparr>cr_Players := Scoreboard s1\<rparr>, livesAfter)))"

section \<open>The loop in closed form\<close>

text \<open>The player loses a life on question \<open>q\<close>: active, and no correct answer recorded.\<close>

definition loses :: "State \<Rightarrow> question \<Rightarrow> string \<Rightarrow> bool" where
  "loses s q pid = (case fmlookup (s_Players s) pid of
      None \<Rightarrow> False
    | Some p \<Rightarrow> p_Active p \<and> go_get (s_Answers s) pid \<noteq> q_CorrectOptionID q)"

definition penalised :: "player \<Rightarrow> player" where
  "penalised p = p\<lparr>p_Lives := p_Lives p - 1, p_Active := \<not> p_Lives p - 1 \<le> 0\<rparr>"

definition the_player :: "State \<Rightarrow> string \<Rightarrow> player" where
  "the_player s pid = the (fmlookup (s_Players s) pid)"

definition losers :: "State \<Rightarrow> question \<Rightarrow> string list" where
  "losers s q = filter (loses s q) (sortedPlayerIDs s)"

definition penalise_players :: "State \<Rightarrow> string list \<Rightarrow> State" where
  "penalise_players s pids =
     s\<lparr>s_Players := fmupds (map (\<lambda>pid. (pid, penalised (the_player s pid))) pids) (s_Players s)\<rparr>"

definition life_delta :: "State \<Rightarrow> string \<Rightarrow> LifeDelta" where
  "life_delta s pid = (let p = penalised (the_player s pid) in
     \<lparr>ld_PlayerID = pid, ld_LivesLeft = p_Lives p, ld_Active = p_Active p\<rparr>)"

definition lose_lives :: "State \<Rightarrow> string list \<Rightarrow> CloseQuestionResult \<Rightarrow> CloseQuestionResult" where
  "lose_lives s pids r = r
     \<lparr>cr_LifeLost := cr_LifeLost r @ pids,
      cr_Eliminated := cr_Eliminated r @ filter (\<lambda>pid. \<not> p_Active (penalised (the_player s pid))) pids,
      cr_LifeDeltas := cr_LifeDeltas r @ map (life_delta s) pids\<rparr>"

lemma penalty_loop_eq:
  assumes "s_Current s = Some q" and "distinct pids" and "set pids \<subseteq> fset (fmdom (s_Players s))"
  defines "ls \<equiv> filter (loses s q) pids"
  shows "penalty_loop pids s r la =
    Some (penalise_players s ls, lose_lives s ls r,
          fmupds (map (\<lambda>pid. (pid, p_Lives (penalised (the_player s pid)))) ls) la)"
  using assms(1-3) unfolding ls_def
proof (induction pids arbitrary: s r la)
  case Nil
  then show ?case by (simp add: penalise_players_def lose_lives_def)
next
  case (Cons pid pids)
  then obtain p where p: "fmlookup (s_Players s) pid = Some p" by (auto simp: fmlookup_dom_iff)
  note q = Cons.prems(1)
  show ?case
  proof (cases "loses s q pid")
    case False
    then show ?thesis using Cons p q by (auto simp: loses_def)
  next
    case True
    let ?s = "s\<lparr>s_Players := fmupd pid (penalised p) (s_Players s)\<rparr>"
    have l: "loses ?s q x = loses s q x" and t: "the_player ?s x = the_player s x"
      if "x \<in> set pids" for x
      using that Cons.prems(2) by (auto simp: loses_def the_player_def split: option.splits)
    have d: "life_delta ?s x = life_delta s x" if "x \<in> set pids" for x
      using t[OF that] by (simp add: life_delta_def)
    have tp: "the_player s pid = p" using p by (simp add: the_player_def)
    have f: "filter (loses ?s q) pids = filter (loses s q) pids"
      using l by (intro filter_cong) auto
    have m: "map (\<lambda>x. (x, penalised (the_player ?s x))) (filter (loses s q) pids) =
             map (\<lambda>x. (x, penalised (the_player s x))) (filter (loses s q) pids)"
      and n: "map (\<lambda>x. (x, p_Lives (penalised (the_player ?s x)))) (filter (loses s q) pids) =
             map (\<lambda>x. (x, p_Lives (penalised (the_player s x)))) (filter (loses s q) pids)"
      and o: "map (life_delta ?s) (filter (loses s q) pids) = map (life_delta s) (filter (loses s q) pids)"
      and u: "filter (\<lambda>x. \<not> p_Active (penalised (the_player ?s x))) (filter (loses s q) pids) =
              filter (\<lambda>x. \<not> p_Active (penalised (the_player s x))) (filter (loses s q) pids)"
      using t d by (auto intro!: map_cong filter_cong)
    have "penalty_loop (pid # pids) s r la =
        penalty_loop pids ?s (lose_lives s [pid] r) (fmupd pid (p_Lives (penalised p)) la)"
      using True p q
      by (simp add: loses_def Let_def penalised_def lose_lives_def life_delta_def tp)
    also have "\<dots> = Some (penalise_players ?s (filter (loses s q) pids),
        lose_lives ?s (filter (loses s q) pids) (lose_lives s [pid] r),
        fmupds (map (\<lambda>x. (x, p_Lives (penalised (the_player ?s x)))) (filter (loses s q) pids))
          (fmupd pid (p_Lives (penalised p)) la))"
      using Cons.IH[of ?s] Cons.prems f by auto
    finally show ?thesis
      using True tp m n o u by (simp add: penalise_players_def lose_lives_def)
  qed
qed

lemma fmlookup_penalise_players:
  assumes "distinct pids" and "set pids \<subseteq> fset (fmdom (s_Players s))"
  shows "fmlookup (s_Players (penalise_players s pids)) pid =
    map_option (\<lambda>p. if pid \<in> set pids then penalised p else p) (fmlookup (s_Players s) pid)"
proof (cases "pid \<in> set pids")
  case True
  then obtain p where p: "fmlookup (s_Players s) pid = Some p"
    using assms(2) by (auto simp: fmlookup_dom_iff)
  have "map_of (rev (map (\<lambda>x. (x, penalised (the_player s x))) pids)) pid = Some (penalised (the_player s pid))"
    using True assms(1) by (intro map_of_is_SomeI) (auto simp: rev_map comp_def)
  with True p show ?thesis
    by (simp add: penalise_players_def fmlookup_fmupds the_player_def)
next
  case False
  then have "map_of (rev (map (\<lambda>x. (x, penalised (the_player s x))) pids)) pid = None"
    by (auto simp: map_of_eq_None_iff)
  with False show ?thesis
    by (cases "fmlookup (s_Players s) pid") (simp_all add: penalise_players_def fmlookup_fmupds)
qed

lemma distinct_losers [simp]: "distinct (losers s q)"
  by (simp add: losers_def sortedPlayerIDs_def)

lemma sorted_losers [simp]: "sorted (losers s q)"
  by (simp add: losers_def sortedPlayerIDs_def sorted_filter[where f = "\<lambda>x. x", simplified])

lemma set_losers: "set (losers s q) = {pid. loses s q pid}"
  by (auto simp: losers_def sortedPlayerIDs_def loses_def fmlookup_dom_iff split: option.splits)

lemma losers_subset [simp]: "set (losers s q) \<subseteq> fset (fmdom (s_Players s))"
  by (auto simp: losers_def sortedPlayerIDs_def)

definition penalise_state :: "State \<Rightarrow> question \<Rightarrow> State" where
  "penalise_state s q = penalise_players s (losers s q)"

lemma lookup_penalise_state:
  "fmlookup (s_Players (penalise_state s q)) pid =
    map_option (\<lambda>p. if loses s q pid then penalised p else p) (fmlookup (s_Players s) pid)"
  by (simp only: penalise_state_def fmlookup_penalise_players[OF distinct_losers losers_subset] set_losers mem_Collect_eq)

lemma penalise_state_simps [simp]:
  "s_ID (penalise_state s q) = s_ID s" "s_Status (penalise_state s q) = s_Status s"
  "s_TotalQuestions (penalise_state s q) = s_TotalQuestions s"
  "s_CurrentQIdx (penalise_state s q) = s_CurrentQIdx s"
  "s_QuestionOpen (penalise_state s q) = s_QuestionOpen s"
  "s_EndReason (penalise_state s q) = s_EndReason s"
  "s_Config (penalise_state s q) = s_Config s" "s_OwnerID (penalise_state s q) = s_OwnerID s"
  "s_Current (penalise_state s q) = s_Current s" "s_Answers (penalise_state s q) = s_Answers s"
  "s_CreatedAt (penalise_state s q) = s_CreatedAt s"
  "s_QuestionListID (penalise_state s q) = s_QuestionListID s"
  "s_QuestionStart (penalise_state s q) = s_QuestionStart s"
  by (simp_all add: penalise_state_def penalise_players_def)

lemma fmdom_penalise_state [simp]: "fmdom (s_Players (penalise_state s q)) = fmdom (s_Players s)"
  by (rule fset_eqI) (auto simp: fmlookup_dom_iff lookup_penalise_state)

text \<open>Why the game ends, given the active players and the number of questions left.\<close>

definition over_reason :: "string list \<Rightarrow> int \<Rightarrow> GameOverReason" where
  "over_reason active remaining =
     (if length active = 1 then GameOverLastPlayerStanding
      else if length active = 0 then GameOverAllEliminated
      else if remaining = 0 then GameOverNoMoreQuestions else '''')"

lemma leader_active_Some:
  assumes "s_Players t = s_Players s"
  obtains w where "leader t (activePlayers s) = Some w"
proof -
  have "set (activePlayers s) \<subseteq> fset (fmdom (s_Players t))"
    by (auto simp: set_activePlayers assms fmlookup_dom_iff)
  from leader_loop_eq[OF this] show ?thesis
    using that by (auto simp: leader_def)
qed

text \<open>The whole of \<open>applyPenalties\<close> in closed form.\<close>

lemma applyPenalties_eq:
  assumes "s_Current s = Some q"
  defines "s1 \<equiv> penalise_state s q"
  defines "active \<equiv> activePlayers s1"
  defines "reason \<equiv> over_reason active (RemainingQuestions s1)"
  defines "s2 \<equiv> (if reason = '''' then s1 else s1\<lparr>s_Status := GameStatusFinished, s_EndReason := reason\<rparr>)"
  defines "ls \<equiv> losers s q"
  shows "applyPenalties s = Some (s2,
     \<lparr>cr_LifeLost = ls, cr_LifeDeltas = map (life_delta s) ls,
      cr_Eliminated = filter (\<lambda>pid. \<not> p_Active (penalised (the_player s pid))) ls,
      cr_GameOver = (reason \<noteq> ''''),
      cr_Winner = (if reason = '''' then '''' else the (leader s2 active)),
      cr_Survivors = (if reason = '''' then [] else active),
      cr_Reason = reason, cr_RemainingQuestions = RemainingQuestions s1, cr_Players = Scoreboard s2\<rparr>,
     fmupds (map (\<lambda>pid. (pid, p_Lives (penalised (the_player s pid)))) ls) fmempty)"
proof -
  have loop: "penalty_loop (sortedPlayerIDs s) s empty_result fmempty =
      Some (s1, lose_lives s ls empty_result,
        fmupds (map (\<lambda>pid. (pid, p_Lives (penalised (the_player s pid)))) ls) fmempty)"
    using penalty_loop_eq[OF assms(1), of "sortedPlayerIDs s"]
    by (simp add: s1_def penalise_state_def ls_def losers_def sortedPlayerIDs_def)
  have r: "over_reason active (RemainingQuestions s1) = reason" by (simp add: reason_def)
  obtain w where w: "leader (s1\<lparr>s_Status := GameStatusFinished, s_EndReason := reason\<rparr>) active = Some w"
    using leader_active_Some[of "s1\<lparr>s_Status := GameStatusFinished, s_EndReason := reason\<rparr>" s1]
    by (auto simp: active_def)
  show ?thesis
    using loop w r
    by (cases "reason = ''''")
      (auto simp: applyPenalties_def Let_def active_def[symmetric] over_reason_def s2_def
        lose_lives_def empty_result_def simp del: status_defs reason_defs split: if_splits)
qed

lemma applyPenalties_SomeD:
  assumes "applyPenalties s = Some (s', r, la)" and "s_Current s = Some q"
  defines "s1 \<equiv> penalise_state s q"
  defines "reason \<equiv> over_reason (activePlayers s1) (RemainingQuestions s1)"
  shows "s' = (if reason = '''' then s1 else s1\<lparr>s_Status := GameStatusFinished, s_EndReason := reason\<rparr>)"
    and "cr_LifeLost r = losers s q"
    and "cr_LifeDeltas r = map (life_delta s) (losers s q)"
    and "cr_Eliminated r = filter (\<lambda>pid. \<not> p_Active (penalised (the_player s pid))) (losers s q)"
    and "cr_GameOver r \<longleftrightarrow> reason \<noteq> ''''" and "cr_Reason r = reason"
    and "cr_Winner r = (if reason = '''' then '''' else the (leader s' (activePlayers s1)))"
    and "cr_Survivors r = (if reason = '''' then [] else activePlayers s1)"
    and "cr_RemainingQuestions r = RemainingQuestions s"
    and "cr_Players r = Scoreboard s'"
    and "la = fmupds (map (\<lambda>pid. (pid, p_Lives (penalised (the_player s pid)))) (losers s q)) fmempty"
proof -
  have rem: "RemainingQuestions s1 = RemainingQuestions s"
    by (simp add: RemainingQuestions_def s1_def)
  note eq = applyPenalties_eq[OF assms(2), folded s1_def, folded reason_def, unfolded assms(1) option.inject prod.inject]
  show "s' = (if reason = '''' then s1 else s1\<lparr>s_Status := GameStatusFinished, s_EndReason := reason\<rparr>)"
    using eq by blast
  note s' = this[symmetric]
  have r: "r = \<lparr>cr_LifeLost = losers s q, cr_LifeDeltas = map (life_delta s) (losers s q),
      cr_Eliminated = filter (\<lambda>pid. \<not> p_Active (penalised (the_player s pid))) (losers s q),
      cr_GameOver = (reason \<noteq> ''''),
      cr_Winner = (if reason = '''' then '''' else the (leader s' (activePlayers s1))),
      cr_Survivors = (if reason = '''' then [] else activePlayers s1),
      cr_Reason = reason, cr_RemainingQuestions = RemainingQuestions s1, cr_Players = Scoreboard s'\<rparr>"
    using eq unfolding s' by blast
  then show "cr_LifeLost r = losers s q"
    and "cr_LifeDeltas r = map (life_delta s) (losers s q)"
    and "cr_Eliminated r = filter (\<lambda>pid. \<not> p_Active (penalised (the_player s pid))) (losers s q)"
    and "cr_GameOver r \<longleftrightarrow> reason \<noteq> ''''" and "cr_Reason r = reason"
    and "cr_Winner r = (if reason = '''' then '''' else the (leader s' (activePlayers s1)))"
    and "cr_Survivors r = (if reason = '''' then [] else activePlayers s1)"
    and "cr_RemainingQuestions r = RemainingQuestions s"
    and "cr_Players r = Scoreboard s'" by (simp_all add: rem)
  show "la = fmupds (map (\<lambda>pid. (pid, p_Lives (penalised (the_player s pid)))) (losers s q)) fmempty"
    using eq by blast
qed

section \<open>Well-formed states\<close>

text \<open>
  What the engine keeps true of a state: a player is filed under its own (non-empty) ID with at
  most the initial lives, and is active exactly while it has lives; the progress fields fit
  together and the index never passes the end of the list.
\<close>

definition wf_player :: "State \<Rightarrow> string \<Rightarrow> player \<Rightarrow> bool" where
  "wf_player s pid p \<longleftrightarrow> p_ID p = pid \<and> pid \<noteq> '''' \<and> p_GameID p = s_ID s \<and>
     0 \<le> p_Lives p \<and> p_Lives p \<le> InitialLives (s_Config s) \<and> (p_Active p \<longleftrightarrow> 0 < p_Lives p)"

definition wf_players :: "State \<Rightarrow> bool" where
  "wf_players s \<longleftrightarrow> (\<forall>pid p. fmlookup (s_Players s) pid = Some p \<longrightarrow> wf_player s pid p)"

definition wf_progress :: "State \<Rightarrow> bool" where
  "wf_progress s \<longleftrightarrow>
     -1 \<le> s_CurrentQIdx s \<and> (s_CurrentQIdx s < s_TotalQuestions s \<or> s_CurrentQIdx s = -1) \<and>
     0 \<le> s_TotalQuestions s \<and>
     (s_Status s = GameStatusWaiting \<and> s_CurrentQIdx s = -1 \<and> \<not> s_QuestionOpen s \<and> s_EndReason s = '''' \<or>
      s_Status s = GameStatusRunning \<and> 0 \<le> s_CurrentQIdx s \<and> s_EndReason s = '''' \<or>
      s_Status s = GameStatusFinished \<and> 0 \<le> s_CurrentQIdx s \<and> \<not> s_QuestionOpen s \<and>
        s_EndReason s \<in> {GameOverLastPlayerStanding, GameOverAllEliminated, GameOverNoMoreQuestions})"

definition wf_State :: "State \<Rightarrow> bool" where
  "wf_State s \<longleftrightarrow> wf_players s \<and> wf_progress s \<and> 1 \<le> InitialLives (s_Config s)"

lemma wf_player_penalised: "wf_player s pid p \<Longrightarrow> p_Active p \<Longrightarrow> wf_player s pid (penalised p)"
  by (auto simp: wf_player_def penalised_def)

lemma wf_player_cong: "s_ID s = s_ID t \<Longrightarrow> s_Config s = s_Config t \<Longrightarrow> wf_player s = wf_player t"
  by (simp add: wf_player_def fun_eq_iff)

lemma wf_players_penalise_state:
  assumes "wf_players s"
  shows "wf_players (penalise_state s q)"
proof -
  have "wf_player s pid (if loses s q pid then penalised p else p)"
    if "fmlookup (s_Players s) pid = Some p" for pid p
    using that assms wf_player_penalised[of s pid p] by (auto simp: wf_players_def loses_def)
  moreover have "wf_player (penalise_state s q) = wf_player s" by (rule wf_player_cong) simp_all
  ultimately show ?thesis
    unfolding wf_players_def by (auto simp only: lookup_penalise_state map_option_eq_Some)
qed

lemma wf_players_cong:
  "s_Players s = s_Players t \<Longrightarrow> s_ID s = s_ID t \<Longrightarrow> s_Config s = s_Config t \<Longrightarrow> wf_players s = wf_players t"
  by (simp add: wf_players_def wf_player_def)

lemma over_reason_cases:
  "over_reason a r \<noteq> '''' \<Longrightarrow>
     over_reason a r \<in> {GameOverLastPlayerStanding, GameOverAllEliminated, GameOverNoMoreQuestions}"
  by (auto simp: over_reason_def split: if_splits)

lemma wf_applyPenalties:
  assumes "wf_State s" and "s_Status s = GameStatusRunning" and "\<not> s_QuestionOpen s"
    and "applyPenalties s = Some (s', r, la)" and "s_Current s = Some q"
  shows "wf_State s'"
proof -
  define reason where "reason = over_reason (activePlayers (penalise_state s q)) (RemainingQuestions (penalise_state s q))"
  have s': "s' = (if reason = '''' then penalise_state s q
      else (penalise_state s q)\<lparr>s_Status := GameStatusFinished, s_EndReason := reason\<rparr>)"
    using applyPenalties_SomeD(1)[OF assms(4,5)] by (simp add: reason_def)
  have "wf_players s'"
  proof -
    have "wf_players s' = wf_players (penalise_state s q)" by (rule wf_players_cong) (simp_all add: s')
    with wf_players_penalise_state[of s q] assms(1) show ?thesis by (simp add: wf_State_def)
  qed
  moreover have "wf_progress s'"
  proof -
    have run: "-1 \<le> s_CurrentQIdx s" "0 \<le> s_CurrentQIdx s" "s_CurrentQIdx s < s_TotalQuestions s"
      "0 \<le> s_TotalQuestions s" "s_EndReason s = ''''"
      using assms(1,2) by (auto simp: wf_State_def wf_progress_def)
    show ?thesis
    proof (cases "reason = ''''")
      case True
      with run assms(2,3) show ?thesis by (simp add: s' wf_progress_def)
    next
      case False
      then have "reason \<in> {GameOverLastPlayerStanding, GameOverAllEliminated, GameOverNoMoreQuestions}"
        unfolding reason_def by (rule over_reason_cases)
      with False run assms(3) show ?thesis by (simp add: s' wf_progress_def)
    qed
  qed
  ultimately show ?thesis using assms(1) by (simp add: wf_State_def s')
qed

lemma lives_of_nonneg: "wf_players s \<Longrightarrow> 0 \<le> lives_of s pid"
  by (auto simp: lives_of_def wf_players_def wf_player_def split: option.splits)

lemma leader_active:
  assumes "wf_players s"
  shows "\<exists>w. leader s (activePlayers s) = Some w \<and> (w \<noteq> '''' \<longrightarrow> strict_leader s (activePlayers s) w) \<and>
           (\<forall>i. strict_leader s (activePlayers s) i \<longrightarrow> w = i)"
  using assms lives_of_nonneg by (intro leader_cases) (auto simp: set_activePlayers fmlookup_dom_iff)

section \<open>The properties of a close\<close>

text \<open>
  A concrete game for the witnesses: three players, the last question of two is being closed.
  Alice answered right, Bob wrong with lives to spare, Carol not at all on her last life.
\<close>

definition ex_question :: question where
  "ex_question = \<lparr>q_ID = ''q2'', q_QuestionListID = ''l'', q_Text = ''2+2?'',
     q_Options = [\<lparr>o_ID = ''a'', o_Text = ''4''\<rparr>, \<lparr>o_ID = ''b'', o_Text = ''5''\<rparr>],
     q_CorrectOptionID = ''a'', q_OrderIndex = 1, q_Theme = None\<rparr>"

definition ex_player :: "string \<Rightarrow> string \<Rightarrow> int \<Rightarrow> player" where
  "ex_player pid name lives = \<lparr>p_ID = pid, p_Name = name, p_Lives = lives, p_Active = (0 < lives),
     p_GameID = ''g'', p_ActorID = name\<rparr>"

definition ex_state :: State where
  "ex_state = \<lparr>s_ID = ''g'', s_Status = GameStatusRunning, s_OwnerID = ''p1'', s_QuestionListID = ''l'',
     s_CreatedAt = 0, s_Config = \<lparr>InitialLives = 3, AnswerTimeoutSeconds = 0\<rparr>, s_TotalQuestions = 2,
     s_CurrentQIdx = 1, s_QuestionOpen = False, s_QuestionStart = 0, s_EndReason = '''',
     s_Players = fmupd ''p3'' (ex_player ''p3'' ''carol'' 1)
       (fmupd ''p2'' (ex_player ''p2'' ''bob'' 3) (fmupd ''p1'' (ex_player ''p1'' ''alice'' 2) fmempty)),
     s_Current = Some ex_question,
     s_Answers = fmupd ''p2'' ''b'' (fmupd ''p1'' ''a'' fmempty)\<rparr>"

lemma ex_wf: "wf_State ex_state"
proof -
  have "wf_players ex_state"
    unfolding wf_players_def ex_state_def by (auto simp: wf_player_def ex_player_def split: if_splits)
  then show ?thesis by (simp add: wf_State_def wf_progress_def ex_state_def)
qed

lemma ex_Current: "s_Current ex_state = Some ex_question"
  by (simp add: ex_state_def)

text \<open>The players after a close, and the lists of its result.\<close>

lemma close_penalties:
  assumes "applyPenalties s = Some (s', r, la)" and "s_Current s = Some q"
  shows "fmlookup (s_Players s') pid =
    (case fmlookup (s_Players s) pid of
       None \<Rightarrow> None
     | Some p \<Rightarrow> Some (if p_Active p \<and> go_get (s_Answers s) pid \<noteq> q_CorrectOptionID q
                       then p\<lparr>p_Lives := p_Lives p - 1, p_Active := 0 < p_Lives p - 1\<rparr> else p))"
proof -
  have "s_Players s' = s_Players (penalise_state s q)"
    using applyPenalties_SomeD(1)[OF assms] by simp
  then show ?thesis
    by (auto simp: lookup_penalise_state loses_def penalised_def not_le split: option.splits)
qed

lemma close_result_lists:
  assumes "applyPenalties s = Some (s', r, la)" and "s_Current s = Some q"
  shows "set (cr_LifeLost r) = {pid. \<exists>p. fmlookup (s_Players s) pid = Some p \<and> p_Active p \<and>
             go_get (s_Answers s) pid \<noteq> q_CorrectOptionID q}
       \<and> sorted (cr_LifeLost r) \<and> distinct (cr_LifeLost r)
       \<and> cr_Eliminated r = filter (\<lambda>pid. \<not> p_Active (the_player s' pid)) (cr_LifeLost r)
       \<and> cr_LifeDeltas r = map (\<lambda>pid. \<lparr>ld_PlayerID = pid, ld_LivesLeft = p_Lives (the_player s' pid),
             ld_Active = p_Active (the_player s' pid)\<rparr>) (cr_LifeLost r)
       \<and> (\<forall>pid. fmlookup la pid =
             (if pid \<in> set (cr_LifeLost r) then Some (p_Lives (the_player s' pid)) else None))"
proof -
  note D = applyPenalties_SomeD[OF assms]
  have pl: "the_player s' pid = penalised (the_player s pid)" if "pid \<in> set (losers s q)" for pid
  proof -
    have "loses s q pid" using that by (simp add: set_losers)
    moreover then obtain p where "fmlookup (s_Players s) pid = Some p"
      by (auto simp: loses_def split: option.splits)
    moreover have "s_Players s' = s_Players (penalise_state s q)" using D(1) by simp
    ultimately show ?thesis by (simp add: the_player_def lookup_penalise_state)
  qed
  have m: "map_of (rev (map (\<lambda>pid. (pid, p_Lives (penalised (the_player s pid)))) (losers s q))) pid =
      (if pid \<in> set (losers s q) then Some (p_Lives (penalised (the_player s pid))) else None)" for pid
    by (auto simp: map_of_eq_None_iff rev_map comp_def intro!: map_of_is_SomeI)
  have "filter (\<lambda>pid. \<not> p_Active (penalised (the_player s pid))) (losers s q) =
      filter (\<lambda>pid. \<not> p_Active (the_player s' pid)) (losers s q)"
    using pl by (intro filter_cong) simp_all
  moreover have "map (life_delta s) (losers s q) = map (\<lambda>pid. \<lparr>ld_PlayerID = pid,
      ld_LivesLeft = p_Lives (the_player s' pid), ld_Active = p_Active (the_player s' pid)\<rparr>) (losers s q)"
    using pl by (simp add: life_delta_def Let_def)
  moreover have "set (losers s q) = {pid. \<exists>p. fmlookup (s_Players s) pid = Some p \<and> p_Active p \<and>
      go_get (s_Answers s) pid \<noteq> q_CorrectOptionID q}"
    by (auto simp: set_losers loses_def split: option.splits)
  moreover have "\<forall>pid. fmlookup la pid =
      (if pid \<in> set (losers s q) then Some (p_Lives (the_player s' pid)) else None)"
    unfolding D(11) by (simp add: fmlookup_fmupds m pl)
  ultimately show ?thesis
    using D(2-4) by simp
qed

lemma applyPenalties_Some:
  assumes "s_Current s = Some q"
  obtains s' r la where "applyPenalties s = Some (s', r, la)"
  using applyPenalties_eq[OF assms] by blast

text \<open>
  C1: closing a question takes exactly one life from exactly the active players whose recorded
  answer is not the correct option (a missing answer reads as the empty string), deactivates
  those who reach 0, and leaves every other player as it was. \<open>LifeLost\<close> is the sorted list of the
  players who lost a life, \<open>Eliminated\<close> those of them who are now out, \<open>LifeDeltas\<close> and \<open>livesAfter\<close>
  give their lives after the close.
\<close>

theorem close_penalises_exactly:
  assumes "applyPenalties s = Some (s', r, la)" and "s_Current s = Some q"
  shows "(\<forall>pid. fmlookup (s_Players s') pid =
      (case fmlookup (s_Players s) pid of
         None \<Rightarrow> None
       | Some p \<Rightarrow> Some (if p_Active p \<and> go_get (s_Answers s) pid \<noteq> q_CorrectOptionID q
                         then p\<lparr>p_Lives := p_Lives p - 1, p_Active := 0 < p_Lives p - 1\<rparr> else p)))
    \<and> set (cr_LifeLost r) = {pid. \<exists>p. fmlookup (s_Players s) pid = Some p \<and> p_Active p \<and>
          go_get (s_Answers s) pid \<noteq> q_CorrectOptionID q}
    \<and> sorted (cr_LifeLost r) \<and> distinct (cr_LifeLost r)
    \<and> cr_Eliminated r = filter (\<lambda>pid. \<not> p_Active (the_player s' pid)) (cr_LifeLost r)
    \<and> cr_LifeDeltas r = map (\<lambda>pid. \<lparr>ld_PlayerID = pid, ld_LivesLeft = p_Lives (the_player s' pid),
          ld_Active = p_Active (the_player s' pid)\<rparr>) (cr_LifeLost r)
    \<and> (\<forall>pid. fmlookup la pid =
          (if pid \<in> set (cr_LifeLost r) then Some (p_Lives (the_player s' pid)) else None))"
  using close_penalties[OF assms] close_result_lists[OF assms] by blast

theorem close_penalises_exactly_witness:
  "\<exists>s' r la. applyPenalties ex_state = Some (s', r, la) \<and>
     fmlookup (s_Players s') ''p1'' = Some (ex_player ''p1'' ''alice'' 2) \<and>
     fmlookup (s_Players s') ''p2'' = Some (ex_player ''p2'' ''bob'' 2) \<and>
     fmlookup (s_Players s') ''p3'' = Some (ex_player ''p3'' ''carol'' 0) \<and>
     set (cr_LifeLost r) = {''p2'', ''p3''} \<and> fmlookup la ''p3'' = Some 0 \<and> fmlookup la ''p1'' = None"
proof -
  obtain s' r la where a: "applyPenalties ex_state = Some (s', r, la)"
    by (rule applyPenalties_Some[OF ex_Current])
  note T = close_penalises_exactly[OF a ex_Current]
  have p: "fmlookup (s_Players s') ''p1'' = Some (ex_player ''p1'' ''alice'' 2)"
    "fmlookup (s_Players s') ''p2'' = Some (ex_player ''p2'' ''bob'' 2)"
    "fmlookup (s_Players s') ''p3'' = Some (ex_player ''p3'' ''carol'' 0)"
    using T by (simp_all add: ex_state_def ex_player_def ex_question_def)
  have lost: "set (cr_LifeLost r) = {''p2'', ''p3''}"
    using T by (auto simp: ex_state_def ex_player_def ex_question_def split: if_splits)
  have "p_Lives (the_player s' ''p3'') = 0" by (simp add: the_player_def p ex_player_def)
  then show ?thesis using a T lost p by auto
qed

text \<open>
  C3: when a close ends the game and why. With one active player left the reason is
  \<open>last_player_standing\<close> and that player wins; with none it is \<open>all_eliminated\<close> and nobody
  wins; with two or more on the last question it is \<open>no_more_questions\<close> and the player with
  strictly more lives than every other survivor wins, nobody on a tie; otherwise the game goes on.
\<close>

theorem close_game_over:
  assumes "applyPenalties s = Some (s', r, la)" and "s_Current s = Some q" and "wf_players s"
  defines "alive \<equiv> activePlayers s'"
  shows "cr_Reason r = (if length alive = 1 then GameOverLastPlayerStanding
           else if alive = [] then GameOverAllEliminated
           else if RemainingQuestions s = 0 then GameOverNoMoreQuestions else '''')
       \<and> (cr_GameOver r \<longleftrightarrow> cr_Reason r \<noteq> '''')
       \<and> (cr_GameOver r \<longrightarrow> s_Status s' = GameStatusFinished \<and> s_EndReason s' = cr_Reason r \<and>
             cr_Survivors r = alive \<and>
             (\<forall>w. w \<noteq> '''' \<longrightarrow> (cr_Winner r = w \<longleftrightarrow> strict_leader s' alive w)))
       \<and> (\<not> cr_GameOver r \<longrightarrow> s_Status s' = s_Status s \<and> s_EndReason s' = s_EndReason s \<and>
             cr_Winner r = '''' \<and> cr_Survivors r = [])"
proof -
  note D = applyPenalties_SomeD[OF assms(1,2)]
  define s1 where "s1 = penalise_state s q"
  have pl: "s_Players s' = s_Players s1" using D(1) by (simp add: s1_def)
  have alive: "activePlayers s1 = alive" using activePlayers_cong[OF pl] by (simp add: alive_def)
  have rem: "RemainingQuestions s1 = RemainingQuestions s" by (simp add: RemainingQuestions_def s1_def)
  have reason: "cr_Reason r = over_reason alive (RemainingQuestions s)"
    using D(6) by (simp add: s1_def[symmetric] alive rem)
  have "wf_players s1" using wf_players_penalise_state[OF assms(3)] by (simp add: s1_def)
  moreover have "wf_players s' = wf_players s1"
    using D(1) by (intro wf_players_cong) (simp_all add: s1_def)
  ultimately obtain w where w: "leader s' alive = Some w"
      "w \<noteq> '''' \<longrightarrow> strict_leader s' alive w" "\<forall>i. strict_leader s' alive i \<longrightarrow> w = i"
    using leader_active[of s'] unfolding alive_def by blast
  have win: "cr_Winner r = w" if "cr_Reason r \<noteq> ''''"
    using D(6,7) w(1) that by (simp add: s1_def[symmetric] alive)
  have iff: "cr_Winner r = v \<longleftrightarrow> strict_leader s' alive v" if "cr_Reason r \<noteq> ''''" "v \<noteq> ''''" for v
    using w(2,3) win[OF that(1)] that(2) by auto
  have D1: "s' = (if cr_Reason r = '''' then s1 else s1\<lparr>s_Status := GameStatusFinished, s_EndReason := cr_Reason r\<rparr>)"
    and D5: "cr_GameOver r \<longleftrightarrow> cr_Reason r \<noteq> ''''"
    and D7: "cr_Reason r = '''' \<Longrightarrow> cr_Winner r = ''''"
    and D8: "cr_Survivors r = (if cr_Reason r = '''' then [] else alive)"
    using D(1,5-8) by (simp_all add: s1_def[symmetric] alive)
  have "cr_Reason r = (if length alive = 1 then GameOverLastPlayerStanding
      else if alive = [] then GameOverAllEliminated
      else if RemainingQuestions s = 0 then GameOverNoMoreQuestions else '''')"
    by (simp add: reason over_reason_def)
  moreover have "cr_GameOver r \<longrightarrow> s_Status s' = GameStatusFinished \<and> s_EndReason s' = cr_Reason r \<and>
      cr_Survivors r = alive \<and> (\<forall>w. w \<noteq> '''' \<longrightarrow> (cr_Winner r = w \<longleftrightarrow> strict_leader s' alive w))"
    using D1 D5 D8 iff by simp
  moreover have "\<not> cr_GameOver r \<longrightarrow> s_Status s' = s_Status s \<and> s_EndReason s' = s_EndReason s \<and>
      cr_Winner r = '''' \<and> cr_Survivors r = []"
    using D1 D5 D7 D8 by (simp add: s1_def)
  ultimately show ?thesis using D5 by blast
qed

lemma ex_closed_players:
  assumes "applyPenalties ex_state = Some (s', r, la)"
  shows "fmlookup (s_Players s') ''p1'' = Some (ex_player ''p1'' ''alice'' 2)"
    and "fmlookup (s_Players s') ''p2'' = Some (ex_player ''p2'' ''bob'' 2)"
    and "fmlookup (s_Players s') ''p3'' = Some (ex_player ''p3'' ''carol'' 0)"
proof -
  have "s_Players s' = s_Players (penalise_state ex_state ex_question)"
    using applyPenalties_SomeD(1)[OF assms ex_Current] by simp
  then show "fmlookup (s_Players s') ''p1'' = Some (ex_player ''p1'' ''alice'' 2)"
    and "fmlookup (s_Players s') ''p2'' = Some (ex_player ''p2'' ''bob'' 2)"
    and "fmlookup (s_Players s') ''p3'' = Some (ex_player ''p3'' ''carol'' 0)"
    by (simp_all add: lookup_penalise_state loses_def penalised_def)
      (simp_all add: ex_state_def ex_player_def ex_question_def)
qed

theorem close_game_over_witness:
  "\<exists>s' r la. applyPenalties ex_state = Some (s', r, la) \<and> cr_GameOver r \<and>
     cr_Reason r = GameOverNoMoreQuestions \<and> cr_Winner r = '''' \<and> cr_Survivors r = [''p1'', ''p2'']"
proof -
  obtain s' r la where a: "applyPenalties ex_state = Some (s', r, la)"
    by (rule applyPenalties_Some[OF ex_Current])
  note over = close_game_over[OF a ex_Current ex_wf[unfolded wf_State_def, THEN conjunct1]]
  have pl: "s_Players s' = s_Players (penalise_state ex_state ex_question)"
    using applyPenalties_SomeD(1)[OF a ex_Current] by simp
  have keys: "sorted_keys (s_Players s') = [''p1'', ''p2'', ''p3'']"
    unfolding pl sorted_keys_cong[OF fmdom_penalise_state] by (simp add: ex_state_def)
  note look = ex_closed_players[OF a]
  have alive: "activePlayers s' = [''p1'', ''p2'']"
    by (simp add: activePlayers_def map_fst_filter_entries keys look ex_player_def)
  have lives: "lives_of s' ''p1'' = 2" "lives_of s' ''p2'' = 2"
    by (simp_all add: lives_of_def look ex_player_def)
  have "\<not> strict_leader s' [''p1'', ''p2''] w" for w
    using lives by (auto simp: strict_leader_def)
  with over alive have "cr_Winner r = ''''" by (metis (lifting))
  moreover have "RemainingQuestions ex_state = 0" by (simp add: RemainingQuestions_def ex_state_def)
  ultimately show ?thesis using a over alive by simp
qed

end
