(* ===== verification/Go_Strconv.thy ===== *)
theory Go_Strconv
  imports Quiz_Prelude
begin

text \<open>
  Decimal text of integers, as \<open>strconv.Itoa\<close>, \<open>strconv.FormatInt(n, 10)\<close>,
  \<open>strconv.Atoi\<close> and \<open>strconv.ParseInt(s, 10, 64)\<close> define it, and the helper \<open>atoi\<close> of
  \<open>internal/redis/gamestate.go\<close>, which drops the error: 0 on a syntax error, the nearest
  64-bit value when the number is out of range.
\<close>

definition digit_char :: "nat \<Rightarrow> char" where
  "digit_char d = char_of (48 + d)"

definition char_digit :: "char \<Rightarrow> nat option" where
  "char_digit c = (let n = (of_char c :: nat) in if 48 \<le> n \<and> n \<le> 57 then Some (n - 48) else None)"

fun nat_digits :: "nat \<Rightarrow> string" where
  "nat_digits n = (if n < 10 then [digit_char n] else nat_digits (n div 10) @ [digit_char (n mod 10)])"

declare nat_digits.simps [simp del]

definition itoa :: "int \<Rightarrow> string" where
  "itoa i = (if i < 0 then CHR ''-'' # nat_digits (nat (- i)) else nat_digits (nat i))"

text \<open>
  The digits of an unsigned 64-bit number; a number that is too large gives the largest one as
  soon as it overflows, whatever follows.
\<close>

fun parse_digits :: "nat \<Rightarrow> string \<Rightarrow> nat option" where
  "parse_digits acc [] = Some acc"
| "parse_digits acc (c # cs) =
     (case char_digit c of None \<Rightarrow> None
      | Some d \<Rightarrow> if 2 ^ 64 \<le> 10 * acc + d then Some (2 ^ 64 - 1) else parse_digits (10 * acc + d) cs)"

definition int64_min :: int where "int64_min = - (2 ^ 63)"
definition int64_max :: int where "int64_max = 2 ^ 63 - 1"

definition clamp64 :: "int \<Rightarrow> int" where
  "clamp64 i = max int64_min (min int64_max i)"

text \<open>An optional sign, then at least one digit.\<close>

definition atoi :: "string \<Rightarrow> int" where
  "atoi s =
     (let (neg, ds) = (case s of [] \<Rightarrow> (False, [])
                        | c # cs \<Rightarrow> if c = CHR ''-'' then (True, cs)
                                    else if c = CHR ''+'' then (False, cs) else (False, s))
      in if ds = [] then 0
         else case parse_digits 0 ds of None \<Rightarrow> 0
              | Some n \<Rightarrow> clamp64 (if neg then - int n else int n))"

lemma char_digit_digit_char: "d < 10 \<Longrightarrow> char_digit (digit_char d) = Some d"
  by (simp add: char_digit_def digit_char_def)

lemma char_digit_neq: "d < 10 \<Longrightarrow> char_digit c = None \<Longrightarrow> digit_char d \<noteq> c"
  using char_digit_digit_char by fastforce

lemma digit_char_not_sign: "d < 10 \<Longrightarrow> digit_char d \<noteq> CHR ''-'' \<and> digit_char d \<noteq> CHR ''+''"
  by (simp add: char_digit_neq char_digit_def)

text \<open>The value of a text of digits, without the bound.\<close>

fun digits_value :: "nat \<Rightarrow> string \<Rightarrow> nat option" where
  "digits_value acc [] = Some acc"
| "digits_value acc (c # cs) =
     (case char_digit c of None \<Rightarrow> None | Some d \<Rightarrow> digits_value (10 * acc + d) cs)"

lemma digits_value_append:
  "digits_value acc (xs @ ys) =
     (case digits_value acc xs of None \<Rightarrow> None | Some n \<Rightarrow> digits_value n ys)"
  by (induction acc xs rule: digits_value.induct) (auto split: option.splits)

lemma digits_value_ge: "digits_value acc ds = Some n \<Longrightarrow> acc \<le> n"
  by (induction acc ds rule: digits_value.induct) (force split: option.splits)+

lemma parse_digits_value:
  "digits_value acc ds = Some n \<Longrightarrow> acc < 2 ^ 64 \<Longrightarrow> parse_digits acc ds = Some (min n (2 ^ 64 - 1))"
proof (induction acc ds rule: digits_value.induct)
  case (2 acc c cs)
  then obtain d where d: "char_digit c = Some d" and n: "digits_value (10 * acc + d) cs = Some n"
    by (auto split: option.splits)
  show ?case
  proof (cases "2 ^ 64 \<le> 10 * acc + d")
    case True
    with digits_value_ge[OF n] d show ?thesis by simp
  next
    case False
    with 2(1)[OF d n] d show ?thesis by simp
  qed
qed simp

lemma nat_digits_nonempty: "nat_digits n \<noteq> []"
  by (subst nat_digits.simps) simp

lemma hd_nat_digits: "\<exists>d < 10. hd (nat_digits n) = digit_char d"
proof (induction n rule: nat_digits.induct)
  case (1 n)
  show ?case
  proof (cases "n < 10")
    case True
    then show ?thesis by (subst nat_digits.simps) auto
  next
    case False
    with "1" show ?thesis
      by (subst nat_digits.simps) (simp add: nat_digits_nonempty)
  qed
qed

lemma value_nat_digits: "digits_value 0 (nat_digits n) = Some n"
proof (induction n rule: nat_digits.induct)
  case (1 n)
  show ?case
  proof (cases "n < 10")
    case True
    then show ?thesis
      by (subst nat_digits.simps) (simp add: char_digit_digit_char)
  next
    case False
    with "1" have "digits_value 0 (nat_digits (n div 10)) = Some (n div 10)" by simp
    with False show ?thesis
      by (subst nat_digits.simps) (simp add: digits_value_append char_digit_digit_char)
  qed
qed

lemma atoi_itoa_clamp: "atoi (itoa i) = clamp64 i"
proof -
  obtain c cs where ds: "nat_digits (nat \<bar>i\<bar>) = c # cs"
    using nat_digits_nonempty by (cases "nat_digits (nat \<bar>i\<bar>)") auto
  then have c: "c \<noteq> CHR ''-''" "c \<noteq> CHR ''+''"
    using hd_nat_digits[of "nat \<bar>i\<bar>"] digit_char_not_sign by fastforce+
  have p: "parse_digits 0 (c # cs) = Some (min (nat \<bar>i\<bar>) (2 ^ 64 - 1))"
    using parse_digits_value[OF value_nat_digits[of "nat \<bar>i\<bar>"]] ds by simp
  have cl: "clamp64 (- int (min (nat \<bar>i\<bar>) (2 ^ 64 - 1))) = clamp64 i" if "i < 0"
    using that by (auto simp: clamp64_def int64_min_def int64_max_def min_def max_def)
  have cl': "clamp64 (int (min (nat \<bar>i\<bar>) (2 ^ 64 - 1))) = clamp64 i" if "\<not> i < 0"
    using that by (auto simp: clamp64_def int64_min_def int64_max_def min_def max_def)
  show ?thesis
  proof (cases "i < 0")
    case True
    then have "itoa i = CHR ''-'' # c # cs" using ds by (simp add: itoa_def)
    with p True cl show ?thesis by (simp add: atoi_def del: parse_digits.simps)
  next
    case False
    then have "itoa i = c # cs" using ds by (simp add: itoa_def)
    with p c False cl' show ?thesis by (simp add: atoi_def del: parse_digits.simps)
  qed
qed

lemma atoi_itoa [simp]: "int64_min \<le> i \<Longrightarrow> i \<le> int64_max \<Longrightarrow> atoi (itoa i) = i"
  by (simp add: atoi_itoa_clamp clamp64_def)

lemma itoa_inject_nat [simp]: "nat_digits m = nat_digits n \<longleftrightarrow> m = n"
  using value_nat_digits by (metis option.inject)

lemma nat_digits_not_minus: "nat_digits n \<noteq> CHR ''-'' # cs"
  using hd_nat_digits[of n] digit_char_not_sign by (cases "nat_digits n") auto

lemma itoa_inject [simp]: "itoa i = itoa j \<longleftrightarrow> i = j"
  by (auto simp: itoa_def nat_digits_not_minus nat_digits_not_minus[symmetric] eq_nat_nat_iff
      split: if_splits)

lemma itoa_nonempty [simp]: "itoa i \<noteq> []"
  by (simp add: itoa_def nat_digits_nonempty)

lemma set_nat_digits: "set (nat_digits n) \<subseteq> digit_char ` {..<10}"
proof (induction n rule: nat_digits.induct)
  case (1 n)
  then show ?case by (subst nat_digits.simps) auto
qed

lemma bar_notin_itoa: "CHR ''|'' \<notin> set (itoa i)"
proof -
  have "digit_char d \<noteq> CHR ''|''" if "d < 10" for d
    using that by (rule char_digit_neq) (simp add: char_digit_def)
  then have "CHR ''|'' \<notin> digit_char ` {..<10}" by (metis imageE lessThan_iff)
  then have "CHR ''|'' \<notin> set (nat_digits n)" for n using set_nat_digits by blast
  then show ?thesis by (simp add: itoa_def)
qed

end
