(* ===== verification/Game_Store.thy ===== *)
theory Game_Store
  imports Game_Rules Go_Strconv
begin

text \<open>
  The interface between the game engine and its storage: \<open>StateStore\<close> of
  \<open>internal/game/store.go\<close>, and the errors of \<open>internal/game/engine.go\<close>.

  A store is a record of operations over an unspecified type of stores; each takes the store
  and returns the new one with the result. The contract that the interface's comments state is
  the locale \<open>state_store\<close>: an observer \<open>V\<close> reads from a store the games it holds (\<open>ob_view\<close>),
  the registered deadlines (\<open>ob_due\<close>) and the lock of each game (\<open>ob_lock\<close>), and each law says
  what an operation returns and how the observations change. A call may always fail with
  \<open>ErrStorage\<close> (the network or the server), and then a write has or has not taken place; while
  \<open>ob_up\<close> holds no call fails that way.
\<close>

section \<open>Errors\<close>

text \<open>
  The sentinel errors of the package, as \<open>errors.Is\<close> tells them apart. \<open>ErrStorage\<close> stands for
  every error of the storage layer that wraps none of them, \<open>ErrContext\<close> for a cancelled
  request context, \<open>NilPanic\<close> for a nil pointer dereference.
\<close>

datatype game_error =
    ErrGameNotFound | ErrGameAlreadyStarted | ErrGameNotRunning | ErrGameFinished
  | ErrPlayerNotFound | ErrPlayerAlreadyJoined | ErrPlayerEliminated | ErrAlreadyAnswered
  | ErrNoMoreQuestions | ErrNoActiveQuestion | ErrWrongQuestion | ErrQuestionOpen
  | ErrInvalidOption | ErrBusy
  | ErrStorage | ErrContext | NilPanic

record DueClose =
  dc_GameID :: string
  dc_Index :: int

section \<open>The interface\<close>

record 'st StateStore =
  ss_Create :: "State \<Rightarrow> question list \<Rightarrow> 'st \<Rightarrow> 'st \<times> (game_error + unit)"
  ss_Load :: "string \<Rightarrow> 'st \<Rightarrow> 'st \<times> (game_error + State)"
  ss_Question :: "string \<Rightarrow> int \<Rightarrow> 'st \<Rightarrow> 'st \<times> (game_error + question)"
  ss_Exists :: "string \<Rightarrow> 'st \<Rightarrow> 'st \<times> (game_error + bool)"
  ss_Lock :: "string \<Rightarrow> 'st \<Rightarrow> 'st \<times> (game_error + ('st \<Rightarrow> 'st))"
  ss_AddPlayer :: "string \<Rightarrow> time \<Rightarrow> player \<Rightarrow> 'st \<Rightarrow> 'st \<times> (game_error + unit)"
  ss_Save :: "State \<Rightarrow> player list \<Rightarrow> 'st \<Rightarrow> 'st \<times> (game_error + unit)"
  ss_RecordAnswer :: "string \<Rightarrow> int \<Rightarrow> string \<Rightarrow> string \<Rightarrow> 'st \<Rightarrow> 'st \<times> (game_error + unit)"
  ss_CloseAnswers :: "string \<Rightarrow> int \<Rightarrow> 'st \<Rightarrow> 'st \<times> (game_error + (string, string) fmap)"
  ss_ScheduleClose :: "string \<Rightarrow> int \<Rightarrow> time \<Rightarrow> 'st \<Rightarrow> 'st \<times> (game_error + unit)"
  ss_CancelClose :: "string \<Rightarrow> int \<Rightarrow> 'st \<Rightarrow> 'st \<times> (game_error + unit)"
  ss_ClaimDueCloses :: "time \<Rightarrow> nat \<Rightarrow> 'st \<Rightarrow> 'st \<times> (game_error + DueClose list)"
  ss_GamesOfActor :: "string \<Rightarrow> 'st \<Rightarrow> 'st \<times> (game_error + string list)"

section \<open>What a store holds\<close>

text \<open>
  A stored game: its state (without the current question and its answers), its questions by
  index and the answers by question index.
\<close>

record agame =
  ag_State :: State
  ag_Question :: "int \<Rightarrow> question option"
  ag_Answers :: "int \<Rightarrow> (string, string) fmap"

record 'st observer =
  ob_inv :: "'st \<Rightarrow> bool"
  ob_up :: "'st \<Rightarrow> bool"
  ob_view :: "'st \<Rightarrow> string \<Rightarrow> agame option"
  ob_due :: "'st \<Rightarrow> (string \<times> int) \<Rightarrow> int option"
  ob_lock :: "'st \<Rightarrow> string \<Rightarrow> string option"
  ob_fresh :: "'st \<Rightarrow> string \<Rightarrow> bool"
  ob_time :: "time \<Rightarrow> time"

text \<open>Milliseconds of a time, the unit of deadlines.\<close>

definition UnixMilli :: "time \<Rightarrow> int" where
  "UnixMilli t = t div 1000000"

text \<open>What \<open>Load\<close> returns for a stored game.\<close>

definition loaded :: "agame \<Rightarrow> game_error + State" where
  "loaded g = (let s = ag_State g in
     if 0 \<le> s_CurrentQIdx s then
       (case ag_Question g (s_CurrentQIdx s) of
          None \<Rightarrow> Inl ErrStorage
        | Some q \<Rightarrow> Inr (s\<lparr>s_Current := Some q, s_Answers := ag_Answers g (s_CurrentQIdx s)\<rparr>))
     else Inr (s\<lparr>s_Current := None, s_Answers := fmempty\<rparr>))"

fun load_view :: "agame option \<Rightarrow> game_error + State" where
  "load_view None = Inl ErrGameNotFound"
| "load_view (Some g) = loaded g"

text \<open>
  The stored game after \<open>Create\<close>, \<open>AddPlayer\<close>, \<open>Save\<close>, and the outcomes of \<open>RecordAnswer\<close>
  and \<open>CloseAnswers\<close>. \<open>tm\<close> is the precision with which the store keeps times.
\<close>

definition created :: "(time \<Rightarrow> time) \<Rightarrow> State \<Rightarrow> question list \<Rightarrow> agame" where
  "created tm s qs =
     \<lparr>ag_State = s\<lparr>s_CreatedAt := tm (s_CreatedAt s), s_QuestionStart := tm (s_QuestionStart s),
                   s_Players := fmempty, s_Current := None, s_Answers := fmempty\<rparr>,
      ag_Question = (\<lambda>i. if 0 \<le> i \<and> i < int (length qs) then Some (qs ! nat i) else None),
      ag_Answers = (\<lambda>_. fmempty)\<rparr>"

definition put_players :: "string \<Rightarrow> player list \<Rightarrow> agame \<Rightarrow> agame" where
  "put_players gid ps g = g\<lparr>ag_State := (ag_State g)
     \<lparr>s_Players := fmupds (map (\<lambda>p. (p_ID p, p\<lparr>p_GameID := gid\<rparr>)) ps) (s_Players (ag_State g))\<rparr>\<rparr>"

definition put_progress :: "(time \<Rightarrow> time) \<Rightarrow> State \<Rightarrow> agame \<Rightarrow> agame" where
  "put_progress tm s g = g\<lparr>ag_State := (ag_State g)
     \<lparr>s_Status := s_Status s, s_CurrentQIdx := s_CurrentQIdx s, s_QuestionOpen := s_QuestionOpen s,
      s_QuestionStart := tm (s_QuestionStart s), s_EndReason := s_EndReason s\<rparr>\<rparr>"

definition saved :: "(time \<Rightarrow> time) \<Rightarrow> State \<Rightarrow> player list \<Rightarrow> agame \<Rightarrow> agame" where
  "saved tm s ps g = put_players (s_ID s) ps (put_progress tm s g)"

definition record_spec :: "int \<Rightarrow> string \<Rightarrow> string \<Rightarrow> agame \<Rightarrow> game_error + agame" where
  "record_spec idx pid oid g = (let s = ag_State g in
     if s_Status s \<noteq> GameStatusRunning then Inl ErrGameNotRunning
     else if \<not> s_QuestionOpen s \<or> s_CurrentQIdx s \<noteq> idx then Inl ErrNoActiveQuestion
     else if pid |\<in>| fmdom (ag_Answers g idx) then Inl ErrAlreadyAnswered
     else Inr (g\<lparr>ag_Answers := (ag_Answers g)(idx := fmupd pid oid (ag_Answers g idx))\<rparr>))"

definition close_spec :: "int \<Rightarrow> agame \<Rightarrow> game_error + agame \<times> (string, string) fmap" where
  "close_spec idx g = (let s = ag_State g in
     if \<not> s_QuestionOpen s \<or> s_CurrentQIdx s \<noteq> idx then Inl ErrNoActiveQuestion
     else Inr (g\<lparr>ag_State := s\<lparr>s_QuestionOpen := False\<rparr>\<rparr>, ag_Answers g idx))"

text \<open>
  The integers of a state fit the 64 bits of the Go type. A time is exact when its milliseconds
  are represented exactly as a 64-bit float, the type of the scores of a sorted set.
\<close>

definition int64 :: "int \<Rightarrow> bool" where
  "int64 i \<longleftrightarrow> int64_min \<le> i \<and> i \<le> int64_max"

definition int64_state :: "State \<Rightarrow> bool" where
  "int64_state s \<longleftrightarrow> int64 (s_CurrentQIdx s) \<and> int64 (s_TotalQuestions s) \<and> int64 (InitialLives (s_Config s)) \<and>
      int64 (AnswerTimeoutSeconds (s_Config s)) \<and> int64 (UnixMilli (s_CreatedAt s)) \<and>
      int64 (UnixMilli (s_QuestionStart s))"

definition exact_time :: "time \<Rightarrow> bool" where
  "exact_time t \<longleftrightarrow> \<bar>UnixMilli t\<bar> \<le> 2 ^ 53"

definition drop_keys :: "'k set \<Rightarrow> ('k \<Rightarrow> 'v option) \<Rightarrow> 'k \<Rightarrow> 'v option" where
  "drop_keys A m k = (if k \<in> A then None else m k)"

section \<open>The contract\<close>

text \<open>
  Nothing observable has changed (\<open>unchanged\<close>), resp. only the games and the deadlines may have
  (\<open>call_ok\<close>); a call fails with \<open>ErrStorage\<close> only when the store is not up.
\<close>

definition call_ok :: "'st observer \<Rightarrow> 'st \<Rightarrow> 'st \<Rightarrow> game_error + 'a \<Rightarrow> bool" where
  "call_ok V st st' r \<longleftrightarrow> ob_inv V st' \<and> ob_lock V st' = ob_lock V st \<and>
     (ob_up V st \<longrightarrow> ob_up V st' \<and> r \<noteq> Inl ErrStorage)"

definition unchanged :: "'st observer \<Rightarrow> 'st \<Rightarrow> 'st \<Rightarrow> bool" where
  "unchanged V st st' \<longleftrightarrow> ob_view V st' = ob_view V st \<and> ob_due V st' = ob_due V st"

definition wrote :: "'st observer \<Rightarrow> 'st \<Rightarrow> 'st \<Rightarrow> string \<Rightarrow> agame \<Rightarrow> bool" where
  "wrote V st st' gid g \<longleftrightarrow> ob_view V st' = (ob_view V st)(gid \<mapsto> g) \<and> ob_due V st' = ob_due V st"

text \<open>A write: done on success, done or not on a storage error.\<close>

definition write_ok :: "'st observer \<Rightarrow> 'st \<Rightarrow> 'st \<Rightarrow> string \<Rightarrow> agame \<Rightarrow> game_error + unit \<Rightarrow> bool" where
  "write_ok V st st' gid g r \<longleftrightarrow> call_ok V st st' r \<and>
     (r = Inr () \<and> wrote V st st' gid g \<or>
      r = Inl ErrStorage \<and> (unchanged V st st' \<or> wrote V st st' gid g))"

text \<open>The member of \<open>ob_due\<close> a claimed deadline stands for.\<close>

definition due_key :: "DueClose \<Rightarrow> string \<times> int" where
  "due_key d = (dc_GameID d, dc_Index d)"

text \<open>What a stored game must offer for a state to be saved over it.\<close>

definition savable :: "agame \<Rightarrow> State \<Rightarrow> bool" where
  "savable g s \<longleftrightarrow> int64_state s \<and> (0 \<le> s_CurrentQIdx s \<longrightarrow> ag_Question g (s_CurrentQIdx s) \<noteq> None)"

locale state_store =
  fixes S :: "'st StateStore" and V :: "'st observer"
  assumes Due: "ob_inv V st \<Longrightarrow> finite (dom (ob_due V st))"
    and View: "ob_inv V st \<Longrightarrow> ob_view V st gid = Some g \<Longrightarrow>
      s_ID (ag_State g) = gid \<and> int64_state (ag_State g) \<and> loaded g \<noteq> Inl ErrStorage"
    and Load: "ob_inv V st \<Longrightarrow> ss_Load S gid st = (st', r) \<Longrightarrow>
      call_ok V st st' r \<and> unchanged V st st' \<and> (r = Inl ErrStorage \<or> r = load_view (ob_view V st gid))"
    and Question: "ob_inv V st \<Longrightarrow> ss_Question S gid idx st = (st', r') \<Longrightarrow>
      call_ok V st st' r' \<and> unchanged V st st' \<and>
      (r' = Inl ErrStorage \<or>
       r' = (case ob_view V st gid of None \<Rightarrow> Inl ErrGameNotFound
             | Some g \<Rightarrow> (case ag_Question g idx of None \<Rightarrow> Inl ErrGameNotFound | Some q \<Rightarrow> Inr q)))"
    and Exists: "ob_inv V st \<Longrightarrow> ss_Exists S gid st = (st', b) \<Longrightarrow>
      call_ok V st st' b \<and> unchanged V st st' \<and> (b = Inl ErrStorage \<or> b = Inr (ob_view V st gid \<noteq> None))"
    and Lock: "ob_inv V st \<Longrightarrow> ob_lock V st gid = None \<Longrightarrow> ss_Lock S gid st = (st', l) \<Longrightarrow>
      ob_inv V st' \<and> unchanged V st st' \<and>
      (l = Inl ErrStorage \<and> \<not> ob_up V st \<or>
       (\<exists>unlock tok. l = Inr unlock \<and> ob_lock V st' = (ob_lock V st)(gid \<mapsto> tok) \<and>
          (ob_up V st \<longrightarrow> ob_up V st') \<and>
          (\<forall>st2. ob_inv V st2 \<longrightarrow> ob_lock V st2 gid = Some tok \<longrightarrow>
             ob_inv V (unlock st2) \<and> unchanged V st2 (unlock st2) \<and>
             (ob_up V st2 \<longrightarrow> ob_up V (unlock st2) \<and>
                ob_lock V (unlock st2) = (ob_lock V st2)(gid := None)))))"
    and Create: "ob_inv V st \<Longrightarrow> ob_fresh V st (s_ID s) \<Longrightarrow> int64_state s \<Longrightarrow> s_CurrentQIdx s < 0 \<Longrightarrow>
      ss_Create S s qs st = (st', u) \<Longrightarrow> write_ok V st st' (s_ID s) (created (ob_time V) s qs) u"
    and AddPlayer: "ob_inv V st \<Longrightarrow> ob_view V st gid = Some g \<Longrightarrow>
      ss_AddPlayer S gid t p st = (st', u) \<Longrightarrow> write_ok V st st' gid (put_players gid [p] g) u"
    and Save: "ob_inv V st \<Longrightarrow> ob_view V st (s_ID s) = Some g \<Longrightarrow> savable g s \<Longrightarrow>
      ss_Save S s ps st = (st', u) \<Longrightarrow> write_ok V st st' (s_ID s) (saved (ob_time V) s ps g) u"
    and RecordAnswer: "ob_inv V st \<Longrightarrow> ss_RecordAnswer S gid idx pid oid st = (st', u) \<Longrightarrow>
      (case ob_view V st gid of
         None \<Rightarrow> call_ok V st st' u \<and> unchanged V st st' \<and> u \<in> {Inl ErrGameNotFound, Inl ErrStorage}
       | Some g \<Rightarrow> (case record_spec idx pid oid g of
           Inl e \<Rightarrow> call_ok V st st' u \<and> unchanged V st st' \<and> u \<in> {Inl e, Inl ErrStorage}
         | Inr g' \<Rightarrow> write_ok V st st' gid g' u))"
    and CloseAnswers: "ob_inv V st \<Longrightarrow> ss_CloseAnswers S gid idx st = (st', a) \<Longrightarrow>
      call_ok V st st' a \<and>
      (case ob_view V st gid of
         None \<Rightarrow> unchanged V st st' \<and> a \<in> {Inl ErrNoActiveQuestion, Inl ErrStorage}
       | Some g \<Rightarrow> (case close_spec idx g of
           Inl e \<Rightarrow> unchanged V st st' \<and> a \<in> {Inl e, Inl ErrStorage}
         | Inr (g', answers) \<Rightarrow>
             a = Inr answers \<and> wrote V st st' gid g' \<or>
             a = Inl ErrStorage \<and> (unchanged V st st' \<or> wrote V st st' gid g')))"
    and ScheduleClose: "ob_inv V st \<Longrightarrow> int64 idx \<Longrightarrow> exact_time at \<Longrightarrow> ss_ScheduleClose S gid idx at st = (st', u) \<Longrightarrow>
      call_ok V st st' u \<and> ob_view V st' = ob_view V st \<and>
      (u = Inr () \<and> ob_due V st' = (ob_due V st)((gid, idx) \<mapsto> UnixMilli at) \<or>
       u = Inl ErrStorage \<and> ob_due V st' \<in> {ob_due V st, (ob_due V st)((gid, idx) \<mapsto> UnixMilli at)})"
    and CancelClose: "ob_inv V st \<Longrightarrow> ss_CancelClose S gid idx st = (st', u) \<Longrightarrow>
      call_ok V st st' u \<and> ob_view V st' = ob_view V st \<and>
      (u = Inr () \<and> ob_due V st' = (ob_due V st)((gid, idx) := None) \<or>
       u = Inl ErrStorage \<and> ob_due V st' \<in> {ob_due V st, (ob_due V st)((gid, idx) := None)})"
    and ClaimDueCloses: "ob_inv V st \<Longrightarrow> exact_time now \<Longrightarrow> ss_ClaimDueCloses S now n st = (st', c) \<Longrightarrow>
      call_ok V st st' c \<and> ob_view V st' = ob_view V st \<and>
      (\<exists>ds. distinct (map due_key ds) \<and> length ds \<le> n \<and>
         (\<forall>d \<in> set ds. \<exists>t \<le> UnixMilli now. ob_due V st (due_key d) = Some t) \<and>
         (length ds < n \<longrightarrow> (\<forall>k t. ob_due V st k = Some t \<longrightarrow> t \<le> UnixMilli now \<longrightarrow> k \<in> due_key ` set ds)) \<and>
         (c = Inr ds \<and> ob_due V st' = drop_keys (due_key ` set ds) (ob_due V st) \<or>
          c = Inl ErrStorage \<and> ob_due V st' \<in> {ob_due V st, drop_keys (due_key ` set ds) (ob_due V st)}))"
    and GamesOfActor: "ob_inv V st \<Longrightarrow> ss_GamesOfActor S actor st = (st', ids) \<Longrightarrow>
      call_ok V st st' ids \<and> unchanged V st st' \<and>
      (ids = Inl ErrStorage \<or> (\<exists>gids. ids = Inr gids \<and> distinct gids \<and> (\<forall>gid \<in> set gids. ob_view V st gid \<noteq> None)))"

end
