(* ===== verification/Game_Engine.thy ===== *)
theory Game_Engine
  imports Game_Store
begin

text \<open>
  The engine of one game: \<open>internal/game/engine.go\<close>. An operation takes the store \<open>S\<close>, the game
  ID and the store's state, and returns the new state, the effects in the order the code
  produces them (events for every player, events for one player, the call of the manager's
  \<open>onClose\<close> hook) and the result. \<open>time.Now()\<close> is the argument \<open>now\<close>. Go ints are unbounded
  here; \<open>wf_State\<close> bounds lives and indices by the configuration and the number of questions,
  so none of them leaves the 64-bit range.
\<close>

section \<open>Events\<close>

text \<open>An event: its type and its payload, one constructor per \<open>EventType\<close>.\<close>

datatype event =
    EventGameJoined (ev_game_id: string) (ev_player_id: string) (ev_is_host: bool) (ev_lives: int)
      (ev_active: bool) (ev_status: GameStatus) (ev_question_list_id: string) (ev_total_questions: int)
      (ev_current_question: "QuestionPayload option")
  | EventPlayerJoined (ev_player_id: string) (ev_name: string) (ev_lives: int)
  | EventQuestionStarted (ev_payload: QuestionPayload)
  | EventAnswerSubmitted (ev_player_id: string) (ev_question_id: string)
  | EventAnswerRejected (ev_question_id: string) (ev_option_id: string) (ev_code: string) (ev_error: string)
  | EventQuestionClosed (ev_question_id: string) (ev_correct_option_id: string)
      (ev_remaining_questions: int) (ev_players: "PlayerScore list")
  | EventLifeLost (ev_player_id: string) (ev_lives_left: int)
  | EventPlayerEliminated (ev_player_id: string)
  | EventGameOver (ev_reason: GameOverReason) (ev_winner_id: string) (ev_survivors: "string list")

fun event_type :: "event \<Rightarrow> string" where
  "event_type (EventGameJoined _ _ _ _ _ _ _ _ _) = ''game_joined''"
| "event_type (EventPlayerJoined _ _ _) = ''player_joined''"
| "event_type (EventQuestionStarted _) = ''question_started''"
| "event_type (EventAnswerSubmitted _ _) = ''answer_submitted''"
| "event_type (EventAnswerRejected _ _ _ _) = ''answer_rejected''"
| "event_type (EventQuestionClosed _ _ _ _) = ''question_closed''"
| "event_type (EventLifeLost _ _) = ''life_lost''"
| "event_type (EventPlayerEliminated _) = ''player_eliminated''"
| "event_type (EventGameOver _ _ _) = ''game_over''"

datatype effect =
    Broadcast event
  | BroadcastTo string event
  | QuestionClosedHook string CloseQuestionResult

type_synonym ('st, 'a) outcome = "'st \<times> effect list \<times> (game_error + 'a)"

section \<open>Operations\<close>

text \<open>
  \<open>locked\<close>: take the lock, load the state under it, run the body, release the lock whatever
  the body returned.
\<close>

definition locked :: "'st StateStore \<Rightarrow> string \<Rightarrow> (State \<Rightarrow> 'st \<Rightarrow> 'st \<times> (game_error + 'a)) \<Rightarrow> 'st
    \<Rightarrow> 'st \<times> (game_error + 'a)" where
  "locked S gid body st = and_then (ss_Lock S gid st) (\<lambda>st1 unlock.
     (let (st2, r) = and_then (ss_Load S gid st1) (\<lambda>st2 s. body s st2) in (unlock st2, r)))"

definition new_player :: "string \<Rightarrow> string \<Rightarrow> int \<Rightarrow> string \<Rightarrow> string \<Rightarrow> player" where
  "new_player pid name lives gid actorID = \<lparr>p_ID = pid, p_Name = name, p_Lives = lives,
     p_Active = True, p_GameID = gid, p_ActorID = actorID\<rparr>"

definition AddPlayer_body :: "'st StateStore \<Rightarrow> string \<Rightarrow> string \<Rightarrow> string \<Rightarrow> string \<Rightarrow> State \<Rightarrow> 'st
    \<Rightarrow> 'st \<times> (game_error + int)" where
  "AddPlayer_body S gid pid name actorID s st =
     (if s_Status s \<noteq> GameStatusWaiting then (st, Inl ErrGameAlreadyStarted)
      else if pid |\<in>| fmdom (s_Players s) then (st, Inl ErrPlayerAlreadyJoined)
      else (let lives = InitialLives (s_Config s)
            in and_then (ss_AddPlayer S gid (s_CreatedAt s) (new_player pid name lives gid actorID) st)
                 (\<lambda>st' _. (st', Inr lives))))"

definition AddPlayer :: "'st StateStore \<Rightarrow> string \<Rightarrow> string \<Rightarrow> string \<Rightarrow> string \<Rightarrow> 'st \<Rightarrow> ('st, unit) outcome" where
  "AddPlayer S gid pid name actorID st =
     (case locked S gid (AddPlayer_body S gid pid name actorID) st of
        (st', Inl e) \<Rightarrow> (st', [], Inl e)
      | (st', Inr lives) \<Rightarrow> (st', [Broadcast (EventPlayerJoined pid name lives)], Inr ()))"

definition start_error :: "State \<Rightarrow> game_error option" where
  "start_error s =
     (if s_Status s = GameStatusFinished then
        Some (if s_EndReason s = GameOverNoMoreQuestions then ErrNoMoreQuestions else ErrGameFinished)
      else if s_QuestionOpen s then Some ErrQuestionOpen
      else if s_TotalQuestions s \<le> s_CurrentQIdx s + 1 then Some ErrNoMoreQuestions
      else None)"

definition started :: "time \<Rightarrow> question \<Rightarrow> State \<Rightarrow> State" where
  "started now q s = s\<lparr>s_Status := GameStatusRunning, s_CurrentQIdx := s_CurrentQIdx s + 1,
     s_QuestionOpen := True, s_QuestionStart := now, s_Current := Some q, s_Answers := fmempty\<rparr>"

definition StartNextQuestion_body :: "'st StateStore \<Rightarrow> string \<Rightarrow> time \<Rightarrow> State \<Rightarrow> 'st
    \<Rightarrow> 'st \<times> (game_error + QuestionPayload)" where
  "StartNextQuestion_body S gid now s st =
     (case start_error s of
        Some e \<Rightarrow> (st, Inl e)
      | None \<Rightarrow>
          (let next = s_CurrentQIdx s + 1
           in and_then (ss_Question S gid next st) (\<lambda>st1 q.
             (let s1 = started now q s; t = AnswerTimeoutSeconds (s_Config s1)
              in and_then
                   (if t > 0 then ss_ScheduleClose S gid next (s_QuestionStart s1 + duration_seconds t) st1
                    else (st1, Inr ())) (\<lambda>st2 _.
                 and_then (ss_Save S s1 [] st2) (\<lambda>st3 _.
                   (st3, case questionPayload s1 of None \<Rightarrow> Inl NilPanic | Some p \<Rightarrow> Inr p)))))))"

definition StartNextQuestion :: "'st StateStore \<Rightarrow> string \<Rightarrow> time \<Rightarrow> 'st \<Rightarrow> ('st, unit) outcome" where
  "StartNextQuestion S gid now st =
     (case locked S gid (StartNextQuestion_body S gid now) st of
        (st', Inl e) \<Rightarrow> (st', [], Inl e)
      | (st', Inr payload) \<Rightarrow> (st', [Broadcast (EventQuestionStarted payload)], Inr ()))"

definition submit_check :: "State \<Rightarrow> string \<Rightarrow> string \<Rightarrow> string \<Rightarrow> game_error option" where
  "submit_check s playerID questionID optionID =
     (if s_Status s \<noteq> GameStatusRunning then Some ErrGameNotRunning
      else case fmlookup (s_Players s) playerID of
        None \<Rightarrow> Some ErrPlayerNotFound
      | Some player \<Rightarrow>
          if \<not> p_Active player then Some ErrPlayerEliminated
          else case (s_QuestionOpen s, s_Current s) of
            (True, Some q) \<Rightarrow>
              if q_ID q \<noteq> questionID then Some ErrWrongQuestion
              else if playerID |\<in>| fmdom (s_Answers s) then Some ErrAlreadyAnswered
              else if \<not> hasOption q optionID then Some ErrInvalidOption
              else None
          | _ \<Rightarrow> Some ErrNoActiveQuestion)"

definition SubmitAnswer :: "'st StateStore \<Rightarrow> string \<Rightarrow> string \<Rightarrow> string \<Rightarrow> string \<Rightarrow> 'st \<Rightarrow> ('st, unit) outcome" where
  "SubmitAnswer S gid playerID questionID optionID st =
     (case and_then (ss_Load S gid st) (\<lambda>st1 s.
         case submit_check s playerID questionID optionID of
           Some e \<Rightarrow> (st1, Inl e)
         | None \<Rightarrow> ss_RecordAnswer S gid (s_CurrentQIdx s) playerID optionID st1) of
        (st', Inl e) \<Rightarrow> (st', [], Inl e)
      | (st', Inr _) \<Rightarrow> (st', [Broadcast (EventAnswerSubmitted playerID questionID)], Inr ()))"

type_synonym close_result = "CloseQuestionResult \<times> string \<times> string \<times> (string, int) fmap"

definition closeQuestion_body :: "'st StateStore \<Rightarrow> string \<Rightarrow> int \<Rightarrow> State \<Rightarrow> 'st
    \<Rightarrow> 'st \<times> (game_error + close_result)" where
  "closeQuestion_body S gid onlyIdx s st =
     (if s_Status s \<noteq> GameStatusRunning then (st, Inl ErrGameNotRunning)
      else if \<not> s_QuestionOpen s \<or> (0 \<le> onlyIdx \<and> s_CurrentQIdx s \<noteq> onlyIdx) then (st, Inl ErrNoActiveQuestion)
      else and_then (ss_CloseAnswers S gid (s_CurrentQIdx s) st) (\<lambda>st1 answers.
        (let s1 = s\<lparr>s_QuestionOpen := False, s_Answers := answers\<rparr>
         in case applyPenalties s1 of
              None \<Rightarrow> (st1, Inl NilPanic)
            | Some (s2, result, livesAfter) \<Rightarrow>
                and_then (ss_Save S s2 (map (the_player s2) (cr_LifeLost result)) st1) (\<lambda>st2 _.
                  (let (st3, cancelled) = ss_CancelClose S gid (s_CurrentQIdx s2) st2
                   in (st3, case s_Current s2 of
                              None \<Rightarrow> Inl NilPanic
                            | Some q \<Rightarrow> Inr (result, q_ID q, q_CorrectOptionID q, livesAfter)))))))"

definition close_events :: "close_result \<Rightarrow> effect list" where
  "close_events = (\<lambda>(result, questionID, correctOptionID, livesAfter).
     [Broadcast (EventQuestionClosed questionID correctOptionID (cr_RemainingQuestions result) (cr_Players result))]
     @ map (\<lambda>pid. BroadcastTo pid (EventLifeLost pid
             (case fmlookup livesAfter pid of None \<Rightarrow> 0 | Some n \<Rightarrow> n))) (cr_LifeLost result)
     @ map (\<lambda>pid. Broadcast (EventPlayerEliminated pid)) (cr_Eliminated result)
     @ (if cr_GameOver result
        then [Broadcast (EventGameOver (cr_Reason result) (cr_Winner result) (cr_Survivors result))] else []))"

definition closeQuestion :: "'st StateStore \<Rightarrow> string \<Rightarrow> int \<Rightarrow> 'st \<Rightarrow> ('st, CloseQuestionResult) outcome" where
  "closeQuestion S gid onlyIdx st =
     (case locked S gid (closeQuestion_body S gid onlyIdx) st of
        (st', Inl e) \<Rightarrow> (st', [], Inl e)
      | (st', Inr cr) \<Rightarrow> (st', close_events cr @ [QuestionClosedHook gid (fst cr)], Inr (fst cr)))"

definition CloseQuestion :: "'st StateStore \<Rightarrow> string \<Rightarrow> 'st \<Rightarrow> ('st, CloseQuestionResult) outcome" where
  "CloseQuestion S gid st = closeQuestion S gid (-1) st"

definition Engine_State :: "'st StateStore \<Rightarrow> string \<Rightarrow> 'st \<Rightarrow> 'st \<times> (game_error + State)" where
  "Engine_State S gid st = ss_Load S gid st"

end
