(* ===== verification/Redis_Client.thy ===== *)
theory Redis_Client
  imports Game_Engine
begin

text \<open>
  The Redis server and the go-redis client, as \<open>internal/redis/gamestate.go\<close> and
  \<open>internal/redis/broadcaster.go\<close> use them. Neither is
  part of the repository: the server is a function \<open>exec\<close> from a command, the server's clock (in
  milliseconds) and a database to the new database and the reply; its documented effects on the
  commands used are the laws of the locale \<open>redis_server\<close>. The connection (\<open>conn\<close>) says for each
  request whether it is delivered, lost, or executed with its reply lost; a lost request or
  reply is an error of the client.

  Keys that expire are not removed here: \<open>rexpiry\<close> records the expiry that the commands set, and
  the laws are those of a server on which no key has reached it.
\<close>

section \<open>Stored values\<close>

record storedPlayer =
  sp_ID :: string
  sp_Name :: string
  sp_Lives :: int
  sp_Active :: bool
  sp_ActorID :: string

record storedQuestion =
  sq_ID :: string
  sq_QuestionListID :: string
  sq_Text :: string
  sq_Options :: "qoption list"
  sq_CorrectOptionID :: string
  sq_OrderIndex :: int
  sq_Theme :: "question_theme option"

text \<open>
  A value of a hash: plain text, or the JSON text of a stored player or question, represented by
  the struct that \<open>encoding/json\<close> encodes in it and decodes from it.
\<close>

datatype field = FText string | FPlayer storedPlayer | FQuestion storedQuestion

datatype rvalue = RStr string | RHash "(string, field) fmap" | RZSet "(string, int) fmap"

text \<open>
  The messages of \<open>internal/redis/broadcaster.go\<close>: either an event for players or a connection
  claim for the instances. \<open>None\<close> is the zero event of a claim. The database keeps, as a ghost, the
  messages published on each channel, in order: a subscriber receives those after its subscription.
\<close>

record claimMsg =
  cm_PlayerID :: string
  cm_Seq :: int

record pubsubMsg =
  pm_Target :: string
  pm_Event :: "event option"
  pm_Claim :: "claimMsg option"

record redis_db =
  rkeys :: "string \<Rightarrow> rvalue option"
  rexpiry :: "string \<Rightarrow> int option"
  rlog :: "string \<Rightarrow> pubsubMsg list"

section \<open>Commands\<close>

datatype cmd =
    HSET string "(string \<times> field) list" | HSETNX string string field | HGET string string
  | HMGET string "string list" | HGETALL string | EXISTS string
  | EXPIRE string int | PEXPIRE string int
  | SETNX string string int | GET string | DEL string
  | ZADD string int string | ZREM string "string list" | ZRANGEBYSCORE string int nat | ZREVRANGE string
  | HINCRBY string string int | PUBLISH string pubsubMsg

datatype reply =
    RNil | RInt int | RBulk field | RBulks "field option list" | RFields "(string, field) fmap"
  | RMembers "string list" | RError

type_synonym server = "cmd \<Rightarrow> int \<Rightarrow> redis_db \<Rightarrow> redis_db \<times> reply"

text \<open>What a key holds; the wrong type reads as empty here and is excluded by the \<open>is_\<close> predicates.\<close>

definition is_hash :: "redis_db \<Rightarrow> string \<Rightarrow> bool" where
  "is_hash db k = (case rkeys db k of None \<Rightarrow> True | Some (RHash h) \<Rightarrow> h \<noteq> fmempty | _ \<Rightarrow> False)"

definition is_zset :: "redis_db \<Rightarrow> string \<Rightarrow> bool" where
  "is_zset db k = (case rkeys db k of None \<Rightarrow> True | Some (RZSet z) \<Rightarrow> z \<noteq> fmempty | _ \<Rightarrow> False)"

definition is_str :: "redis_db \<Rightarrow> string \<Rightarrow> bool" where
  "is_str db k = (case rkeys db k of None \<Rightarrow> True | Some (RStr _) \<Rightarrow> True | _ \<Rightarrow> False)"

definition hash :: "redis_db \<Rightarrow> string \<Rightarrow> (string, field) fmap" where
  "hash db k = (case rkeys db k of Some (RHash h) \<Rightarrow> h | _ \<Rightarrow> fmempty)"

definition zset :: "redis_db \<Rightarrow> string \<Rightarrow> (string, int) fmap" where
  "zset db k = (case rkeys db k of Some (RZSet z) \<Rightarrow> z | _ \<Rightarrow> fmempty)"

definition str :: "redis_db \<Rightarrow> string \<Rightarrow> string option" where
  "str db k = (case rkeys db k of Some (RStr s) \<Rightarrow> Some s | _ \<Rightarrow> None)"

definition put :: "string \<Rightarrow> rvalue \<Rightarrow> redis_db \<Rightarrow> redis_db" where
  "put k v db = db\<lparr>rkeys := (rkeys db)(k \<mapsto> v)\<rparr>"

definition del :: "string \<Rightarrow> redis_db \<Rightarrow> redis_db" where
  "del k db = db\<lparr>rkeys := (rkeys db)(k := None), rexpiry := (rexpiry db)(k := None)\<rparr>"

definition put_zset :: "string \<Rightarrow> (string, int) fmap \<Rightarrow> redis_db \<Rightarrow> redis_db" where
  "put_zset k z db = (if z = fmempty then del k db else put k (RZSet z) db)"

definition set_expiry :: "string \<Rightarrow> int \<Rightarrow> redis_db \<Rightarrow> redis_db" where
  "set_expiry k e db = (if rkeys db k = None then db else db\<lparr>rexpiry := (rexpiry db)(k \<mapsto> e)\<rparr>)"

definition publish_log :: "string \<Rightarrow> pubsubMsg \<Rightarrow> redis_db \<Rightarrow> redis_db" where
  "publish_log ch msg db = db\<lparr>rlog := (rlog db)(ch := rlog db ch @ [msg])\<rparr>"

text \<open>The members of a sorted set in score order, equal scores in byte order.\<close>

definition zmembers :: "(string, int) fmap \<Rightarrow> string list" where
  "zmembers z = map snd (sort (map (\<lambda>m. (the (fmlookup z m), m)) (sorted_keys z)))"

text \<open>
  A score is a 64-bit float: an integer is rounded to 53 significant bits, a tie to the even one.
\<close>

fun bit_len :: "nat \<Rightarrow> nat" where
  "bit_len n = (if n = 0 then 0 else Suc (bit_len (n div 2)))"

declare bit_len.simps [simp del]

definition float64 :: "int \<Rightarrow> int" where
  "float64 i =
     (let n = nat \<bar>i\<bar>; k = bit_len n - 53; q = n div 2 ^ k; r = n mod 2 ^ k; half = 2 ^ k div 2;
          m = (if 0 < k \<and> (half < r \<or> half = r \<and> odd q) then q + 1 else q) * 2 ^ k
      in if i < 0 then - int m else int m)"

lemma bit_len_le: "n < 2 ^ m \<Longrightarrow> bit_len n \<le> m"
proof (induction m arbitrary: n)
  case 0
  then show ?case by (simp add: bit_len.simps)
next
  case (Suc m)
  then have "bit_len (n div 2) \<le> m" by simp
  then show ?case by (subst bit_len.simps) simp
qed

lemma float64_exact: "\<bar>i\<bar> \<le> 2 ^ 53 \<Longrightarrow> float64 i = i"
proof -
  assume i: "\<bar>i\<bar> \<le> 2 ^ 53"
  show ?thesis
  proof (cases "\<bar>i\<bar> = 2 ^ 53")
    case True
    have b: "bit_len (2 ^ 53) = 54"
      by (simp add: bit_len.simps)
    have "nat \<bar>i\<bar> = 2 ^ 53" using True by simp
    with b True show ?thesis by (auto simp: float64_def Let_def)
  next
    case False
    with i have "nat \<bar>i\<bar> < 2 ^ 53" by (simp add: nat_less_iff)
    then have "bit_len (nat \<bar>i\<bar>) \<le> 53" by (rule bit_len_le)
    then show ?thesis by (auto simp: float64_def Let_def)
  qed
qed

section \<open>The server's contract\<close>

text \<open>go-redis sends a TTL in whole seconds, at least one.\<close>

definition whole_seconds :: "int \<Rightarrow> int" where
  "whole_seconds ttl = (if 0 < ttl \<and> ttl < 1000000000 then 1000 else 1000 * (ttl div 1000000000))"

locale redis_server =
  fixes exec :: server
  assumes hset: "is_hash db k \<Longrightarrow> fvs \<noteq> [] \<Longrightarrow>
      \<exists>n. exec (HSET k fvs) t db = (put k (RHash (fmupds fvs (hash db k))) db, RInt n)"
    and hsetnx: "is_hash db k \<Longrightarrow> exec (HSETNX k f v) t db =
      (if f |\<in>| fmdom (hash db k) then (db, RInt 0) else (put k (RHash (fmupd f v (hash db k))) db, RInt 1))"
    and hget: "is_hash db k \<Longrightarrow> exec (HGET k f) t db =
      (db, case fmlookup (hash db k) f of None \<Rightarrow> RNil | Some v \<Rightarrow> RBulk v)"
    and hmget: "is_hash db k \<Longrightarrow> exec (HMGET k fs) t db = (db, RBulks (map (fmlookup (hash db k)) fs))"
    and hgetall: "is_hash db k \<Longrightarrow> exec (HGETALL k) t db = (db, RFields (hash db k))"
    and exists: "exec (EXISTS k) t db = (db, RInt (if rkeys db k = None then 0 else 1))"
    and expire: "0 < ttl \<Longrightarrow> \<exists>n. exec (EXPIRE k ttl) t db = (set_expiry k (t + whole_seconds ttl) db, RInt n)"
    and pexpire: "0 < ttl \<Longrightarrow> \<exists>n. exec (PEXPIRE k ttl) t db = (set_expiry k (t + ttl) db, RInt n)"
    and setnx: "0 < ttl \<Longrightarrow> exec (SETNX k x ttl) t db =
      (if rkeys db k = None then (set_expiry k (t + UnixMilli ttl) (put k (RStr x) db), RInt 1) else (db, RInt 0))"
    and get: "is_str db k \<Longrightarrow> exec (GET k) t db = (db, case str db k of None \<Rightarrow> RNil | Some x \<Rightarrow> RBulk (FText x))"
    and delete: "\<exists>n. exec (DEL k) t db = (del k db, RInt n)"
    and zadd: "is_zset db k \<Longrightarrow> \<exists>n. exec (ZADD k score m) t db = (put k (RZSet (fmupd m score (zset db k))) db, RInt n)"
    and zrem: "is_zset db k \<Longrightarrow> ms \<noteq> [] \<Longrightarrow>
      \<exists>n. exec (ZREM k ms) t db = (put_zset k (fmdrop_set (set ms) (zset db k)) db, RInt n)"
    and zrangebyscore: "is_zset db k \<Longrightarrow> exec (ZRANGEBYSCORE k high limit) t db =
      (db, RMembers (take limit (filter (\<lambda>m. the (fmlookup (zset db k) m) \<le> float64 high) (zmembers (zset db k)))))"
    and hincrby: "is_hash db k \<Longrightarrow>
      (case fmlookup (hash db k) f of None \<Rightarrow> i = 0 | Some v \<Rightarrow> v = FText (itoa i)) \<Longrightarrow>
      int64_min \<le> i \<Longrightarrow> i \<le> int64_max \<Longrightarrow>
      exec (HINCRBY k f n) t db =
        (if int64_min \<le> i + n \<and> i + n \<le> int64_max
         then (put k (RHash (fmupd f (FText (itoa (i + n))) (hash db k))) db, RInt (i + n)) else (db, RError))"
    and publish: "\<exists>n. exec (PUBLISH ch msg) t db = (publish_log ch msg db, RInt n)"
    and zrevrange: "is_zset db k \<Longrightarrow> exec (ZREVRANGE k) t db = (db, RMembers (rev (zmembers (zset db k))))"

section \<open>The connection\<close>

record 'n conn =
  cn_send :: "'n \<Rightarrow> 'n \<times> delivery"
  cn_now :: "'n \<Rightarrow> time"
  cn_sleep :: "int \<Rightarrow> 'n \<Rightarrow> 'n"
  cn_random :: "'n \<Rightarrow> 'n \<times> string"
  cn_done :: "'n \<Rightarrow> bool"

record 'n rstate =
  rs_db :: redis_db
  rs_net :: 'n

definition request :: "'n conn \<Rightarrow> (int \<Rightarrow> redis_db \<Rightarrow> redis_db \<times> 'a) \<Rightarrow> 'n rstate \<Rightarrow> 'n rstate \<times> (game_error + 'a)" where
  "request L f st = (let (n, d) = cn_send L (rs_net st); (db, a) = f (UnixMilli (cn_now L (rs_net st))) (rs_db st)
     in case d of
          Delivered \<Rightarrow> (st\<lparr>rs_db := db, rs_net := n\<rparr>, Inr a)
        | LostRequest \<Rightarrow> (st\<lparr>rs_net := n\<rparr>, Inl ErrStorage)
        | LostReply \<Rightarrow> (st\<lparr>rs_db := db, rs_net := n\<rparr>, Inl ErrStorage))"

text \<open>A transaction or a pipeline: the commands in order, then their replies.\<close>

fun exec_all :: "server \<Rightarrow> cmd list \<Rightarrow> int \<Rightarrow> redis_db \<Rightarrow> redis_db \<times> reply list" where
  "exec_all exec [] t db = (db, [])"
| "exec_all exec (c # cs) t db =
     (let (db1, r) = exec c t db; (db2, rs) = exec_all exec cs t db1 in (db2, r # rs))"

text \<open>go-redis reports the first failed reply of a pipeline, a nil bulk included.\<close>

definition reply_error :: "reply \<Rightarrow> bool" where
  "reply_error r \<longleftrightarrow> r \<in> {RNil, RError}"

definition pipelined :: "server \<Rightarrow> 'n conn \<Rightarrow> cmd list \<Rightarrow> 'n rstate \<Rightarrow> 'n rstate \<times> (game_error + reply list)" where
  "pipelined exec L cs st = and_then (request L (exec_all exec cs) st) (\<lambda>st' rs.
     (st', if \<exists>r \<in> set rs. reply_error r then Inl ErrStorage else Inr rs))"

locale redis_conn =
  fixes L :: "'n conn" and up :: "'n \<Rightarrow> bool"
  assumes up_send: "up n \<Longrightarrow> cn_send L n = (n', d) \<Longrightarrow> d = Delivered \<and> up n'"
    and up_random: "up n \<Longrightarrow> cn_random L n = (n', tok) \<Longrightarrow> up n'"
    and now_send: "cn_send L n = (n', d) \<Longrightarrow> cn_now L n \<le> cn_now L n'"
    and now_sleep: "0 \<le> dur \<Longrightarrow> cn_now L n + dur \<le> cn_now L (cn_sleep L dur n)"

end
