(* ===== verification/Redis_Games.thy ===== *)
theory Redis_Games
  imports Redis_Client
begin

text \<open>
  The state store on Redis: \<open>internal/redis/gamestate.go\<close>. \<open>GameStateStore\<close> is the struct of the
  file with the server and the connection for its client; each method is one definition, each
  Lua script of the file a function on the database that calls the server's commands.
  \<open>gameStateStore\<close> collects the methods into the interface of \<open>Game_Store\<close>.
\<close>

section \<open>Keys and encodings\<close>

record 'n GameStateStore =
  gs_exec :: server
  gs_conn :: "'n conn"
  gs_idleTTL :: int
  gs_finishedTTL :: int
  gs_lockTTL :: int
  gs_lockWait :: int

definition NewGameStateStore :: "server \<Rightarrow> 'n conn \<Rightarrow> int \<Rightarrow> int \<Rightarrow> 'n GameStateStore" where
  "NewGameStateStore exec L idleTTL finishedTTL = \<lparr>gs_exec = exec, gs_conn = L, gs_idleTTL = idleTTL,
     gs_finishedTTL = finishedTTL, gs_lockTTL = 10 * 1000000000, gs_lockWait = 5 * 1000000000\<rparr>"

definition deadlinesKey :: string where
  "deadlinesKey = ''games:deadlines''"

definition metaKey :: "string \<Rightarrow> string" where
  "metaKey gid = ''game:{'' @ gid @ ''}:meta''"

definition questionsKey :: "string \<Rightarrow> string" where
  "questionsKey gid = ''game:{'' @ gid @ ''}:questions''"

definition playersKey :: "string \<Rightarrow> string" where
  "playersKey gid = ''game:{'' @ gid @ ''}:players''"

definition answersKey :: "string \<Rightarrow> int \<Rightarrow> string" where
  "answersKey gid idx = ''game:{'' @ gid @ ''}:answers:'' @ itoa idx"

definition lockKey :: "string \<Rightarrow> string" where
  "lockKey gid = ''game:{'' @ gid @ ''}:lock''"

definition actorGamesKey :: "string \<Rightarrow> string" where
  "actorGamesKey actorID = ''actor:{'' @ actorID @ ''}:games''"

definition deadlineMember :: "string \<Rightarrow> int \<Rightarrow> string" where
  "deadlineMember gid idx = gid @ ''|'' @ itoa idx"

definition ms :: "time \<Rightarrow> string" where
  "ms t = itoa (UnixMilli t)"

definition fromMS :: "string \<Rightarrow> time" where
  "fromMS s = (let n = atoi s in if n = 0 then zero_time else n * 1000000)"

definition boolField :: "bool \<Rightarrow> string" where
  "boolField b = (if b then ''1'' else ''0'')"

text \<open>Reading a field as text; a missing one reads as the empty string.\<close>

definition text_of :: "field option \<Rightarrow> string" where
  "text_of v = (case v of Some (FText s) \<Rightarrow> s | _ \<Rightarrow> '''')"

definition encodePlayer :: "player \<Rightarrow> storedPlayer" where
  "encodePlayer p = \<lparr>sp_ID = p_ID p, sp_Name = p_Name p, sp_Lives = p_Lives p, sp_Active = p_Active p,
     sp_ActorID = p_ActorID p\<rparr>"

definition loadPlayer :: "string \<Rightarrow> storedPlayer \<Rightarrow> player" where
  "loadPlayer gid sp = \<lparr>p_ID = sp_ID sp, p_Name = sp_Name sp, p_Lives = sp_Lives sp, p_Active = sp_Active sp,
     p_GameID = gid, p_ActorID = sp_ActorID sp\<rparr>"

definition encodeQuestion :: "question \<Rightarrow> storedQuestion" where
  "encodeQuestion q = \<lparr>sq_ID = q_ID q, sq_QuestionListID = q_QuestionListID q, sq_Text = q_Text q,
     sq_Options = q_Options q, sq_CorrectOptionID = q_CorrectOptionID q, sq_OrderIndex = q_OrderIndex q,
     sq_Theme = q_Theme q\<rparr>"

definition decodeQuestion :: "field \<Rightarrow> game_error + question" where
  "decodeQuestion raw = (case raw of
     FQuestion sq \<Rightarrow> Inr \<lparr>q_ID = sq_ID sq, q_QuestionListID = sq_QuestionListID sq, q_Text = sq_Text sq,
       q_Options = sq_Options sq, q_CorrectOptionID = sq_CorrectOptionID sq, q_OrderIndex = sq_OrderIndex sq,
       q_Theme = sq_Theme sq\<rparr>
   | _ \<Rightarrow> Inl ErrStorage)"

definition decodePlayers :: "string \<Rightarrow> (string, field) fmap \<Rightarrow> game_error + (string, player) fmap" where
  "decodePlayers gid h =
     (if fmpred (\<lambda>_ v. case v of FPlayer _ \<Rightarrow> True | _ \<Rightarrow> False) h
      then Inr (fmmap (\<lambda>v. case v of FPlayer sp \<Rightarrow> loadPlayer gid sp) h)
      else Inl ErrStorage)"

section \<open>Create and load\<close>

definition expire :: "'n GameStateStore \<Rightarrow> string \<Rightarrow> int \<Rightarrow> cmd list" where
  "expire R gid ttl = [EXPIRE (metaKey gid) ttl, EXPIRE (questionsKey gid) ttl, EXPIRE (playersKey gid) ttl]"

definition progressFields :: "State \<Rightarrow> (string \<times> field) list" where
  "progressFields s =
     [(''status'', FText (s_Status s)),
      (''current_q_idx'', FText (itoa (s_CurrentQIdx s))),
      (''question_open'', FText (boolField (s_QuestionOpen s))),
      (''question_start'', FText (ms (s_QuestionStart s))),
      (''end_reason'', FText (s_EndReason s))]"

definition tx :: "'n GameStateStore \<Rightarrow> cmd list \<Rightarrow> 'n rstate \<Rightarrow> 'n rstate \<times> (game_error + unit)" where
  "tx R cs st = and_then (pipelined (gs_exec R) (gs_conn R) cs st) (\<lambda>st' _. (st', Inr ()))"

definition Create_cmds :: "'n GameStateStore \<Rightarrow> State \<Rightarrow> question list \<Rightarrow> cmd list" where
  "Create_cmds R s questions =
     [HSET (metaKey (s_ID s))
        [(''owner_id'', FText (s_OwnerID s)),
         (''question_list_id'', FText (s_QuestionListID s)),
         (''created_at'', FText (ms (s_CreatedAt s))),
         (''initial_lives'', FText (itoa (InitialLives (s_Config s)))),
         (''answer_timeout_seconds'', FText (itoa (AnswerTimeoutSeconds (s_Config s)))),
         (''total_questions'', FText (itoa (s_TotalQuestions s)))],
      HSET (metaKey (s_ID s)) (progressFields s)]
     @ (let qs = map (\<lambda>(i, q). (itoa (int i), FQuestion (encodeQuestion q))) (enumerate 0 questions)
        in if qs \<noteq> [] then [HSET (questionsKey (s_ID s)) qs] else [])
     @ expire R (s_ID s) (gs_idleTTL R)"

definition Store_Create :: "'n GameStateStore \<Rightarrow> State \<Rightarrow> question list \<Rightarrow> 'n rstate \<Rightarrow> 'n rstate \<times> (game_error + unit)" where
  "Store_Create R s questions st = tx R (Create_cmds R s questions) st"

definition metaState :: "string \<Rightarrow> (string, field) fmap \<Rightarrow> (string, player) fmap \<Rightarrow> State" where
  "metaState gid meta players = (let m = (\<lambda>f. text_of (fmlookup meta f)) in
     \<lparr>s_ID = gid, s_Status = m ''status'', s_OwnerID = m ''owner_id'', s_QuestionListID = m ''question_list_id'',
      s_CreatedAt = fromMS (m ''created_at''),
      s_Config = \<lparr>InitialLives = atoi (m ''initial_lives''), AnswerTimeoutSeconds = atoi (m ''answer_timeout_seconds'')\<rparr>,
      s_TotalQuestions = atoi (m ''total_questions''), s_CurrentQIdx = atoi (m ''current_q_idx''),
      s_QuestionOpen = (m ''question_open'' = ''1''), s_QuestionStart = fromMS (m ''question_start''),
      s_EndReason = m ''end_reason'', s_Players = players, s_Current = None, s_Answers = fmempty\<rparr>)"

definition Store_Load :: "'n GameStateStore \<Rightarrow> string \<Rightarrow> 'n rstate \<Rightarrow> 'n rstate \<times> (game_error + State)" where
  "Store_Load R gid st =
     and_then (pipelined (gs_exec R) (gs_conn R) [HGETALL (metaKey gid), HGETALL (playersKey gid)] st) (\<lambda>st1 rs.
       (case rs of
          [RFields meta, RFields players] \<Rightarrow>
            if meta = fmempty then (st1, Inl ErrGameNotFound)
            else (case decodePlayers gid players of
              Inl e \<Rightarrow> (st1, Inl e)
            | Inr ps \<Rightarrow>
                (let s = metaState gid meta ps in
                 if 0 \<le> s_CurrentQIdx s then
                   and_then (pipelined (gs_exec R) (gs_conn R)
                       [HGET (questionsKey gid) (itoa (s_CurrentQIdx s)), HGETALL (answersKey gid (s_CurrentQIdx s))] st1)
                     (\<lambda>st2 rs. (case rs of
                        [RBulk raw, RFields answers] \<Rightarrow>
                          (st2, case decodeQuestion raw of
                             Inl e \<Rightarrow> Inl e
                           | Inr q \<Rightarrow> Inr (s\<lparr>s_Current := Some q, s_Answers := fmmap (\<lambda>v. text_of (Some v)) answers\<rparr>))
                      | _ \<Rightarrow> (st2, Inl ErrStorage)))
                 else (st1, Inr s)))
        | _ \<Rightarrow> (st1, Inl ErrStorage)))"

definition Store_Question :: "'n GameStateStore \<Rightarrow> string \<Rightarrow> int \<Rightarrow> 'n rstate \<Rightarrow> 'n rstate \<times> (game_error + question)" where
  "Store_Question R gid idx st =
     and_then (request (gs_conn R) (gs_exec R (HGET (questionsKey gid) (itoa idx))) st) (\<lambda>st' r.
       (st', case r of RNil \<Rightarrow> Inl ErrGameNotFound | RBulk raw \<Rightarrow> decodeQuestion raw | _ \<Rightarrow> Inl ErrStorage))"

definition Store_Exists :: "'n GameStateStore \<Rightarrow> string \<Rightarrow> 'n rstate \<Rightarrow> 'n rstate \<times> (game_error + bool)" where
  "Store_Exists R gid st =
     and_then (request (gs_conn R) (gs_exec R (EXISTS (metaKey gid))) st) (\<lambda>st' r.
       (st', case r of RInt n \<Rightarrow> Inr (n = 1) | _ \<Rightarrow> Inl ErrStorage))"

section \<open>Lock\<close>

definition unlockScript :: "server \<Rightarrow> string \<Rightarrow> string \<Rightarrow> int \<Rightarrow> redis_db \<Rightarrow> redis_db \<times> reply" where
  "unlockScript exec key token t db =
     (let (db1, r) = exec (GET key) t db
      in if r = RBulk (FText token) then exec (DEL key) t db1 else (db1, RInt 0))"

text \<open>The returned unlock runs the script and ignores its outcome.\<close>

definition unlock :: "'n GameStateStore \<Rightarrow> string \<Rightarrow> string \<Rightarrow> 'n rstate \<Rightarrow> 'n rstate" where
  "unlock R key token st = fst (request (gs_conn R) (unlockScript (gs_exec R) key token) st)"

text \<open>
  The loop of \<open>Lock\<close>, with the deadline and the delay, and a bound on the number of attempts that
  makes it a total function; \<open>lock_attempts\<close> is never used up (\<open>Redis_Store\<close>).
\<close>

fun Lock_loop :: "'n GameStateStore \<Rightarrow> string \<Rightarrow> string \<Rightarrow> time \<Rightarrow> int \<Rightarrow> nat \<Rightarrow> 'n rstate
    \<Rightarrow> ('n rstate \<times> (game_error + ('n rstate \<Rightarrow> 'n rstate))) option" where
  "Lock_loop R key token deadline delay 0 st = None"
| "Lock_loop R key token deadline delay (Suc fuel) st =
     (case request (gs_conn R) (gs_exec R (SETNX key token (gs_lockTTL R))) st of
        (st1, Inl e) \<Rightarrow> Some (st1, Inl e)
      | (st1, Inr (RInt n)) \<Rightarrow>
          if n = 1 then Some (st1, Inr (unlock R key token))
          else if deadline < cn_now (gs_conn R) (rs_net st1) then Some (st1, Inl ErrBusy)
          else if cn_done (gs_conn R) (rs_net st1) then Some (st1, Inl ErrContext)
          else Lock_loop R key token deadline (if delay < 50000000 then delay * 2 else delay) fuel
                 (st1\<lparr>rs_net := cn_sleep (gs_conn R) delay (rs_net st1)\<rparr>)
      | (st1, Inr _) \<Rightarrow> Some (st1, Inl ErrStorage))"

definition lock_attempts :: "'n GameStateStore \<Rightarrow> nat" where
  "lock_attempts R = nat (gs_lockWait R div 2000000) + 2"

definition Store_Lock :: "'n GameStateStore \<Rightarrow> string \<Rightarrow> 'n rstate \<Rightarrow> 'n rstate \<times> (game_error + ('n rstate \<Rightarrow> 'n rstate))" where
  "Store_Lock R gid st =
     (let (n, token) = cn_random (gs_conn R) (rs_net st); st1 = st\<lparr>rs_net := n\<rparr>;
          deadline = cn_now (gs_conn R) n + gs_lockWait R
      in case Lock_loop R (lockKey gid) token deadline 2000000 (lock_attempts R) st1 of
           Some res \<Rightarrow> res
         | None \<Rightarrow> (st1, Inl ErrBusy))"

section \<open>Writes\<close>

definition AddPlayer_cmds :: "'n GameStateStore \<Rightarrow> string \<Rightarrow> time \<Rightarrow> player \<Rightarrow> cmd list" where
  "AddPlayer_cmds R gid gameCreatedAt p =
     [HSET (playersKey gid) [(p_ID p, FPlayer (encodePlayer p))],
      ZADD (actorGamesKey (p_ActorID p)) (float64 (UnixMilli gameCreatedAt)) gid,
      EXPIRE (actorGamesKey (p_ActorID p)) (gs_idleTTL R)]
     @ expire R gid (gs_idleTTL R)"

definition Store_AddPlayer :: "'n GameStateStore \<Rightarrow> string \<Rightarrow> time \<Rightarrow> player \<Rightarrow> 'n rstate \<Rightarrow> 'n rstate \<times> (game_error + unit)" where
  "Store_AddPlayer R gid gameCreatedAt p st = tx R (AddPlayer_cmds R gid gameCreatedAt p) st"

definition Save_cmds :: "'n GameStateStore \<Rightarrow> State \<Rightarrow> player list \<Rightarrow> cmd list" where
  "Save_cmds R s players =
     [HSET (metaKey (s_ID s)) (progressFields s)]
     @ (let encoded = map (\<lambda>p. (p_ID p, FPlayer (encodePlayer p))) players
        in if encoded \<noteq> [] then [HSET (playersKey (s_ID s)) encoded] else [])
     @ (if s_Status s = GameStatusFinished
        then expire R (s_ID s) (gs_finishedTTL R)
          @ map (\<lambda>i. EXPIRE (answersKey (s_ID s) i) (gs_finishedTTL R)) [0..s_CurrentQIdx s]
        else expire R (s_ID s) (gs_idleTTL R))"

definition Store_Save :: "'n GameStateStore \<Rightarrow> State \<Rightarrow> player list \<Rightarrow> 'n rstate \<Rightarrow> 'n rstate \<times> (game_error + unit)" where
  "Store_Save R s players st = tx R (Save_cmds R s players) st"

section \<open>Answers\<close>

definition recordAnswerScript :: "server \<Rightarrow> string \<Rightarrow> string \<Rightarrow> string \<Rightarrow> string \<Rightarrow> string \<Rightarrow> int \<Rightarrow> int \<Rightarrow> redis_db
    \<Rightarrow> redis_db \<times> string" where
  "recordAnswerScript exec meta answers idx playerID optionID ttl t db =
     (let (db1, r) = exec (HMGET meta [''status'', ''question_open'', ''current_q_idx'']) t db
      in case r of
        RBulks [m1, m2, m3] \<Rightarrow>
          if m1 = None then (db1, ''game_not_found'')
          else if m1 \<noteq> Some (FText ''running'') then (db1, ''game_not_running'')
          else if m2 \<noteq> Some (FText ''1'') \<or> m3 \<noteq> Some (FText idx) then (db1, ''no_active_question'')
          else (let (db2, n) = exec (HSETNX answers playerID (FText optionID)) t db1
                in if n = RInt 0 then (db2, ''already_answered'')
                   else (let (db3, _) = exec (PEXPIRE answers ttl) t db2 in (db3, ''ok'')))
      | _ \<Rightarrow> (db1, ''error''))"

definition Store_RecordAnswer :: "'n GameStateStore \<Rightarrow> string \<Rightarrow> int \<Rightarrow> string \<Rightarrow> string \<Rightarrow> 'n rstate \<Rightarrow> 'n rstate \<times> (game_error + unit)" where
  "Store_RecordAnswer R gid idx playerID optionID st =
     and_then (request (gs_conn R) (recordAnswerScript (gs_exec R) (metaKey gid) (answersKey gid idx) (itoa idx)
         playerID optionID (gs_idleTTL R div 1000000)) st) (\<lambda>st' res.
       (st', if res = ''ok'' then Inr ()
             else if res = ''game_not_found'' then Inl ErrGameNotFound
             else if res = ''game_not_running'' then Inl ErrGameNotRunning
             else if res = ''no_active_question'' then Inl ErrNoActiveQuestion
             else if res = ''already_answered'' then Inl ErrAlreadyAnswered
             else Inl ErrStorage))"

definition closeAnswersScript :: "server \<Rightarrow> string \<Rightarrow> string \<Rightarrow> string \<Rightarrow> int \<Rightarrow> redis_db \<Rightarrow> redis_db \<times> reply" where
  "closeAnswersScript exec meta answers idx t db =
     (let (db1, r) = exec (HMGET meta [''question_open'', ''current_q_idx'']) t db
      in case r of
        RBulks [m1, m2] \<Rightarrow>
          if m1 \<noteq> Some (FText ''1'') \<or> m2 \<noteq> Some (FText idx) then (db1, RNil)
          else (let (db2, _) = exec (HSET meta [(''question_open'', FText ''0'')]) t db1
                in exec (HGETALL answers) t db2)
      | _ \<Rightarrow> (db1, RError))"

definition Store_CloseAnswers :: "'n GameStateStore \<Rightarrow> string \<Rightarrow> int \<Rightarrow> 'n rstate \<Rightarrow> 'n rstate \<times> (game_error + (string, string) fmap)" where
  "Store_CloseAnswers R gid idx st =
     and_then (request (gs_conn R) (closeAnswersScript (gs_exec R) (metaKey gid) (answersKey gid idx) (itoa idx)) st) (\<lambda>st' r.
       (st', case r of RNil \<Rightarrow> Inl ErrNoActiveQuestion
             | RFields h \<Rightarrow> Inr (fmmap (\<lambda>v. text_of (Some v)) h)
             | _ \<Rightarrow> Inl ErrStorage))"

section \<open>Answer deadlines\<close>

definition Store_ScheduleClose :: "'n GameStateStore \<Rightarrow> string \<Rightarrow> int \<Rightarrow> time \<Rightarrow> 'n rstate \<Rightarrow> 'n rstate \<times> (game_error + unit)" where
  "Store_ScheduleClose R gid idx at st =
     and_then (request (gs_conn R) (gs_exec R (ZADD deadlinesKey (float64 (UnixMilli at)) (deadlineMember gid idx))) st)
       (\<lambda>st' r. (st', if reply_error r then Inl ErrStorage else Inr ()))"

definition Store_CancelClose :: "'n GameStateStore \<Rightarrow> string \<Rightarrow> int \<Rightarrow> 'n rstate \<Rightarrow> 'n rstate \<times> (game_error + unit)" where
  "Store_CancelClose R gid idx st =
     and_then (request (gs_conn R) (gs_exec R (ZREM deadlinesKey [deadlineMember gid idx])) st)
       (\<lambda>st' r. (st', if reply_error r then Inl ErrStorage else Inr ()))"

definition claimDueScript :: "server \<Rightarrow> string \<Rightarrow> int \<Rightarrow> nat \<Rightarrow> int \<Rightarrow> redis_db \<Rightarrow> redis_db \<times> reply" where
  "claimDueScript exec key now limit t db =
     (let (db1, r) = exec (ZRANGEBYSCORE key now limit) t db
      in case r of
           RMembers due \<Rightarrow> if due \<noteq> [] then (let (db2, _) = exec (ZREM key due) t db1 in (db2, RMembers due))
                           else (db1, RMembers due)
         | _ \<Rightarrow> (db1, r))"

text \<open>The part before and the part after the last bar; \<open>None\<close> without a bar.\<close>

fun split_last_bar :: "string \<Rightarrow> (string \<times> string) option" where
  "split_last_bar [] = None"
| "split_last_bar (c # cs) =
     (case split_last_bar cs of
        Some (a, b) \<Rightarrow> Some (c # a, b)
      | None \<Rightarrow> if c = CHR ''|'' then Some ([], cs) else None)"

definition Store_ClaimDueCloses :: "'n GameStateStore \<Rightarrow> time \<Rightarrow> nat \<Rightarrow> 'n rstate \<Rightarrow> 'n rstate \<times> (game_error + DueClose list)" where
  "Store_ClaimDueCloses R now limit st =
     and_then (request (gs_conn R) (claimDueScript (gs_exec R) deadlinesKey (UnixMilli now) limit) st) (\<lambda>st' r.
       (st', case r of
               RMembers members \<Rightarrow> Inr (List.map_filter (\<lambda>m. map_option (\<lambda>(a, b). \<lparr>dc_GameID = a, dc_Index = atoi b\<rparr>) (split_last_bar m)) members)
             | RNil \<Rightarrow> Inr []
             | _ \<Rightarrow> Inl ErrStorage))"

section \<open>Actor index\<close>

definition Store_GamesOfActor :: "'n GameStateStore \<Rightarrow> string \<Rightarrow> 'n rstate \<Rightarrow> 'n rstate \<times> (game_error + string list)" where
  "Store_GamesOfActor R actorID st =
     (let key = actorGamesKey actorID in
      and_then (request (gs_conn R) (gs_exec R (ZREVRANGE key)) st) (\<lambda>st1 r.
        (case r of
           RMembers ids \<Rightarrow>
             if ids = [] then (st1, Inr [])
             else and_then (pipelined (gs_exec R) (gs_conn R) (map (\<lambda>i. EXISTS (metaKey i)) ids) st1) (\<lambda>st2 rs.
               (let live = map fst (filter (\<lambda>(i, r). r = RInt 1) (zip ids rs));
                    gone = map fst (filter (\<lambda>(i, r). r \<noteq> RInt 1) (zip ids rs));
                    st3 = (if gone \<noteq> [] then fst (request (gs_conn R) (gs_exec R (ZREM key gone)) st2) else st2)
                in (st3, Inr live)))
         | _ \<Rightarrow> (st1, Inl ErrStorage))))"

section \<open>The store\<close>

definition gameStateStore :: "'n GameStateStore \<Rightarrow> 'n rstate StateStore" where
  "gameStateStore R = \<lparr>ss_Create = Store_Create R, ss_Load = Store_Load R, ss_Question = Store_Question R,
     ss_Exists = Store_Exists R, ss_Lock = Store_Lock R, ss_AddPlayer = Store_AddPlayer R, ss_Save = Store_Save R,
     ss_RecordAnswer = Store_RecordAnswer R, ss_CloseAnswers = Store_CloseAnswers R,
     ss_ScheduleClose = Store_ScheduleClose R, ss_CancelClose = Store_CancelClose R,
     ss_ClaimDueCloses = Store_ClaimDueCloses R, ss_GamesOfActor = Store_GamesOfActor R\<rparr>"

end
