(* ===== verification/Redis_Store.thy ===== *)
theory Redis_Store
  imports Redis_Games
begin

text \<open>
  The Redis store keeps the contract of \<open>Game_Store\<close>: \<open>db_view\<close>, \<open>db_due\<close> and the lock key read the
  games, the deadlines and the locks from a database, \<open>db_ok\<close> is the shape of the database that
  every method keeps, and the locale \<open>redis_store\<close> (a server and a connection with their laws,
  and positive expiry times) is a sublocale of \<open>state_store\<close>.
\<close>

section \<open>The keys are disjoint\<close>

lemma last_itoa: "last (itoa i) \<in> digit_char ` {..<10}"
proof -
  have "last (nat_digits n) \<in> digit_char ` {..<10}" for n
    using set_nat_digits[of n] last_in_set[OF nat_digits_nonempty, of n] by blast
  then show ?thesis by (auto simp: itoa_def nat_digits_nonempty)
qed



lemma colon_notin_itoa: "CHR '':'' \<notin> set (itoa i)"
proof -
  have "digit_char d \<noteq> CHR '':''" if "d < 10" for d
    using that by (rule char_digit_neq) (simp add: char_digit_def)
  then have "CHR '':'' \<notin> digit_char ` {..<10}" by (metis imageE lessThan_iff)
  then have "CHR '':'' \<notin> set (nat_digits n)" for n using set_nat_digits by blast
  then show ?thesis by (simp add: itoa_def)
qed

lemma append_sep_eq:
  assumes "a @ c # x = b @ c # y" and "c \<notin> set x" and "c \<notin> set y"
  shows "a = b \<and> x = y"
  using assms
proof (induction a arbitrary: b)
  case Nil
  then show ?case by (cases b) auto
next
  case (Cons z a)
  then show ?case
  proof (cases b)
    case Nil
    with Cons.prems have "y = a @ c # x" by simp
    with Cons.prems show ?thesis by simp
  next
    case (Cons w b')
    with Cons.IH[of b'] Cons.prems show ?thesis by simp
  qed
qed

lemma last_keys:
  "last (metaKey g) = CHR ''a''" "last (questionsKey g) = CHR ''s''" "last (playersKey g) = CHR ''s''"
  "last (lockKey g) = CHR ''k''" "char_digit (last (answersKey g i)) \<noteq> None"
proof -
  obtain d where "d < 10" "last (itoa i) = digit_char d" using last_itoa[of i] by auto
  then show "char_digit (last (answersKey g i)) \<noteq> None"
    by (simp add: answersKey_def char_digit_digit_char)
qed (simp_all add: metaKey_def questionsKey_def playersKey_def lockKey_def)

lemma keys_inject [simp]:
  "metaKey g = metaKey h \<longleftrightarrow> g = h" "questionsKey g = questionsKey h \<longleftrightarrow> g = h"
  "playersKey g = playersKey h \<longleftrightarrow> g = h" "lockKey g = lockKey h \<longleftrightarrow> g = h"
  "actorGamesKey g = actorGamesKey h \<longleftrightarrow> g = h"
  by (auto simp: metaKey_def questionsKey_def playersKey_def lockKey_def actorGamesKey_def)

lemma answersKey_inject [simp]: "answersKey g i = answersKey h j \<longleftrightarrow> g = h \<and> i = j"
proof
  assume "answersKey g i = answersKey h j"
  then have "(g @ ''}:answers'') @ CHR '':'' # itoa i = (h @ ''}:answers'') @ CHR '':'' # itoa j"
    by (simp add: answersKey_def)
  from append_sep_eq[OF this colon_notin_itoa colon_notin_itoa] show "g = h \<and> i = j" by simp
qed simp

lemma deadlineMember_inject [simp]: "deadlineMember g i = deadlineMember h j \<longleftrightarrow> g = h \<and> i = j"
proof
  assume "deadlineMember g i = deadlineMember h j"
  then have "g @ CHR ''|'' # itoa i = h @ CHR ''|'' # itoa j" by (simp add: deadlineMember_def)
  from append_sep_eq[OF this bar_notin_itoa bar_notin_itoa] show "g = h \<and> i = j" by simp
qed simp

lemma char_digit_letters [simp]: "char_digit CHR ''a'' = None" "char_digit CHR ''s'' = None" "char_digit CHR ''k'' = None"
  by (simp_all add: char_digit_def)

lemma keys_last_neq:
  "metaKey g \<noteq> questionsKey h" "metaKey g \<noteq> playersKey h" "metaKey g \<noteq> lockKey h" "metaKey g \<noteq> answersKey h i"
  "questionsKey g \<noteq> lockKey h" "questionsKey g \<noteq> answersKey h i" "playersKey g \<noteq> lockKey h"
  "playersKey g \<noteq> answersKey h i" "lockKey g \<noteq> answersKey h i"
proof -
  show "metaKey g \<noteq> questionsKey h" "metaKey g \<noteq> playersKey h" "metaKey g \<noteq> lockKey h"
    "questionsKey g \<noteq> lockKey h" "playersKey g \<noteq> lockKey h"
    using last_keys(1-4)[of g] last_keys(1-4)[of h] by fastforce+
  show "metaKey g \<noteq> answersKey h i" "questionsKey g \<noteq> answersKey h i" "playersKey g \<noteq> answersKey h i"
    "lockKey g \<noteq> answersKey h i"
    using last_keys(1-4)[of g] last_keys(5)[of h i] char_digit_letters by metis+
qed

lemma keys_other_neq:
  "questionsKey g \<noteq> playersKey h" "actorGamesKey a \<noteq> deadlinesKey"
  "metaKey g \<noteq> actorGamesKey a" "questionsKey g \<noteq> actorGamesKey a" "playersKey g \<noteq> actorGamesKey a"
  "lockKey g \<noteq> actorGamesKey a" "answersKey g i \<noteq> actorGamesKey a"
  "metaKey g \<noteq> deadlinesKey" "questionsKey g \<noteq> deadlinesKey" "playersKey g \<noteq> deadlinesKey"
  "lockKey g \<noteq> deadlinesKey" "answersKey g i \<noteq> deadlinesKey"
proof -
  have "last (butlast (questionsKey g)) = CHR ''n''" "last (butlast (playersKey h)) = CHR ''r''"
    by (simp_all add: questionsKey_def playersKey_def butlast_append)
  then show "questionsKey g \<noteq> playersKey h" by force
qed (simp_all add: metaKey_def questionsKey_def playersKey_def lockKey_def actorGamesKey_def answersKey_def deadlinesKey_def)

lemmas keys_neq [simp] = keys_last_neq keys_other_neq keys_last_neq[symmetric] keys_other_neq[symmetric]

section \<open>Reading the database\<close>

lemma hash_put [simp]: "hash (put k v db) k' = (if k' = k then (case v of RHash h \<Rightarrow> h | _ \<Rightarrow> fmempty) else hash db k')"
  by (simp add: hash_def put_def)

lemma zset_put [simp]: "zset (put k v db) k' = (if k' = k then (case v of RZSet z \<Rightarrow> z | _ \<Rightarrow> fmempty) else zset db k')"
  by (simp add: zset_def put_def)

lemma str_put [simp]: "str (put k v db) k' = (if k' = k then (case v of RStr s \<Rightarrow> Some s | _ \<Rightarrow> None) else str db k')"
  by (simp add: str_def put_def)

lemma is_put [simp]:
  "is_hash (put k v db) k' = (if k' = k then (case v of RHash h \<Rightarrow> h \<noteq> fmempty | _ \<Rightarrow> False) else is_hash db k')"
  "is_zset (put k v db) k' = (if k' = k then (case v of RZSet z \<Rightarrow> z \<noteq> fmempty | _ \<Rightarrow> False) else is_zset db k')"
  "is_str (put k v db) k' = (if k' = k then (case v of RStr _ \<Rightarrow> True | _ \<Rightarrow> False) else is_str db k')"
  by (simp_all add: is_hash_def is_zset_def is_str_def put_def split: rvalue.splits)

lemma del_read [simp]:
  "hash (del k db) k' = (if k' = k then fmempty else hash db k')"
  "zset (del k db) k' = (if k' = k then fmempty else zset db k')"
  "str (del k db) k' = (if k' = k then None else str db k')"
  "is_hash (del k db) k' = (k' = k \<or> is_hash db k')"
  "is_zset (del k db) k' = (k' = k \<or> is_zset db k')"
  "is_str (del k db) k' = (k' = k \<or> is_str db k')"
  by (simp_all add: hash_def zset_def str_def is_hash_def is_zset_def is_str_def del_def)

lemma put_zset_read [simp]:
  "hash (put_zset k z db) k' = (if k' = k then fmempty else hash db k')"
  "zset (put_zset k z db) k' = (if k' = k then z else zset db k')"
  "str (put_zset k z db) k' = (if k' = k then None else str db k')"
  "k' \<noteq> k \<Longrightarrow> is_hash (put_zset k z db) k' = is_hash db k'"
  "is_zset (put_zset k z db) k' = (k' = k \<or> is_zset db k')"
  "k' \<noteq> k \<Longrightarrow> is_str (put_zset k z db) k' = is_str db k'"
  by (simp_all add: put_zset_def)

lemma rkeys_set_expiry [simp]: "rkeys (set_expiry k e db) = rkeys db"
  by (simp add: set_expiry_def)

text \<open>Only the keys matter to the reads, not the expiries.\<close>

lemma rkeys_cong:
  assumes "rkeys db' = rkeys db"
  shows "hash db' = hash db" "zset db' = zset db" "str db' = str db"
    "is_hash db' = is_hash db" "is_zset db' = is_zset db" "is_str db' = is_str db"
  using assms by (simp_all add: hash_def zset_def str_def is_hash_def is_zset_def is_str_def fun_eq_iff)

lemma hash_empty_iff: "is_hash db k \<Longrightarrow> hash db k = fmempty \<longleftrightarrow> rkeys db k = None"
  by (auto simp: is_hash_def hash_def split: option.splits rvalue.splits)

lemma str_None_iff: "is_str db k \<Longrightarrow> str db k = None \<longleftrightarrow> rkeys db k = None"
  by (auto simp: is_str_def str_def split: option.splits rvalue.splits)

section \<open>The shape of the database\<close>

definition db_typed :: "redis_db \<Rightarrow> bool" where
  "db_typed db \<longleftrightarrow> (\<forall>g. is_hash db (metaKey g)) \<and> (\<forall>g. is_hash db (questionsKey g)) \<and> (\<forall>g. is_hash db (playersKey g)) \<and>
     (\<forall>g i. is_hash db (answersKey g i)) \<and> (\<forall>g. is_str db (lockKey g)) \<and> (\<forall>a. is_zset db (actorGamesKey a)) \<and>
     is_zset db deadlinesKey"

definition meta_ok :: "(string, field) fmap \<Rightarrow> bool" where
  "meta_ok m \<longleftrightarrow> (\<exists>s. fmlookup m ''status'' = Some (FText s)) \<and>
     (\<exists>b. fmlookup m ''question_open'' = Some (FText (boolField b))) \<and>
     (\<exists>n. int64 n \<and> fmlookup m ''current_q_idx'' = Some (FText (itoa n)))"

definition game_ok :: "redis_db \<Rightarrow> string \<Rightarrow> bool" where
  "game_ok db g \<longleftrightarrow> hash db (metaKey g) = fmempty \<and> hash db (questionsKey g) = fmempty \<or>
     meta_ok (hash db (metaKey g)) \<and>
     (\<forall>k v. fmlookup (hash db (playersKey g)) k = Some v \<longrightarrow> (\<exists>sp. v = FPlayer sp)) \<and>
     (\<forall>k v. fmlookup (hash db (questionsKey g)) k = Some v \<longrightarrow> (\<exists>sq. v = FQuestion sq)) \<and>
     (let i = atoi (text_of (fmlookup (hash db (metaKey g)) ''current_q_idx'')) in
        0 \<le> i \<longrightarrow> itoa i |\<in>| fmdom (hash db (questionsKey g)))"

definition db_ok :: "redis_db \<Rightarrow> bool" where
  "db_ok db \<longleftrightarrow> db_typed db \<and> (\<forall>g. game_ok db g) \<and>
     (\<forall>m. m |\<in>| fmdom (zset db deadlinesKey) \<longrightarrow> (\<exists>g i. int64 i \<and> m = deadlineMember g i))"

definition db_view :: "redis_db \<Rightarrow> string \<Rightarrow> agame option" where
  "db_view db g = (if hash db (metaKey g) = fmempty then None else Some
     \<lparr>ag_State = metaState g (hash db (metaKey g))
        (fmmap (\<lambda>v. case v of FPlayer sp \<Rightarrow> loadPlayer g sp) (hash db (playersKey g))),
      ag_Question = (\<lambda>i. case fmlookup (hash db (questionsKey g)) (itoa i) of
         None \<Rightarrow> None | Some v \<Rightarrow> (case decodeQuestion v of Inl _ \<Rightarrow> None | Inr q \<Rightarrow> Some q)),
      ag_Answers = (\<lambda>i. fmmap (\<lambda>v. text_of (Some v)) (hash db (answersKey g i)))\<rparr>)"

definition db_due :: "redis_db \<Rightarrow> string \<times> int \<Rightarrow> int option" where
  "db_due db = (\<lambda>(g, i). fmlookup (zset db deadlinesKey) (deadlineMember g i))"

definition db_fresh :: "redis_db \<Rightarrow> string \<Rightarrow> bool" where
  "db_fresh db g \<longleftrightarrow> rkeys db (metaKey g) = None \<and> rkeys db (questionsKey g) = None \<and>
     rkeys db (playersKey g) = None \<and> (\<forall>i. rkeys db (answersKey g i) = None)"

definition observer :: "('n \<Rightarrow> bool) \<Rightarrow> 'n rstate observer" where
  "observer up = \<lparr>ob_inv = (\<lambda>st. db_ok (rs_db st)), ob_up = (\<lambda>st. up (rs_net st)),
     ob_view = (\<lambda>st. db_view (rs_db st)), ob_due = (\<lambda>st. db_due (rs_db st)),
     ob_lock = (\<lambda>st g. str (rs_db st) (lockKey g)), ob_fresh = (\<lambda>st. db_fresh (rs_db st)),
     ob_time = (\<lambda>t. fromMS (ms t))\<rparr>"

lemma observer_simps [simp]:
  "ob_inv (observer up) st = db_ok (rs_db st)" "ob_up (observer up) st = up (rs_net st)"
  "ob_view (observer up) st = db_view (rs_db st)" "ob_due (observer up) st = db_due (rs_db st)"
  "ob_lock (observer up) st = (\<lambda>g. str (rs_db st) (lockKey g))" "ob_fresh (observer up) st = db_fresh (rs_db st)"
  "ob_time (observer up) = (\<lambda>t. fromMS (ms t))"
  by (simp_all add: observer_def)

lemma db_cong:
  assumes "rkeys db' = rkeys db"
  shows "db_ok db' = db_ok db" "db_view db' = db_view db" "db_due db' = db_due db"
  using rkeys_cong[OF assms] assms
  by (simp_all add: db_ok_def db_typed_def game_ok_def db_view_def db_due_def fun_eq_iff)

section \<open>Requests\<close>

locale redis_store = redis_server "gs_exec R" + redis_conn "gs_conn R" up
  for R :: "'n GameStateStore" and up :: "'n \<Rightarrow> bool" +
  assumes idleTTL: "1000000 \<le> gs_idleTTL R" and finishedTTL: "0 < gs_finishedTTL R"
    and lockTTL: "0 < gs_lockTTL R" and lockWait: "0 \<le> gs_lockWait R"

definition now_ms :: "'n GameStateStore \<Rightarrow> 'n rstate \<Rightarrow> int" where
  "now_ms R st = UnixMilli (cn_now (gs_conn R) (rs_net st))"

text \<open>An outcome of a request: executed with its reply, or a storage error, executed or not.\<close>

definition requested :: "('n \<Rightarrow> bool) \<Rightarrow> 'n rstate \<Rightarrow> 'n rstate \<Rightarrow> redis_db \<Rightarrow> 'a \<Rightarrow> game_error + 'a \<Rightarrow> bool" where
  "requested up st st' db a r \<longleftrightarrow> (up (rs_net st) \<longrightarrow> up (rs_net st')) \<and>
     (r = Inr a \<and> rs_db st' = db \<or>
      r = Inl ErrStorage \<and> \<not> up (rs_net st) \<and> rs_db st' \<in> {rs_db st, db})"

context redis_store
begin

lemma request_requested:
  assumes "request (gs_conn R) f st = (st', r)" and "f (now_ms R st) (rs_db st) = (db, a)"
  shows "requested up st st' db a r"
proof -
  obtain n d where s: "cn_send (gs_conn R) (rs_net st) = (n, d)" by fastforce
  have u: "up (rs_net st) \<Longrightarrow> d = Delivered \<and> up n" using up_send s by blast
  show ?thesis
    using assms s u by (cases d) (auto simp: request_def requested_def now_ms_def)
qed

lemma tx_requested:
  assumes "tx R cs st = (st', r)" and "exec_all (gs_exec R) cs (now_ms R st) (rs_db st) = (db, rs)"
    and "\<forall>x \<in> set rs. \<not> reply_error x"
  shows "requested up st st' db () r"
proof -
  obtain st1 a where q: "request (gs_conn R) (exec_all (gs_exec R) cs) st = (st1, a)" by fastforce
  from request_requested[OF q assms(2)] show ?thesis
    using assms(1,3) q by (auto simp: tx_def pipelined_def requested_def)
qed

lemma pipelined_requested:
  assumes "pipelined (gs_exec R) (gs_conn R) cs st = (st', r)"
    and "exec_all (gs_exec R) cs (now_ms R st) (rs_db st) = (db, rs)" and "\<forall>x \<in> set rs. \<not> reply_error x"
  shows "requested up st st' db rs r"
proof -
  obtain st1 a where q: "request (gs_conn R) (exec_all (gs_exec R) cs) st = (st1, a)" by fastforce
  from request_requested[OF q assms(2)] show ?thesis
    using assms(1,3) q by (auto simp: pipelined_def requested_def)
qed

text \<open>The expiry commands of a transaction change no key and always succeed.\<close>

lemma exec_expires:
  assumes "\<forall>c \<in> set cs. \<exists>k ttl. c = EXPIRE k ttl \<and> 0 < ttl"
  shows "\<exists>db' rs. exec_all (gs_exec R) cs t db = (db', rs) \<and> rkeys db' = rkeys db \<and> (\<forall>x \<in> set rs. \<not> reply_error x)"
  using assms
proof (induction cs arbitrary: db)
  case (Cons c cs)
  then obtain k ttl where c: "c = EXPIRE k ttl" "0 < ttl" by auto
  obtain n where e: "gs_exec R c t db = (set_expiry k (t + whole_seconds ttl) db, RInt n)"
    using expire[OF c(2)] c(1) by blast
  obtain db' rs where "exec_all (gs_exec R) cs t (set_expiry k (t + whole_seconds ttl) db) = (db', rs)"
    "rkeys db' = rkeys db" "\<forall>x \<in> set rs. \<not> reply_error x"
    using Cons.IH[of "set_expiry k (t + whole_seconds ttl) db"] Cons.prems by auto
  then show ?case using e by (auto simp: reply_error_def)
qed simp

lemma exec_append:
  "exec_all ex (cs @ ds) t db = (let (db1, rs1) = exec_all ex cs t db; (db2, rs2) = exec_all ex ds t db1 in (db2, rs1 @ rs2))"
  by (induction cs arbitrary: db) (auto simp: Let_def split: prod.splits)

lemma exec_hset:
  assumes "is_hash db k" and "fvs \<noteq> []"
  obtains n where "gs_exec R (HSET k fvs) t db = (put k (RHash (fmupds fvs (hash db k))) db, RInt n)"
  using hset[OF assms] by blast

lemma expire_positive: "0 < ttl \<Longrightarrow> \<forall>c \<in> set (expire R g ttl). \<exists>k ttl. c = EXPIRE k ttl \<and> 0 < ttl"
  by (auto simp: Redis_Games.expire_def)

text \<open>A read: nothing observable changes.\<close>

lemma requested_read:
  assumes "requested up st st' db a r" and "db = rs_db st" and "db_ok (rs_db st)"
  shows "call_ok (observer up) st st' r \<and> unchanged (observer up) st st' \<and> (r = Inr a \<or> r = Inl ErrStorage)"
  using assms by (auto simp: requested_def call_ok_def unchanged_def)

lemma requested_same: "requested up st st' (rs_db st) a r \<Longrightarrow> rs_db st' = rs_db st"
  by (auto simp: requested_def)

text \<open>A write of one game: the database after it has the expected view.\<close>

lemma requested_write:
  assumes "requested up st st' db () u" and "db_ok (rs_db st)" and "db_ok db"
    and "db_view db = (db_view (rs_db st))(g \<mapsto> ag)" and "db_due db = db_due (rs_db st)"
    and "\<forall>g. str db (lockKey g) = str (rs_db st) (lockKey g)"
  shows "write_ok (observer up) st st' g ag u"
  using assms by (auto simp: requested_def write_ok_def call_ok_def wrote_def unchanged_def)

lemma requested_mono: "requested up st st1 db a r \<Longrightarrow> up (rs_net st) \<Longrightarrow> up (rs_net st1)"
  by (simp add: requested_def)

end

section \<open>The methods\<close>

context redis_store
begin

lemma db_typedD:
  assumes "db_ok db"
  shows "is_hash db (metaKey g)" "is_hash db (questionsKey g)" "is_hash db (playersKey g)"
    "is_hash db (answersKey g i)" "is_str db (lockKey g)" "is_zset db (actorGamesKey a)" "is_zset db deadlinesKey"
  using assms by (auto simp: db_ok_def db_typed_def)

lemma game_okD:
  assumes "db_ok db" and "hash db (metaKey g) \<noteq> fmempty"
  shows "meta_ok (hash db (metaKey g))"
    "fmlookup (hash db (playersKey g)) k = Some v \<Longrightarrow> \<exists>sp. v = FPlayer sp"
    "fmlookup (hash db (questionsKey g)) k = Some v \<Longrightarrow> \<exists>sq. v = FQuestion sq"
    "0 \<le> atoi (text_of (fmlookup (hash db (metaKey g)) ''current_q_idx'')) \<Longrightarrow>
       itoa (atoi (text_of (fmlookup (hash db (metaKey g)) ''current_q_idx''))) |\<in>| fmdom (hash db (questionsKey g))"
  using assms by (auto simp: db_ok_def game_ok_def Let_def)

lemma decode_encode [simp]: "decodeQuestion (FQuestion (encodeQuestion q)) = Inr q"
  by (simp add: decodeQuestion_def encodeQuestion_def)

lemma load_encode [simp]: "loadPlayer g (encodePlayer p) = p\<lparr>p_GameID := g\<rparr>"
  by (simp add: loadPlayer_def encodePlayer_def)

lemma metaState_fields [simp]:
  "s_ID (metaState g m ps) = g" "s_Status (metaState g m ps) = text_of (fmlookup m ''status'')"
  "s_CurrentQIdx (metaState g m ps) = atoi (text_of (fmlookup m ''current_q_idx''))"
  "s_QuestionOpen (metaState g m ps) \<longleftrightarrow> text_of (fmlookup m ''question_open'') = ''1''"
  "s_Players (metaState g m ps) = ps" "s_Answers (metaState g m ps) = fmempty" "s_Current (metaState g m ps) = None"
  by (simp_all add: metaState_def Let_def)

lemma atoi_int64: "int64 (atoi s)"
  by (auto simp: int64_def atoi_def Let_def clamp64_def int64_min_def int64_max_def split: option.splits prod.splits)

lemma fromMS_int64: "int64 (UnixMilli (fromMS s))"
  using atoi_int64[of s]
  by (auto simp: fromMS_def Let_def UnixMilli_def zero_time_def int64_def int64_min_def int64_max_def)

lemma metaState_int64: "int64_state (metaState g m ps)"
  by (simp add: int64_state_def metaState_def Let_def atoi_int64 fromMS_int64)

lemma decodePlayers_ok:
  assumes "db_ok db" and "hash db (metaKey g) \<noteq> fmempty"
  shows "decodePlayers g (hash db (playersKey g)) =
    Inr (fmmap (\<lambda>v. case v of FPlayer sp \<Rightarrow> loadPlayer g sp) (hash db (playersKey g)))"
proof -
  have "fmpred (\<lambda>_ v. case v of FPlayer _ \<Rightarrow> True | _ \<Rightarrow> False) (hash db (playersKey g))"
  proof (rule fmpredI)
    fix k v assume "fmlookup (hash db (playersKey g)) k = Some v"
    from game_okD(2)[OF assms this] show "case v of FPlayer _ \<Rightarrow> True | _ \<Rightarrow> False" by auto
  qed
  then show ?thesis by (simp add: decodePlayers_def)
qed

lemma questions_meta:
  assumes "db_ok db" and "fmlookup (hash db (questionsKey g)) k = Some v"
  shows "hash db (metaKey g) \<noteq> fmempty"
proof
  assume e: "hash db (metaKey g) = fmempty"
  have "game_ok db g" using assms(1) by (simp add: db_ok_def)
  with e assms(2) show False by (auto simp: game_ok_def meta_ok_def)
qed

lemma question_ok:
  assumes "db_ok db" and "hash db (metaKey g) \<noteq> fmempty" and "fmlookup (hash db (questionsKey g)) k = Some v"
  obtains q where "decodeQuestion v = Inr q"
  using game_okD(3)[OF assms] by (auto simp: decodeQuestion_def)

lemma view_Some:
  assumes "db_view db g = Some ag"
  shows "hash db (metaKey g) \<noteq> fmempty"
    "ag_State ag = metaState g (hash db (metaKey g))
        (fmmap (\<lambda>v. case v of FPlayer sp \<Rightarrow> loadPlayer g sp) (hash db (playersKey g)))"
    "ag_Question ag i = (case fmlookup (hash db (questionsKey g)) (itoa i) of
         None \<Rightarrow> None | Some v \<Rightarrow> (case decodeQuestion v of Inl _ \<Rightarrow> None | Inr q \<Rightarrow> Some q))"
    "ag_Answers ag i = fmmap (\<lambda>v. text_of (Some v)) (hash db (answersKey g i))"
  using assms by (auto simp: db_view_def split: if_splits)

lemma law_View:
  assumes "db_ok db" and v: "db_view db g = Some ag"
  shows "s_ID (ag_State ag) = g \<and> int64_state (ag_State ag) \<and> loaded ag \<noteq> Inl ErrStorage"
proof -
  note V = view_Some[OF v]
  have "\<exists>q. ag_Question ag (s_CurrentQIdx (ag_State ag)) = Some q" if "0 \<le> s_CurrentQIdx (ag_State ag)"
  proof -
    have "itoa (s_CurrentQIdx (ag_State ag)) |\<in>| fmdom (hash db (questionsKey g))"
      using game_okD(4)[OF assms(1) V(1)] that by (simp add: V(2))
    then obtain w where w: "fmlookup (hash db (questionsKey g)) (itoa (s_CurrentQIdx (ag_State ag))) = Some w"
      by (auto simp: fmlookup_dom_iff)
    obtain q where "decodeQuestion w = Inr q" by (rule question_ok[OF assms(1) V(1) w])
    with w show ?thesis by (simp add: V(3))
  qed
  then show ?thesis
    by (auto simp: V(2) metaState_int64 loaded_def Let_def split: option.splits)
qed

lemma Load_reads:
  assumes ok: "db_ok (rs_db st)" and run: "Store_Load R g st = (st', r)"
  shows "call_ok (observer up) st st' r \<and> unchanged (observer up) st st' \<and>
    (r = Inl ErrStorage \<or> r = load_view (db_view (rs_db st) g)) \<and> rs_db st' = rs_db st"
proof -
  let ?db = "rs_db st"
  let ?meta = "hash ?db (metaKey g)" and ?pl = "hash ?db (playersKey g)"
  obtain st1 a where p1: "pipelined (gs_exec R) (gs_conn R) [HGETALL (metaKey g), HGETALL (playersKey g)] st = (st1, a)"
    by fastforce
  have e1: "exec_all (gs_exec R) [HGETALL (metaKey g), HGETALL (playersKey g)] (now_ms R st) ?db =
      (?db, [RFields ?meta, RFields ?pl])"
    using db_typedD[OF ok] by (simp add: hgetall)
  have q1: "requested up st st1 ?db [RFields ?meta, RFields ?pl] a"
    using pipelined_requested[OF p1 e1] by (simp add: reply_error_def)
  note R1 = requested_read[OF q1 refl ok]
  note db1 = requested_same[OF q1]
  show ?thesis
  proof (cases "a = Inr [RFields ?meta, RFields ?pl] \<and> ?meta \<noteq> fmempty")
    case False
    then have "st' = st1 \<and> (r = Inl ErrStorage \<and> a = Inl ErrStorage \<or> ?meta = fmempty \<and> r = Inl ErrGameNotFound)"
      using run p1 R1 by (auto simp: Store_Load_def)
    then show ?thesis
      using R1 db1 by (auto simp: db_view_def call_ok_def)
  next
    case True
    then have a: "a = Inr [RFields ?meta, RFields ?pl]" and ne: "?meta \<noteq> fmempty" by simp_all
    define ps where "ps = fmmap (\<lambda>v. case v of FPlayer sp \<Rightarrow> loadPlayer g sp) ?pl"
    define s where "s = metaState g ?meta ps"
    note dp = decodePlayers_ok[OF ok ne, folded ps_def]
    obtain ag where ag: "db_view ?db g = Some ag" using ne by (simp add: db_view_def)
    have st_ag: "ag_State ag = s" using view_Some(2)[OF ag] by (simp add: s_def ps_def)
    show ?thesis
    proof (cases "0 \<le> s_CurrentQIdx s")
      case False
      then have "loaded ag = Inr s"
        unfolding loaded_def st_ag Let_def by (simp add: s_def)
      moreover have "st' = st1 \<and> r = Inr s"
        using run p1 a ne dp False by (simp add: Store_Load_def Let_def s_def)
      ultimately show ?thesis using R1 a ag db1 by (simp add: call_ok_def)
    next
      case True
      let ?i = "s_CurrentQIdx s"
      have "itoa ?i |\<in>| fmdom (hash ?db (questionsKey g))"
        using game_okD(4)[OF ok ne] True by (simp add: s_def)
      then obtain w where w: "fmlookup (hash ?db (questionsKey g)) (itoa ?i) = Some w" by (auto simp: fmlookup_dom_iff)
      obtain q where q: "decodeQuestion w = Inr q" by (rule question_ok[OF ok ne w])
      let ?cs = "[HGET (questionsKey g) (itoa ?i), HGETALL (answersKey g ?i)]"
      let ?rs = "[RBulk w, RFields (hash ?db (answersKey g ?i))]"
      obtain st2 b where p2: "pipelined (gs_exec R) (gs_conn R) ?cs st1 = (st2, b)" by fastforce
      have e2: "exec_all (gs_exec R) ?cs (now_ms R st1) (rs_db st1) = (?db, ?rs)"
        using db_typedD[OF ok] w by (simp add: db1 hget hgetall)
      have q2: "requested up st1 st2 ?db ?rs b"
        using pipelined_requested[OF p2 e2] by (simp add: reply_error_def)
      have R2: "call_ok (observer up) st1 st2 b \<and> unchanged (observer up) st1 st2 \<and> (b = Inr ?rs \<or> b = Inl ErrStorage)"
        by (rule requested_read[OF q2]) (simp_all add: db1 ok)
      have db2: "rs_db st2 = ?db" using q2 db1 by (auto simp: requested_def)
      let ?s = "s\<lparr>s_Current := Some q, s_Answers := fmmap (\<lambda>v. text_of (Some v)) (hash ?db (answersKey g ?i))\<rparr>"
      have ld: "loaded ag = Inr ?s"
        using True w q view_Some(3,4)[OF ag] by (simp add: loaded_def Let_def st_ag)
      have "st' = st2 \<and> r = (if b = Inl ErrStorage then Inl ErrStorage else Inr ?s)"
        using run p1 a ne dp True p2 R2 q
        by (auto simp: Store_Load_def Let_def s_def)
      then show ?thesis
        using R1 R2 a ag ld db2 by (auto simp: call_ok_def unchanged_def)
    qed
  qed
qed

lemma law_Load:
  assumes "db_ok (rs_db st)" and "Store_Load R g st = (st', r)"
  shows "call_ok (observer up) st st' r \<and> unchanged (observer up) st st' \<and>
    (r = Inl ErrStorage \<or> r = load_view (db_view (rs_db st) g))"
  using Load_reads[OF assms] by blast

end

context redis_store
begin

lemma law_Question:
  assumes ok: "db_ok (rs_db st)" and run: "Store_Question R g idx st = (st', r)"
  shows "call_ok (observer up) st st' r \<and> unchanged (observer up) st st' \<and>
    (r = Inl ErrStorage \<or> r = (case db_view (rs_db st) g of None \<Rightarrow> Inl ErrGameNotFound
       | Some ag \<Rightarrow> (case ag_Question ag idx of None \<Rightarrow> Inl ErrGameNotFound | Some q \<Rightarrow> Inr q)))"
proof -
  let ?db = "rs_db st"
  obtain st1 a where q: "request (gs_conn R) (gs_exec R (HGET (questionsKey g) (itoa idx))) st = (st1, a)" by fastforce
  let ?a = "case fmlookup (hash ?db (questionsKey g)) (itoa idx) of None \<Rightarrow> RNil | Some v \<Rightarrow> RBulk v"
  have "gs_exec R (HGET (questionsKey g) (itoa idx)) (now_ms R st) ?db = (?db, ?a)"
    using db_typedD(2)[OF ok] by (rule hget)
  note Q = request_requested[OF q this]
  note R1 = requested_read[OF Q refl ok]
  have res: "st' = st1 \<and> r = (case a of Inl e \<Rightarrow> Inl e
      | Inr x \<Rightarrow> (case x of RNil \<Rightarrow> Inl ErrGameNotFound | RBulk raw \<Rightarrow> decodeQuestion raw | _ \<Rightarrow> Inl ErrStorage))"
    using run q by (cases a) (auto simp: Store_Question_def)
  show ?thesis
  proof (cases "a = Inr ?a")
    case False
    then have "a = Inl ErrStorage" using R1 by blast
    then show ?thesis using res R1 by (auto simp: call_ok_def)
  next
    case True
    show ?thesis
    proof (cases "fmlookup (hash ?db (questionsKey g)) (itoa idx)")
      case None
      then have "r = Inl ErrGameNotFound" using res True by simp
      then show ?thesis
        using R1 None True res by (auto simp: db_view_def call_ok_def)
    next
      case (Some v)
      then have ne: "hash ?db (metaKey g) \<noteq> fmempty"
        by (rule questions_meta[OF ok])
      obtain qu where qu: "decodeQuestion v = Inr qu" by (rule question_ok[OF ok ne Some])
      then have "r = Inr qu" using res True Some by simp
      then show ?thesis
        using R1 Some True res qu ne by (auto simp: db_view_def call_ok_def)
    qed
  qed
qed

lemma Exists_reads:
  assumes ok: "db_ok (rs_db st)" and run: "Store_Exists R g st = (st', r)"
  shows "call_ok (observer up) st st' r \<and> unchanged (observer up) st st' \<and>
    (r = Inl ErrStorage \<or> r = Inr (db_view (rs_db st) g \<noteq> None)) \<and> rs_db st' = rs_db st"
proof -
  let ?db = "rs_db st"
  obtain st1 a where q: "request (gs_conn R) (gs_exec R (EXISTS (metaKey g))) st = (st1, a)" by fastforce
  note Q = request_requested[OF q exists]
  note R1 = requested_read[OF Q refl ok]
  have "rkeys ?db (metaKey g) = None \<longleftrightarrow> db_view ?db g = None"
    using hash_empty_iff[OF db_typedD(1)[OF ok], of g] by (simp add: db_view_def)
  then show ?thesis
    using R1 requested_same[OF Q] run q by (auto simp: Store_Exists_def call_ok_def split: if_splits)
qed

lemma law_Exists:
  assumes "db_ok (rs_db st)" and "Store_Exists R g st = (st', r)"
  shows "call_ok (observer up) st st' r \<and> unchanged (observer up) st st' \<and>
    (r = Inl ErrStorage \<or> r = Inr (db_view (rs_db st) g \<noteq> None))"
  using Exists_reads[OF assms] by blast

section \<open>The lock\<close>

lemma str_lock_other: "k \<noteq> lockKey g \<Longrightarrow> str (put k v db) (lockKey g) = str db (lockKey g)"
  by simp

lemma db_ok_lock:
  assumes "db_ok db"
  shows "db_ok (put (lockKey g) (RStr tok) db)" "db_view (put (lockKey g) (RStr tok) db) = db_view db"
    "db_due (put (lockKey g) (RStr tok) db) = db_due db"
    "db_ok (del (lockKey g) db)" "db_view (del (lockKey g) db) = db_view db" "db_due (del (lockKey g) db) = db_due db"
  using assms by (simp_all add: db_ok_def db_typed_def game_ok_def db_view_def db_due_def fun_eq_iff)

lemma unlock_effect:
  assumes ok: "db_ok (rs_db st)" and tok: "str (rs_db st) (lockKey g) = Some tok"
  shows "db_ok (rs_db (unlock R (lockKey g) tok st)) \<and> unchanged (observer up) st (unlock R (lockKey g) tok st) \<and>
    (up (rs_net st) \<longrightarrow> up (rs_net (unlock R (lockKey g) tok st)) \<and>
       (\<lambda>h. str (rs_db (unlock R (lockKey g) tok st)) (lockKey h)) = (\<lambda>h. str (rs_db st) (lockKey h))(g := None))"
proof -
  let ?db = "rs_db st"
  obtain st1 a where q: "request (gs_conn R) (unlockScript (gs_exec R) (lockKey g) tok) st = (st1, a)" by fastforce
  obtain n where d: "gs_exec R (DEL (lockKey g)) (now_ms R st) ?db = (del (lockKey g) ?db, RInt n)"
    using delete by blast
  have "unlockScript (gs_exec R) (lockKey g) tok (now_ms R st) ?db = (del (lockKey g) ?db, RInt n)"
    using get[OF db_typedD(5)[OF ok]] tok d by (simp add: unlockScript_def)
  note Q = request_requested[OF q this]
  have "unlock R (lockKey g) tok st = st1" using q by (simp add: unlock_def)
  then show ?thesis
    using Q ok db_ok_lock[OF ok] by (auto simp: requested_def unchanged_def fun_eq_iff)
qed

lemma law_Lock:
  assumes ok: "db_ok (rs_db st)" and free: "str (rs_db st) (lockKey g) = None" and run: "Store_Lock R g st = (st', l)"
  shows "db_ok (rs_db st') \<and> unchanged (observer up) st st' \<and>
      (l = Inl ErrStorage \<and> \<not> up (rs_net st) \<or>
       (\<exists>unlock tok. l = Inr unlock \<and>
          (\<lambda>h. str (rs_db st') (lockKey h)) = (\<lambda>h. str (rs_db st) (lockKey h))(g \<mapsto> tok) \<and>
          (up (rs_net st) \<longrightarrow> up (rs_net st')) \<and>
          (\<forall>st2. db_ok (rs_db st2) \<longrightarrow> str (rs_db st2) (lockKey g) = Some tok \<longrightarrow>
             db_ok (rs_db (unlock st2)) \<and> unchanged (observer up) st2 (unlock st2) \<and>
             (up (rs_net st2) \<longrightarrow> up (rs_net (unlock st2)) \<and>
                (\<lambda>h. str (rs_db (unlock st2)) (lockKey h)) = (\<lambda>h. str (rs_db st2) (lockKey h))(g := None)))))"
proof -
  obtain n tok where rnd: "cn_random (gs_conn R) (rs_net st) = (n, tok)" by fastforce
  define st0 where "st0 = st\<lparr>rs_net := n\<rparr>"
  have up0: "up (rs_net st) \<longrightarrow> up (rs_net st0)" using up_random[OF _ rnd] by (simp add: st0_def)
  have db0: "rs_db st0 = rs_db st" by (simp add: st0_def)
  let ?db = "rs_db st"
  have none: "rkeys ?db (lockKey g) = None" using str_None_iff[OF db_typedD(5)[OF ok]] free by simp
  define db1 where "db1 = set_expiry (lockKey g) (now_ms R st0 + UnixMilli (gs_lockTTL R)) (put (lockKey g) (RStr tok) ?db)"
  have ex: "gs_exec R (SETNX (lockKey g) tok (gs_lockTTL R)) (now_ms R st0) (rs_db st0) = (db1, RInt 1)"
    using setnx[OF lockTTL] none by (simp add: db1_def db0)
  obtain st1 a where q: "request (gs_conn R) (gs_exec R (SETNX (lockKey g) tok (gs_lockTTL R))) st0 = (st1, a)" by fastforce
  note Q = request_requested[OF q ex]
  obtain f where f: "lock_attempts R = Suc f" by (simp add: lock_attempts_def)
  have k1: "rkeys db1 = rkeys (put (lockKey g) (RStr tok) ?db)" by (simp add: db1_def)
  note c1 = db_cong[OF k1] rkeys_cong[OF k1]
  have obs: "db_ok db1" "db_view db1 = db_view ?db" "db_due db1 = db_due ?db"
    "(\<lambda>h. str db1 (lockKey h)) = (\<lambda>h. str ?db (lockKey h))(g \<mapsto> tok)"
    using db_ok_lock(1-3)[OF ok] by (simp_all add: c1 fun_eq_iff)
  have res: "(st', l) = (st1, case a of Inl e \<Rightarrow> Inl e | Inr _ \<Rightarrow> Inr (unlock R (lockKey g) tok))"
    using run rnd q Q by (auto simp: Store_Lock_def f st0_def[symmetric] Let_def requested_def)
  show ?thesis
  proof (cases a)
    case (Inl e)
    then show ?thesis
      using res Q obs ok up0 by (auto simp: requested_def unchanged_def db0)
  next
    case (Inr x)
    then have "st' = st1" "l = Inr (unlock R (lockKey g) tok)" "rs_db st1 = db1" "up (rs_net st) \<longrightarrow> up (rs_net st1)"
      using res Q up0 by (auto simp: requested_def)
    then show ?thesis
      using obs unlock_effect[of _ g tok] unfolding unchanged_def observer_simps by blast
  qed
qed

end

section \<open>Writing a game\<close>

lemma FPlayer_case_put:
  "(case FPlayer sp of FPlayer sp \<Rightarrow> f sp) = f sp"
  by simp

lemma text_of_simps [simp]: "text_of (Some (FText s)) = s" "text_of None = ''''"
  by (simp_all add: text_of_def)

lemma boolField_iff [simp]: "boolField b = ''1'' \<longleftrightarrow> b" "boolField b = ''0'' \<longleftrightarrow> \<not> b"
  by (simp_all add: boolField_def)

lemma boolField_False: "boolField False = ''0''"
  by (simp add: boolField_def)

text \<open>
  Replacing the meta hash and the players of a game by good ones keeps the database good, and
  shows in the view as the state they encode.
\<close>

definition put_game :: "string \<Rightarrow> (string, field) fmap \<Rightarrow> (string \<times> field) list \<Rightarrow> redis_db \<Rightarrow> redis_db" where
  "put_game g m ps db = (let db1 = put (metaKey g) (RHash m) db
     in if ps = [] then db1 else put (playersKey g) (RHash (fmupds ps (hash db (playersKey g)))) db1)"

lemma hash_put_game:
  "hash (put_game g m ps db) k = (if k = metaKey g then m
     else if k = playersKey g then fmupds ps (hash db (playersKey g)) else hash db k)"
  "zset (put_game g m ps db) k = (if k = metaKey g \<or> k = playersKey g \<and> ps \<noteq> [] then fmempty else zset db k)"
  "str (put_game g m ps db) k = (if k = metaKey g \<or> k = playersKey g \<and> ps \<noteq> [] then None else str db k)"
  by (auto simp: put_game_def Let_def)

context redis_store
begin

lemma db_ok_put_game:
  assumes ok: "db_ok db" and m: "meta_ok m" and ps: "\<forall>(k, v) \<in> set ps. \<exists>sp. v = FPlayer sp"
    and ne: "hash db (metaKey g) \<noteq> fmempty"
    and q: "0 \<le> atoi (text_of (fmlookup m ''current_q_idx'')) \<Longrightarrow>
       itoa (atoi (text_of (fmlookup m ''current_q_idx''))) |\<in>| fmdom (hash db (questionsKey g))"
  shows "db_ok (put_game g m ps db)"
proof -
  have mne: "m \<noteq> fmempty" using m by (auto simp: meta_ok_def)
  have "db_typed (put_game g m ps db)"
    using ok mne by (simp add: db_ok_def db_typed_def put_game_def Let_def)
  moreover have "game_ok (put_game g m ps db) h" for h
  proof (cases "h = g")
    case True
    have "\<exists>sp. v = FPlayer sp" if "fmlookup (fmupds ps (hash db (playersKey g))) k = Some v" for k v
      using fmupds_SomeD[OF that] ps game_okD(2)[OF ok ne] by fast
    then show ?thesis
      using m q game_okD(3)[OF ok ne] by (simp add: True game_ok_def hash_put_game Let_def)
  next
    case False
    have "game_ok db h" using ok by (simp add: db_ok_def)
    with False show ?thesis by (simp add: game_ok_def hash_put_game)
  qed
  ultimately show ?thesis using ok by (simp add: db_ok_def hash_put_game)
qed

end

lemma view_put_game:
  assumes "m \<noteq> fmempty"
  shows "db_view (put_game g m ps db) = (db_view db)(g \<mapsto>
     \<lparr>ag_State = metaState g m
        (fmupds (map (\<lambda>(k, v). (k, case v of FPlayer sp \<Rightarrow> loadPlayer g sp)) ps)
           (fmmap (\<lambda>v. case v of FPlayer sp \<Rightarrow> loadPlayer g sp) (hash db (playersKey g)))),
      ag_Question = (\<lambda>i. case fmlookup (hash db (questionsKey g)) (itoa i) of
         None \<Rightarrow> None | Some v \<Rightarrow> (case decodeQuestion v of Inl _ \<Rightarrow> None | Inr q \<Rightarrow> Some q)),
      ag_Answers = (\<lambda>i. fmmap (\<lambda>v. text_of (Some v)) (hash db (answersKey g i)))\<rparr>)"
  using assms by (auto simp: db_view_def hash_put_game fun_eq_iff fmmap_fmupds)

lemma due_put_game: "db_due (put_game g m ps db) = db_due db"
  by (simp add: db_due_def hash_put_game fun_eq_iff)

lemma lock_put_game: "str (put_game g m ps db) (lockKey h) = str db (lockKey h)"
  by (simp add: hash_put_game)

lemma meta_ok_progress: "int64 (s_CurrentQIdx s) \<Longrightarrow> meta_ok (fmupds (progressFields s) m)"
  by (auto simp: meta_ok_def progressFields_def)

lemma atoi_int64_id [simp]: "int64 i \<Longrightarrow> atoi (itoa i) = i"
  by (simp add: int64_def)

lemma metaState_progress:
  assumes "int64 (s_CurrentQIdx s)"
  shows "metaState g (fmupds (progressFields s) m) ps = (metaState g m ps)\<lparr>s_Status := s_Status s,
     s_CurrentQIdx := s_CurrentQIdx s, s_QuestionOpen := s_QuestionOpen s,
     s_QuestionStart := fromMS (ms (s_QuestionStart s)), s_EndReason := s_EndReason s\<rparr>"
  using assms by (simp add: metaState_def progressFields_def Let_def)

lemma map_players_encode:
  "map (\<lambda>(k, v). (k, case v of FPlayer sp \<Rightarrow> loadPlayer g sp)) (map (\<lambda>p. (p_ID p, FPlayer (encodePlayer p))) ps) =
     map (\<lambda>p. (p_ID p, p\<lparr>p_GameID := g\<rparr>)) ps"
  by (simp add: loadPlayer_def encodePlayer_def)

context redis_store
begin

lemma exec_put_game:
  assumes ok: "db_ok db" and f: "fvs \<noteq> []"
  shows "\<exists>rs. exec_all (gs_exec R) ([HSET (metaKey g) fvs] @ (if ps \<noteq> [] then [HSET (playersKey g) ps] else [])) t db =
      (put_game g (fmupds fvs (hash db (metaKey g))) ps db, rs) \<and> (\<forall>x \<in> set rs. \<not> reply_error x)"
proof -
  obtain n where e: "gs_exec R (HSET (metaKey g) fvs) t db =
      (put (metaKey g) (RHash (fmupds fvs (hash db (metaKey g)))) db, RInt n)"
    by (rule exec_hset[OF db_typedD(1)[OF ok] f])
  let ?db1 = "put (metaKey g) (RHash (fmupds fvs (hash db (metaKey g)))) db"
  have h1: "is_hash ?db1 (playersKey g)" using db_typedD(3)[OF ok] by simp
  show ?thesis
  proof (cases "ps = []")
    case True
    then show ?thesis using e by (simp add: put_game_def reply_error_def)
  next
    case False
    obtain k where "gs_exec R (HSET (playersKey g) ps) t ?db1 =
        (put (playersKey g) (RHash (fmupds ps (hash ?db1 (playersKey g)))) ?db1, RInt k)"
      by (rule exec_hset[OF h1 False])
    then show ?thesis using e False by (simp add: put_game_def Let_def reply_error_def)
  qed
qed

lemma exec_then_expires:
  assumes "exec_all (gs_exec R) cs t db = (db1, rs1)" and "\<forall>x \<in> set rs1. \<not> reply_error x"
    and "\<forall>c \<in> set es. \<exists>k ttl. c = EXPIRE k ttl \<and> 0 < ttl"
  obtains db2 rs where "exec_all (gs_exec R) (cs @ es) t db = (db2, rs)" "rkeys db2 = rkeys db1"
    "\<forall>x \<in> set rs. \<not> reply_error x"
proof -
  obtain db2 rs2 where e: "exec_all (gs_exec R) es t db1 = (db2, rs2)" "rkeys db2 = rkeys db1"
    "\<forall>x \<in> set rs2. \<not> reply_error x"
    using exec_expires[OF assms(3)] by blast
  have "exec_all (gs_exec R) (cs @ es) t db = (db2, rs1 @ rs2)"
    using assms(1) e(1) by (simp add: exec_append)
  then show ?thesis using that e(2,3) assms(2) by auto
qed

lemma law_Save:
  assumes ok: "db_ok (rs_db st)" and v: "db_view (rs_db st) (s_ID s) = Some ag" and sav: "savable ag s"
    and run: "Store_Save R s ps st = (st', u)"
  shows "write_ok (observer up) st st' (s_ID s) (saved (\<lambda>t. fromMS (ms t)) s ps ag) u"
proof -
  let ?db = "rs_db st" and ?g = "s_ID s"
  let ?enc = "map (\<lambda>p. (p_ID p, FPlayer (encodePlayer p))) ps"
  let ?m = "fmupds (progressFields s) (hash ?db (metaKey ?g))"
  let ?es = "if s_Status s = GameStatusFinished
        then expire R (s_ID s) (gs_finishedTTL R)
          @ map (\<lambda>i. EXPIRE (answersKey (s_ID s) i) (gs_finishedTTL R)) [0..s_CurrentQIdx s]
        else expire R (s_ID s) (gs_idleTTL R)"
  let ?db1 = "put_game ?g ?m ?enc ?db"
  note V = view_Some[OF v]
  have i64: "int64 (s_CurrentQIdx s)" using sav by (simp add: savable_def int64_state_def)
  obtain rs1 where e1: "exec_all (gs_exec R) ([HSET (metaKey ?g) (progressFields s)] @
      (if ?enc \<noteq> [] then [HSET (playersKey ?g) ?enc] else [])) (now_ms R st) ?db = (?db1, rs1)"
    "\<forall>x \<in> set rs1. \<not> reply_error x"
    using exec_put_game[OF ok, of "progressFields s" ?g ?enc] by (auto simp: progressFields_def)
  have pos: "\<forall>c \<in> set ?es. \<exists>k ttl. c = EXPIRE k ttl \<and> 0 < ttl"
    using idleTTL finishedTTL by (auto simp: Redis_Games.expire_def)
  obtain db2 rs where e2: "exec_all (gs_exec R) (([HSET (metaKey ?g) (progressFields s)] @
      (if ?enc \<noteq> [] then [HSET (playersKey ?g) ?enc] else [])) @ ?es) (now_ms R st) ?db = (db2, rs)"
    and k2: "rkeys db2 = rkeys ?db1" and rs: "\<forall>x \<in> set rs. \<not> reply_error x"
    by (rule exec_then_expires[OF e1 pos])
  have cmds: "Save_cmds R s ps = ([HSET (metaKey ?g) (progressFields s)] @
      (if ?enc \<noteq> [] then [HSET (playersKey ?g) ?enc] else [])) @ ?es"
    by (simp add: Save_cmds_def)
  have Q: "requested up st st' db2 () u"
    using tx_requested[OF _ e2[folded cmds] rs] run by (simp add: Store_Save_def)
  note c2 = db_cong[OF k2] rkeys_cong[OF k2]
  have q: "itoa (s_CurrentQIdx s) |\<in>| fmdom (hash ?db (questionsKey ?g))" if "0 \<le> s_CurrentQIdx s"
    using sav that by (auto simp: savable_def V(3) fmlookup_dom_iff split: option.splits)
  have idx: "atoi (text_of (fmlookup ?m ''current_q_idx'')) = s_CurrentQIdx s"
    using i64 by (simp add: progressFields_def)
  have ok1: "db_ok ?db1"
    by (rule db_ok_put_game[OF ok meta_ok_progress[OF i64] _ V(1)]) (use q idx in auto)
  have mne: "?m \<noteq> fmempty" by (simp add: progressFields_def)
  have "db_view ?db1 = (db_view ?db)(?g \<mapsto> saved (\<lambda>t. fromMS (ms t)) s ps ag)"
  proof -
    have "saved (\<lambda>t. fromMS (ms t)) s ps ag = \<lparr>ag_State = metaState ?g ?m
        (fmupds (map (\<lambda>(k, v). (k, case v of FPlayer sp \<Rightarrow> loadPlayer ?g sp)) ?enc)
           (fmmap (\<lambda>v. case v of FPlayer sp \<Rightarrow> loadPlayer ?g sp) (hash ?db (playersKey ?g)))),
      ag_Question = ag_Question ag, ag_Answers = ag_Answers ag\<rparr>"
      unfolding map_players_encode metaState_progress[OF i64]
      using V(2) by (simp add: saved_def put_players_def put_progress_def metaState_def Let_def)
    moreover have "ag_Question ag = (\<lambda>i. case fmlookup (hash ?db (questionsKey ?g)) (itoa i) of
         None \<Rightarrow> None | Some v \<Rightarrow> (case decodeQuestion v of Inl _ \<Rightarrow> None | Inr q \<Rightarrow> Some q))"
      by (rule ext) (rule V(3))
    moreover have "ag_Answers ag = (\<lambda>i. fmmap (\<lambda>v. text_of (Some v)) (hash ?db (answersKey ?g i)))"
      by (rule ext) (rule V(4))
    ultimately show ?thesis unfolding view_put_game[OF mne] by simp
  qed
  then show ?thesis
    by (intro requested_write[OF Q ok]) (simp_all add: c2 ok1 due_put_game lock_put_game)
qed

end

context redis_store
begin

lemma law_AddPlayer:
  assumes ok: "db_ok (rs_db st)" and v: "db_view (rs_db st) g = Some ag"
    and run: "Store_AddPlayer R g t p st = (st', u)"
  shows "write_ok (observer up) st st' g (put_players g [p] ag) u"
proof -
  let ?db = "rs_db st" and ?a = "actorGamesKey (p_ActorID p)"
  note V = view_Some[OF v]
  let ?h = "fmupds [(p_ID p, FPlayer (encodePlayer p))] (hash ?db (playersKey g))"
  let ?db1 = "put (playersKey g) (RHash ?h) ?db"
  obtain n where e1: "gs_exec R (HSET (playersKey g) [(p_ID p, FPlayer (encodePlayer p))]) (now_ms R st) ?db = (?db1, RInt n)"
    using hset[OF db_typedD(3)[OF ok, of g], of "[(p_ID p, FPlayer (encodePlayer p))]" "now_ms R st"] by auto
  have z1: "is_zset ?db1 ?a" using db_typedD(6)[OF ok] by simp
  let ?db2 = "put ?a (RZSet (fmupd g (float64 (UnixMilli t)) (zset ?db1 ?a))) ?db1"
  obtain k where e2: "gs_exec R (ZADD ?a (float64 (UnixMilli t)) g) (now_ms R st) ?db1 = (?db2, RInt k)"
    using zadd[OF z1] by blast
  let ?cs = "[HSET (playersKey g) [(p_ID p, FPlayer (encodePlayer p))], ZADD ?a (float64 (UnixMilli t)) g]"
  let ?es = "EXPIRE ?a (gs_idleTTL R) # expire R g (gs_idleTTL R)"
  have ec: "exec_all (gs_exec R) ?cs (now_ms R st) ?db = (?db2, [RInt n, RInt k])"
    using e1 e2 by simp
  have pos: "\<forall>c \<in> set ?es. \<exists>k ttl. c = EXPIRE k ttl \<and> 0 < ttl"
    using idleTTL by (auto simp: Redis_Games.expire_def)
  obtain db3 rs where e3: "exec_all (gs_exec R) (?cs @ ?es) (now_ms R st) ?db = (db3, rs)" and k3: "rkeys db3 = rkeys ?db2"
    and rs: "\<forall>x \<in> set rs. \<not> reply_error x"
    by (rule exec_then_expires[OF ec _ pos]) (auto simp: reply_error_def)
  have cmds: "AddPlayer_cmds R g t p = ?cs @ ?es" by (simp add: AddPlayer_cmds_def)
  have Q: "requested up st st' db3 () u"
    using tx_requested[OF _ e3[folded cmds] rs] run by (simp add: Store_AddPlayer_def)
  note c3 = db_cong[OF k3] rkeys_cong[OF k3]
  have "db_typed ?db2" using ok by (simp add: db_ok_def db_typed_def)
  moreover have "game_ok ?db2 h" for h
  proof (cases "h = g")
    case True
    have "\<exists>sp. v = FPlayer sp" if "fmlookup ?h k = Some v" for k v
      using fmupds_SomeD[OF that] game_okD(2)[OF ok V(1)] by fastforce
    then show ?thesis
      using game_okD(1,3,4)[OF ok V(1)] by (simp add: True game_ok_def Let_def)
  next
    case False
    have "game_ok ?db h" using ok by (simp add: db_ok_def)
    with False show ?thesis by (simp add: game_ok_def)
  qed
  ultimately have ok2: "db_ok ?db2" using ok by (simp add: db_ok_def)
  have "db_view ?db2 h = ((db_view ?db)(g \<mapsto> put_players g [p] ag)) h" for h
  proof (cases "h = g")
    case True
    have "put_players g [p] ag = \<lparr>ag_State = metaState g (hash ?db (metaKey g))
        (fmmap (\<lambda>v. case v of FPlayer sp \<Rightarrow> loadPlayer g sp) ?h),
        ag_Question = ag_Question ag, ag_Answers = ag_Answers ag\<rparr>"
      using V(2) by (simp add: put_players_def fmmap_fmupd metaState_def Let_def)
    moreover have "ag_Question ag = (\<lambda>i. case fmlookup (hash ?db (questionsKey g)) (itoa i) of
         None \<Rightarrow> None | Some v \<Rightarrow> (case decodeQuestion v of Inl _ \<Rightarrow> None | Inr q \<Rightarrow> Some q))"
      by (rule ext) (rule V(3))
    moreover have "ag_Answers ag = (\<lambda>i. fmmap (\<lambda>v. text_of (Some v)) (hash ?db (answersKey g i)))"
      by (rule ext) (rule V(4))
    ultimately show ?thesis using V(1) by (simp add: db_view_def True)
  qed (simp add: db_view_def)
  then have v2: "db_view ?db2 = (db_view ?db)(g \<mapsto> put_players g [p] ag)" by blast
  have d2: "db_due ?db2 = db_due ?db" by (simp add: db_due_def fun_eq_iff)
  have l2: "\<forall>h. str ?db2 (lockKey h) = str ?db (lockKey h)" by simp
  show ?thesis
    by (rule requested_write[OF Q ok, unfolded c3, OF ok2 v2 d2 l2])
qed

lemma lookup_questions:
  "fmlookup (fmupds (map (\<lambda>(i, q). (itoa (int i), FQuestion (encodeQuestion q))) (enumerate 0 qs)) fmempty) (itoa j) =
     (if 0 \<le> j \<and> j < int (length qs) then Some (FQuestion (encodeQuestion (qs ! nat j))) else None)"
  by (induction qs rule: rev_induct) (auto simp: enumerate_append_eq nth_append)

lemma law_Create:
  assumes ok: "db_ok (rs_db st)" and fresh: "db_fresh (rs_db st) (s_ID s)" and i64: "int64_state s"
    and neg: "s_CurrentQIdx s < 0" and run: "Store_Create R s qs st = (st', u)"
  shows "write_ok (observer up) st st' (s_ID s) (created (\<lambda>t. fromMS (ms t)) s qs) u"
proof -
  let ?db = "rs_db st" and ?g = "s_ID s"
  define own where "own = [(''owner_id'', FText (s_OwnerID s)),
         (''question_list_id'', FText (s_QuestionListID s)),
         (''created_at'', FText (ms (s_CreatedAt s))),
         (''initial_lives'', FText (itoa (InitialLives (s_Config s)))),
         (''answer_timeout_seconds'', FText (itoa (AnswerTimeoutSeconds (s_Config s)))),
         (''total_questions'', FText (itoa (s_TotalQuestions s)))]"
  define qf where "qf = map (\<lambda>(i, q). (itoa (int i), FQuestion (encodeQuestion q))) (enumerate 0 qs)"
  have none: "rkeys ?db (metaKey ?g) = None" "rkeys ?db (questionsKey ?g) = None" "rkeys ?db (playersKey ?g) = None"
    "\<And>i. rkeys ?db (answersKey ?g i) = None"
    using fresh by (auto simp: db_fresh_def)
  have empty: "hash ?db (metaKey ?g) = fmempty" "hash ?db (questionsKey ?g) = fmempty" "hash ?db (playersKey ?g) = fmempty"
    "\<And>i. hash ?db (answersKey ?g i) = fmempty"
    using none by (simp_all add: hash_def)
  let ?db1 = "put (metaKey ?g) (RHash (fmupds own fmempty)) ?db"
  obtain n1 where e1: "gs_exec R (HSET (metaKey ?g) own) (now_ms R st) ?db = (?db1, RInt n1)"
    using exec_hset[OF db_typedD(1)[OF ok], of own ?g "now_ms R st"] empty(1) by (auto simp: own_def)
  define m where "m = fmupds (progressFields s) (fmupds own fmempty)"
  let ?db2 = "put (metaKey ?g) (RHash m) ?db1"
  have h1: "is_hash ?db1 (metaKey ?g)" by (simp add: own_def)
  obtain n2 where e2: "gs_exec R (HSET (metaKey ?g) (progressFields s)) (now_ms R st) ?db1 = (?db2, RInt n2)"
    using exec_hset[OF h1, of "progressFields s" "now_ms R st"] by (auto simp: progressFields_def m_def)
  define db3 where "db3 = (if qf = [] then ?db2 else put (questionsKey ?g) (RHash (fmupds qf fmempty)) ?db2)"
  let ?cs = "[HSET (metaKey ?g) own, HSET (metaKey ?g) (progressFields s)] @ (if qf \<noteq> [] then [HSET (questionsKey ?g) qf] else [])"
  have "\<exists>rs. exec_all (gs_exec R) ?cs (now_ms R st) ?db = (db3, rs) \<and> (\<forall>x \<in> set rs. \<not> reply_error x)"
  proof (cases "qf = []")
    case True
    then show ?thesis using e1 e2 by (simp add: db3_def reply_error_def)
  next
    case False
    have h2: "is_hash ?db2 (questionsKey ?g)" "hash ?db2 (questionsKey ?g) = fmempty"
      using db_typedD(2)[OF ok] empty(2) by simp_all
    obtain n3 where "gs_exec R (HSET (questionsKey ?g) qf) (now_ms R st) ?db2 = (db3, RInt n3)"
      using exec_hset[OF h2(1) False, of "now_ms R st"] False unfolding h2(2) db3_def by auto
    then show ?thesis using e1 e2 False by (simp add: reply_error_def)
  qed
  then obtain rs1 where e3: "exec_all (gs_exec R) ?cs (now_ms R st) ?db = (db3, rs1)" "\<forall>x \<in> set rs1. \<not> reply_error x"
    by blast
  have pos: "\<forall>c \<in> set (expire R ?g (gs_idleTTL R)). \<exists>k ttl. c = EXPIRE k ttl \<and> 0 < ttl"
    using idleTTL by (intro expire_positive) simp
  obtain db4 rs where e4: "exec_all (gs_exec R) (?cs @ expire R ?g (gs_idleTTL R)) (now_ms R st) ?db = (db4, rs)"
    and k4: "rkeys db4 = rkeys db3" and rs: "\<forall>x \<in> set rs. \<not> reply_error x"
    by (rule exec_then_expires[OF e3 pos])
  have cmds: "Create_cmds R s qs = ?cs @ expire R ?g (gs_idleTTL R)"
    by (simp add: Create_cmds_def own_def[symmetric] qf_def Let_def)
  have Q: "requested up st st' db4 () u"
    using tx_requested[OF _ e4[folded cmds] rs] run by (simp add: Store_Create_def)
  note c4 = db_cong[OF k4] rkeys_cong[OF k4]
  have hq: "hash db3 k = (if k = metaKey ?g then m else if k = questionsKey ?g then fmupds qf fmempty else hash ?db k)"
    and zs: "zset db3 deadlinesKey = zset ?db deadlinesKey" and sl: "\<And>h. str db3 (lockKey h) = str ?db (lockKey h)" for k
    using empty(2) by (auto simp: db3_def)
  have ci: "int64 (s_CurrentQIdx s)" using i64 by (simp add: int64_state_def)
  have mok: "meta_ok m" using meta_ok_progress[OF ci] by (simp add: m_def)
  then have mne: "m \<noteq> fmempty" by (auto simp: meta_ok_def)
  have idx: "atoi (text_of (fmlookup m ''current_q_idx'')) = s_CurrentQIdx s"
    using ci by (simp add: m_def progressFields_def)
  have qv: "\<exists>sq. v = FQuestion sq" if "fmlookup (fmupds qf fmempty) k = Some v" for k v
    using fmupds_SomeD[OF that] by (auto simp: qf_def)
  have "db_typed db3"
    using ok mne by (auto simp: db_ok_def db_typed_def db3_def)
  moreover have "game_ok db3 h" for h
  proof (cases "h = ?g")
    case True
    then show ?thesis using mok qv idx neg empty(3) by (simp add: game_ok_def hq Let_def)
  next
    case False
    have "game_ok ?db h" using ok by (simp add: db_ok_def)
    with False show ?thesis by (simp add: game_ok_def hq)
  qed
  ultimately have ok3: "db_ok db3" using ok by (simp add: db_ok_def zs)
  have state: "metaState ?g m fmempty = ag_State (created (\<lambda>t. fromMS (ms t)) s qs)"
    using i64 ci unfolding m_def metaState_progress[OF ci]
    by (simp add: metaState_def own_def created_def int64_state_def)
  have quest: "(\<lambda>i. case fmlookup (fmupds qf fmempty) (itoa i) of
         None \<Rightarrow> None | Some v \<Rightarrow> (case decodeQuestion v of Inl _ \<Rightarrow> None | Inr q \<Rightarrow> Some q)) =
      ag_Question (created (\<lambda>t. fromMS (ms t)) s qs)"
    unfolding qf_def lookup_questions by (auto simp: created_def fun_eq_iff)
  have "db_view db3 h = ((db_view ?db)(?g \<mapsto> created (\<lambda>t. fromMS (ms t)) s qs)) h" for h
    using mne empty state quest by (simp add: db_view_def hq) (simp add: created_def)
  then have "db_view db3 = (db_view ?db)(?g \<mapsto> created (\<lambda>t. fromMS (ms t)) s qs)" by blast
  moreover have "db_due db3 = db_due ?db" by (simp add: db_due_def fun_eq_iff zs)
  ultimately show ?thesis
    by (intro requested_write[OF Q ok]) (simp_all add: c4 ok3 sl)
qed

end

section \<open>Answers\<close>

text \<open>What the scripts compare is what the view shows.\<close>

lemma meta_ok_fields:
  assumes "meta_ok m"
  shows "fmlookup m ''status'' = Some (FText (text_of (fmlookup m ''status'')))"
    "fmlookup m ''question_open'' = Some (FText (boolField (text_of (fmlookup m ''question_open'') = ''1'')))"
    "fmlookup m ''current_q_idx'' = Some (FText (itoa (atoi (text_of (fmlookup m ''current_q_idx'')))))"
  using assms by (auto simp: meta_ok_def)

context redis_store
begin

lemma view_answer:
  assumes v: "db_view db g = Some ag"
  shows "db_view (put (answersKey g i) (RHash (fmupd p (FText x) (hash db (answersKey g i)))) db) =
    (db_view db)(g \<mapsto> ag\<lparr>ag_Answers := (ag_Answers ag)(i := fmupd p x (ag_Answers ag i))\<rparr>)"
proof
  fix h
  note V = view_Some[OF v]
  let ?db = "put (answersKey g i) (RHash (fmupd p (FText x) (hash db (answersKey g i)))) db"
  show "db_view ?db h = ((db_view db)(g \<mapsto> ag\<lparr>ag_Answers := (ag_Answers ag)(i := fmupd p x (ag_Answers ag i))\<rparr>)) h"
  proof (cases "h = g")
    case True
    have ans: "(\<lambda>j. fmmap (\<lambda>v. text_of (Some v)) (hash ?db (answersKey g j))) =
        (ag_Answers ag)(i := fmupd p x (ag_Answers ag i))"
      by (auto simp: fun_eq_iff V(4) fmmap_fmupd)
    show ?thesis
      using v V(1) unfolding db_view_def True ans by (auto simp: db_view_def)
  qed (simp add: db_view_def)
qed

lemma db_ok_answer:
  assumes "db_ok db"
  shows "db_ok (put (answersKey g i) (RHash (fmupd p x h)) db)"
  using assms by (simp add: db_ok_def db_typed_def game_ok_def)

lemma law_RecordAnswer:
  assumes ok: "db_ok (rs_db st)" and run: "Store_RecordAnswer R g idx pid oid st = (st', u)"
  shows "case db_view (rs_db st) g of
         None \<Rightarrow> call_ok (observer up) st st' u \<and> unchanged (observer up) st st' \<and> u \<in> {Inl ErrGameNotFound, Inl ErrStorage}
       | Some ag \<Rightarrow> (case record_spec idx pid oid ag of
           Inl e \<Rightarrow> call_ok (observer up) st st' u \<and> unchanged (observer up) st st' \<and> u \<in> {Inl e, Inl ErrStorage}
         | Inr ag' \<Rightarrow> write_ok (observer up) st st' g ag' u)"
proof -
  let ?db = "rs_db st" and ?k = "answersKey g idx"
  let ?ttl = "gs_idleTTL R div 1000000"
  let ?script = "recordAnswerScript (gs_exec R) (metaKey g) ?k (itoa idx) pid oid ?ttl"
  let ?m = "hash ?db (metaKey g)"
  have hm: "gs_exec R (HMGET (metaKey g) [''status'', ''question_open'', ''current_q_idx'']) t ?db =
      (?db, RBulks [fmlookup ?m ''status'', fmlookup ?m ''question_open'', fmlookup ?m ''current_q_idx''])" for t
    using hmget[OF db_typedD(1)[OF ok]] by simp
  obtain st1 a where q: "request (gs_conn R) ?script st = (st1, a)" by fastforce
  define res where "res = (\<lambda>x. if x = ''ok'' then Inr ()
             else if x = ''game_not_found'' then Inl ErrGameNotFound
             else if x = ''game_not_running'' then Inl ErrGameNotRunning
             else if x = ''no_active_question'' then Inl ErrNoActiveQuestion
             else if x = ''already_answered'' then Inl ErrAlreadyAnswered
             else Inl ErrStorage)"
  have out: "st' = st1 \<and> u = (case a of Inl e \<Rightarrow> Inl e | Inr x \<Rightarrow> res x)"
    using run q by (cases a) (auto simp: Store_RecordAnswer_def res_def)
  have read: "call_ok (observer up) st st' u \<and> unchanged (observer up) st st' \<and> u \<in> {Inl e, Inl ErrStorage}"
    if s: "?script (now_ms R st) ?db = (?db, x)" and x: "res x = Inl e" and e: "e \<noteq> ErrStorage" for x e
  proof -
    have "call_ok (observer up) st st1 a \<and> unchanged (observer up) st st1 \<and> (a = Inr x \<or> a = Inl ErrStorage)"
      by (rule requested_read[OF request_requested[OF q s] refl ok])
    then show ?thesis using out x e by (auto simp: call_ok_def)
  qed
  show ?thesis
  proof (cases "db_view ?db g")
    case None
    then have "?m = fmempty" by (auto simp: db_view_def split: if_splits)
    then have "?script (now_ms R st) ?db = (?db, ''game_not_found'')" by (simp add: recordAnswerScript_def hm)
    from read[OF this] None show ?thesis by (simp add: res_def)
  next
    case (Some ag)
    note V = view_Some[OF Some]
    note M = meta_ok_fields[OF game_okD(1)[OF ok V(1)]]
    have st: "s_Status (ag_State ag) = text_of (fmlookup ?m ''status'')"
      "s_QuestionOpen (ag_State ag) \<longleftrightarrow> text_of (fmlookup ?m ''question_open'') = ''1''"
      "s_CurrentQIdx (ag_State ag) = atoi (text_of (fmlookup ?m ''current_q_idx''))"
      by (simp_all add: V(2))
    have m: "fmlookup ?m ''status'' = Some (FText (s_Status (ag_State ag)))"
      "fmlookup ?m ''question_open'' = Some (FText (boolField (s_QuestionOpen (ag_State ag))))"
      "fmlookup ?m ''current_q_idx'' = Some (FText (itoa (s_CurrentQIdx (ag_State ag))))"
      using M unfolding st by simp_all
    have dom: "pid |\<in>| fmdom (hash ?db ?k) \<longleftrightarrow> pid |\<in>| fmdom (ag_Answers ag idx)" by (simp add: V(4))
    consider (running) "s_Status (ag_State ag) \<noteq> GameStatusRunning"
      | (no_active) "s_Status (ag_State ag) = GameStatusRunning" "\<not> s_QuestionOpen (ag_State ag) \<or> s_CurrentQIdx (ag_State ag) \<noteq> idx"
      | (already) "s_Status (ag_State ag) = GameStatusRunning" "s_QuestionOpen (ag_State ag)" "s_CurrentQIdx (ag_State ag) = idx"
          "pid |\<in>| fmdom (hash ?db ?k)"
      | (ok) "s_Status (ag_State ag) = GameStatusRunning" "s_QuestionOpen (ag_State ag)" "s_CurrentQIdx (ag_State ag) = idx"
          "pid |\<notin>| fmdom (hash ?db ?k)" by blast
    then show ?thesis
    proof cases
      case running
      then have "?script (now_ms R st) ?db = (?db, ''game_not_running'')"
        by (simp add: recordAnswerScript_def hm m)
      from read[OF this] running Some show ?thesis by (simp add: res_def record_spec_def)
    next
      case no_active
      then have "?script (now_ms R st) ?db = (?db, ''no_active_question'')"
        by (auto simp: recordAnswerScript_def hm m)
      from read[OF this] no_active Some show ?thesis by (simp add: res_def record_spec_def)
    next
      case already
      then have "?script (now_ms R st) ?db = (?db, ''already_answered'')"
        using hsetnx[OF db_typedD(4)[OF ok]] by (simp add: recordAnswerScript_def hm m)
      from read[OF this] already Some dom show ?thesis by (simp add: res_def record_spec_def)
    next
      case ok: ok
      let ?db1 = "put ?k (RHash (fmupd pid (FText oid) (hash ?db ?k))) ?db"
      have "0 < ?ttl" using idleTTL by simp
      from pexpire[OF this] obtain n where
        pe: "gs_exec R (PEXPIRE ?k ?ttl) (now_ms R st) ?db1 = (set_expiry ?k (now_ms R st + ?ttl) ?db1, RInt n)" by blast
      let ?db2 = "set_expiry ?k (now_ms R st + ?ttl) ?db1"
      have "?script (now_ms R st) ?db = (?db2, ''ok'')"
        using ok hsetnx[OF db_typedD(4)[OF assms(1)], of g idx pid "FText oid" "now_ms R st"] pe
        by (simp add: recordAnswerScript_def hm m)
      note Q = request_requested[OF q this]
      have k2: "rkeys ?db2 = rkeys ?db1" by simp
      note c2 = db_cong[OF k2] rkeys_cong[OF k2]
      have Q': "requested up st st' ?db2 () u"
        using Q out by (auto simp: requested_def res_def)
      let ?ag' = "ag\<lparr>ag_Answers := (ag_Answers ag)(idx := fmupd pid oid (ag_Answers ag idx))\<rparr>"
      have "write_ok (observer up) st st' g ?ag' u"
        by (rule requested_write[OF Q' assms(1), unfolded c2, OF db_ok_answer[OF assms(1)] view_answer[OF Some]])
          (simp_all add: db_due_def fun_eq_iff)
      moreover have "record_spec idx pid oid ag = Inr ?ag'"
        using ok dom by (simp add: record_spec_def)
      ultimately show ?thesis using Some by simp
    qed
  qed
qed

lemma law_CloseAnswers:
  assumes ok: "db_ok (rs_db st)" and run: "Store_CloseAnswers R g idx st = (st', a)"
  shows "call_ok (observer up) st st' a \<and>
      (case db_view (rs_db st) g of
         None \<Rightarrow> unchanged (observer up) st st' \<and> a \<in> {Inl ErrNoActiveQuestion, Inl ErrStorage}
       | Some ag \<Rightarrow> (case close_spec idx ag of
           Inl e \<Rightarrow> unchanged (observer up) st st' \<and> a \<in> {Inl e, Inl ErrStorage}
         | Inr (ag', answers) \<Rightarrow>
             a = Inr answers \<and> wrote (observer up) st st' g ag' \<or>
             a = Inl ErrStorage \<and> (unchanged (observer up) st st' \<or> wrote (observer up) st st' g ag')))"
proof -
  let ?db = "rs_db st" and ?k = "answersKey g idx"
  let ?script = "closeAnswersScript (gs_exec R) (metaKey g) ?k (itoa idx)"
  let ?m = "hash ?db (metaKey g)"
  have hm: "gs_exec R (HMGET (metaKey g) [''question_open'', ''current_q_idx'']) t ?db =
      (?db, RBulks [fmlookup ?m ''question_open'', fmlookup ?m ''current_q_idx''])" for t
    using hmget[OF db_typedD(1)[OF ok]] by simp
  obtain st1 r where q: "request (gs_conn R) ?script st = (st1, r)" by fastforce
  have out: "st' = st1 \<and> a = (case r of Inl e \<Rightarrow> Inl e
      | Inr x \<Rightarrow> (case x of RNil \<Rightarrow> Inl ErrNoActiveQuestion
             | RFields h \<Rightarrow> Inr (fmmap (\<lambda>v. text_of (Some v)) h) | _ \<Rightarrow> Inl ErrStorage))"
    using run q by (cases r) (auto simp: Store_CloseAnswers_def)
  have nil: "call_ok (observer up) st st' a \<and> unchanged (observer up) st st' \<and> a \<in> {Inl ErrNoActiveQuestion, Inl ErrStorage}"
    if s: "?script (now_ms R st) ?db = (?db, RNil)"
  proof -
    have "call_ok (observer up) st st1 r \<and> unchanged (observer up) st st1 \<and> (r = Inr RNil \<or> r = Inl ErrStorage)"
      by (rule requested_read[OF request_requested[OF q s] refl ok])
    then show ?thesis using out by (auto simp: call_ok_def)
  qed
  show ?thesis
  proof (cases "db_view ?db g")
    case None
    then have "?m = fmempty" by (auto simp: db_view_def split: if_splits)
    then have "?script (now_ms R st) ?db = (?db, RNil)" by (simp add: closeAnswersScript_def hm)
    from nil[OF this] None show ?thesis by simp
  next
    case (Some ag)
    note V = view_Some[OF Some]
    note M = meta_ok_fields[OF game_okD(1)[OF ok V(1)]]
    have st: "s_QuestionOpen (ag_State ag) \<longleftrightarrow> text_of (fmlookup ?m ''question_open'') = ''1''"
      "s_CurrentQIdx (ag_State ag) = atoi (text_of (fmlookup ?m ''current_q_idx''))"
      by (simp_all add: V(2))
    have m: "fmlookup ?m ''question_open'' = Some (FText (boolField (s_QuestionOpen (ag_State ag))))"
      "fmlookup ?m ''current_q_idx'' = Some (FText (itoa (s_CurrentQIdx (ag_State ag))))"
      using M unfolding st by simp_all
    show ?thesis
    proof (cases "s_QuestionOpen (ag_State ag) \<and> s_CurrentQIdx (ag_State ag) = idx")
      case False
      then have "?script (now_ms R st) ?db = (?db, RNil)" by (auto simp: closeAnswersScript_def hm m)
      from nil[OF this] Some False show ?thesis by (auto simp: close_spec_def)
    next
      case True
      let ?m' = "fmupd ''question_open'' (FText ''0'') ?m"
      let ?db1 = "put_game g ?m' [] ?db"
      obtain n where hs: "gs_exec R (HSET (metaKey g) [(''question_open'', FText ''0'')]) (now_ms R st) ?db = (?db1, RInt n)"
        using hset[OF db_typedD(1)[OF ok, of g], of "[(''question_open'', FText ''0'')]" "now_ms R st"]
        by (auto simp: put_game_def)
      have m': "meta_ok ?m'"
        using game_okD(1)[OF ok V(1)] boolField_False[symmetric] by (simp add: meta_ok_def) blast
      have idx: "fmlookup ?m' ''current_q_idx'' = fmlookup ?m ''current_q_idx''" by simp
      have ok1: "db_ok ?db1"
        by (rule db_ok_put_game[OF ok m' _ V(1)]) (use game_okD(4)[OF ok V(1)] idx in auto)
      have ha: "hash ?db1 ?k = hash ?db ?k" by (simp add: hash_put_game)
      have "gs_exec R (HGETALL ?k) (now_ms R st) ?db1 = (?db1, RFields (hash ?db ?k))"
        using hgetall[OF db_typedD(4)[OF ok1], of g idx "now_ms R st"] by (simp add: ha)
      then have "?script (now_ms R st) ?db = (?db1, RFields (hash ?db ?k))"
        using True hs by (simp add: closeAnswersScript_def hm m)
      note Q = request_requested[OF q this]
      let ?ag' = "ag\<lparr>ag_State := (ag_State ag)\<lparr>s_QuestionOpen := False\<rparr>\<rparr>"
      have mne: "?m' \<noteq> fmempty" by simp
      have sM: "metaState g ?m' (s_Players (ag_State ag)) = (ag_State ag)\<lparr>s_QuestionOpen := False\<rparr>"
        by (simp add: V(2) metaState_def Let_def)
      have agQ: "ag_Question ag = (\<lambda>i. case fmlookup (hash ?db (questionsKey g)) (itoa i) of
         None \<Rightarrow> None | Some v \<Rightarrow> (case decodeQuestion v of Inl _ \<Rightarrow> None | Inr q \<Rightarrow> Some q))"
        by (rule ext) (rule V(3))
      have agA: "ag_Answers ag = (\<lambda>i. fmmap (\<lambda>v. text_of (Some v)) (hash ?db (answersKey g i)))"
        by (rule ext) (rule V(4))
      have agE: "?ag' = \<lparr>ag_State = (ag_State ag)\<lparr>s_QuestionOpen := False\<rparr>, ag_Question = ag_Question ag,
          ag_Answers = ag_Answers ag\<rparr>" by simp
      have pl: "fmupds (map (\<lambda>(k, v). (k, case v of FPlayer sp \<Rightarrow> loadPlayer g sp)) [])
           (fmmap (\<lambda>v. case v of FPlayer sp \<Rightarrow> loadPlayer g sp) (hash ?db (playersKey g))) = s_Players (ag_State ag)"
        by (simp add: V(2))
      have v1: "db_view ?db1 = (db_view ?db)(g \<mapsto> ?ag')"
        unfolding agE view_put_game[OF mne] pl sM agQ agA ..
      have cs: "close_spec idx ag = Inr (?ag', fmmap (\<lambda>v. text_of (Some v)) (hash ?db ?k))"
        using True by (simp add: close_spec_def V(4))
      have w1: "wrote (observer up) st st1 g ?ag'" "db_ok (rs_db st1)"
        "(\<lambda>h. str (rs_db st1) (lockKey h)) = (\<lambda>h. str ?db (lockKey h))" if "rs_db st1 = ?db1"
        using that v1 ok1 by (simp_all add: wrote_def due_put_game lock_put_game)
      have u1: "unchanged (observer up) st st1" "db_ok (rs_db st1)"
        "(\<lambda>h. str (rs_db st1) (lockKey h)) = (\<lambda>h. str ?db (lockKey h))" if "rs_db st1 = ?db"
        using that ok by (simp_all add: unchanged_def)
      have upm: "up (rs_net st) \<longrightarrow> up (rs_net st1)" using Q by (simp add: requested_def)
      consider (executed) "r = Inr (RFields (hash ?db ?k))" "rs_db st1 = ?db1"
        | (lost) "r = Inl ErrStorage" "\<not> up (rs_net st)" "rs_db st1 = ?db \<or> rs_db st1 = ?db1"
        using Q by (auto simp: requested_def)
      then have "call_ok (observer up) st st1 a \<and>
         (a = Inr (fmmap (\<lambda>v. text_of (Some v)) (hash ?db ?k)) \<and> wrote (observer up) st st1 g ?ag' \<or>
          a = Inl ErrStorage \<and> (unchanged (observer up) st st1 \<or> wrote (observer up) st st1 g ?ag'))"
      proof cases
        case executed
        then show ?thesis using w1 out upm by (simp add: call_ok_def)
      next
        case lost
        then have "a = Inl ErrStorage" using out by simp
        moreover have "db_ok (rs_db st1)" "(\<lambda>h. str (rs_db st1) (lockKey h)) = (\<lambda>h. str ?db (lockKey h))"
          "unchanged (observer up) st st1 \<or> wrote (observer up) st st1 g ?ag'"
          using lost(3) w1 u1 by blast+
        ultimately show ?thesis using lost(2) by (simp add: call_ok_def)
      qed
      then show ?thesis using out Some cs by simp
    qed
  qed
qed

end

section \<open>Deadlines\<close>

definition parse_member :: "string \<Rightarrow> string \<times> int" where
  "parse_member m = (case split_last_bar m of None \<Rightarrow> ('''', 0) | Some (a, b) \<Rightarrow> (a, atoi b))"

lemma split_last_bar_None: "CHR ''|'' \<notin> set s \<Longrightarrow> split_last_bar s = None"
  by (induction s) auto

lemma split_last_bar_append: "CHR ''|'' \<notin> set b \<Longrightarrow> split_last_bar (a @ CHR ''|'' # b) = Some (a, b)"
  by (induction a) (auto simp: split_last_bar_None)

lemma split_member [simp]: "split_last_bar (deadlineMember g i) = Some (g, itoa i)"
  using split_last_bar_append[OF bar_notin_itoa, of g i] by (simp add: deadlineMember_def)

lemma parse_member_deadline [simp]: "int64 i \<Longrightarrow> parse_member (deadlineMember g i) = (g, i)"
  by (simp add: parse_member_def)

lemma set_zmembers [simp]: "set (zmembers z) = fset (fmdom z)"
  by (force simp: zmembers_def)

lemma distinct_zmembers [simp]: "distinct (zmembers z)"
proof -
  have "mset (zmembers z) = image_mset snd (mset (map (\<lambda>m. (the (fmlookup z m), m)) (sorted_keys z)))"
    by (simp add: zmembers_def)
  also have "\<dots> = mset (sorted_keys z)" by (simp add: comp_def flip: mset_map)
  finally have "mset (zmembers z) = mset (sorted_keys z)" .
  then show ?thesis using distinct_sorted_keys mset_eq_imp_distinct_iff by blast
qed

lemma map_fst_filter_zip_map:
  "map fst (filter (\<lambda>(i, r). P r) (zip xs (map f xs))) = filter (\<lambda>x. P (f x)) xs"
  by (induction xs) auto

lemma inj_member: "inj (\<lambda>(g, i). deadlineMember g i)"
  by (auto simp: inj_def)

context redis_store
begin

lemma law_Due: "finite (dom (db_due db))"
proof -
  have "dom (db_due db) = (\<lambda>(g, i). deadlineMember g i) -` fset (fmdom (zset db deadlinesKey))"
    by (auto simp: db_due_def fmlookup_dom_iff)
  then show ?thesis using finite_vimageI[OF _ inj_member] by simp
qed

lemma db_ok_deadlines:
  assumes "db_ok db" and "\<forall>m |\<in>| fmdom z. \<exists>g i. int64 i \<and> m = deadlineMember g i"
  shows "db_ok (put_zset deadlinesKey z db)"
  using assms by (auto simp: db_ok_def db_typed_def game_ok_def)

lemma view_deadlines: "db_view (put_zset deadlinesKey z db) = db_view db"
  by (simp add: db_view_def fun_eq_iff)

lemma law_ScheduleClose:
  assumes ok: "db_ok (rs_db st)" and idx: "int64 idx" and at: "exact_time at"
    and run: "Store_ScheduleClose R g idx at st = (st', u)"
  shows "call_ok (observer up) st st' u \<and> db_view (rs_db st') = db_view (rs_db st) \<and>
      (u = Inr () \<and> db_due (rs_db st') = (db_due (rs_db st))((g, idx) \<mapsto> UnixMilli at) \<or>
       u = Inl ErrStorage \<and> db_due (rs_db st') \<in> {db_due (rs_db st), (db_due (rs_db st))((g, idx) \<mapsto> UnixMilli at)})"
proof -
  let ?db = "rs_db st"
  let ?z = "fmupd (deadlineMember g idx) (UnixMilli at) (zset ?db deadlinesKey)"
  let ?c = "ZADD deadlinesKey (float64 (UnixMilli at)) (deadlineMember g idx)"
  obtain st1 a where q: "request (gs_conn R) (gs_exec R ?c) st = (st1, a)" by fastforce
  have f: "float64 (UnixMilli at) = UnixMilli at" using at by (simp add: exact_time_def float64_exact)
  have pz: "put deadlinesKey (RZSet ?z) ?db = put_zset deadlinesKey ?z ?db" by (simp add: put_zset_def)
  obtain n where e: "gs_exec R ?c (now_ms R st) ?db = (put_zset deadlinesKey ?z ?db, RInt n)"
    using zadd[OF db_typedD(7)[OF ok], of "float64 (UnixMilli at)" "deadlineMember g idx" "now_ms R st"]
    unfolding f pz by blast
  note Q = request_requested[OF q e]
  have "db_ok (put_zset deadlinesKey ?z ?db)"
    using ok idx by (intro db_ok_deadlines[OF ok]) (auto simp: db_ok_def)
  moreover have "db_due (put_zset deadlinesKey ?z ?db) = (db_due ?db)((g, idx) \<mapsto> UnixMilli at)"
    by (auto simp: db_due_def fun_eq_iff)
  moreover have "st' = st1 \<and> u = (case a of Inl e \<Rightarrow> Inl e | Inr r \<Rightarrow> if reply_error r then Inl ErrStorage else Inr ())"
    using run q by (cases a) (auto simp: Store_ScheduleClose_def)
  ultimately show ?thesis
    using Q ok view_deadlines[of ?z ?db] by (auto simp: requested_def call_ok_def reply_error_def)
qed

lemma law_CancelClose:
  assumes ok: "db_ok (rs_db st)" and run: "Store_CancelClose R g idx st = (st', u)"
  shows "call_ok (observer up) st st' u \<and> db_view (rs_db st') = db_view (rs_db st) \<and>
      (u = Inr () \<and> db_due (rs_db st') = (db_due (rs_db st))((g, idx) := None) \<or>
       u = Inl ErrStorage \<and> db_due (rs_db st') \<in> {db_due (rs_db st), (db_due (rs_db st))((g, idx) := None)})"
proof -
  let ?db = "rs_db st"
  let ?z = "fmdrop_set (set [deadlineMember g idx]) (zset ?db deadlinesKey)"
  let ?c = "ZREM deadlinesKey [deadlineMember g idx]"
  obtain st1 a where q: "request (gs_conn R) (gs_exec R ?c) st = (st1, a)" by fastforce
  obtain n where e: "gs_exec R ?c (now_ms R st) ?db = (put_zset deadlinesKey ?z ?db, RInt n)"
    using zrem[OF db_typedD(7)[OF ok], of "[deadlineMember g idx]" "now_ms R st"] by blast
  note Q = request_requested[OF q e]
  have "db_ok (put_zset deadlinesKey ?z ?db)"
    using ok by (intro db_ok_deadlines[OF ok]) (auto simp: db_ok_def)
  moreover have "db_due (put_zset deadlinesKey ?z ?db) = (db_due ?db)((g, idx) := None)"
    by (auto simp: db_due_def fun_eq_iff)
  moreover have "st' = st1 \<and> u = (case a of Inl e \<Rightarrow> Inl e | Inr r \<Rightarrow> if reply_error r then Inl ErrStorage else Inr ())"
    using run q by (cases a) (auto simp: Store_CancelClose_def)
  ultimately show ?thesis
    using Q ok view_deadlines[of ?z ?db] by (auto simp: requested_def call_ok_def reply_error_def)
qed

lemma law_ClaimDueCloses:
  assumes ok: "db_ok (rs_db st)" and now: "exact_time now" and run: "Store_ClaimDueCloses R now n st = (st', c)"
  shows "call_ok (observer up) st st' c \<and> db_view (rs_db st') = db_view (rs_db st) \<and>
      (\<exists>ds. distinct (map due_key ds) \<and> length ds \<le> n \<and>
         (\<forall>d \<in> set ds. \<exists>t \<le> UnixMilli now. db_due (rs_db st) (due_key d) = Some t) \<and>
         (length ds < n \<longrightarrow> (\<forall>k t. db_due (rs_db st) k = Some t \<longrightarrow> t \<le> UnixMilli now \<longrightarrow> k \<in> due_key ` set ds)) \<and>
         (c = Inr ds \<and> db_due (rs_db st') = drop_keys (due_key ` set ds) (db_due (rs_db st)) \<or>
          c = Inl ErrStorage \<and> db_due (rs_db st') \<in> {db_due (rs_db st), drop_keys (due_key ` set ds) (db_due (rs_db st))}))"
proof -
  let ?db = "rs_db st" and ?z = "zset (rs_db st) deadlinesKey"
  define Ms where "Ms = take n (filter (\<lambda>m. the (fmlookup ?z m) \<le> UnixMilli now) (zmembers ?z))"
  define ds where "ds = map (\<lambda>m. case parse_member m of (g, i) \<Rightarrow> \<lparr>dc_GameID = g, dc_Index = i\<rparr>) Ms"
  have f: "float64 (UnixMilli now) = UnixMilli now" using now by (simp add: exact_time_def float64_exact)
  have sub: "set Ms \<subseteq> {m. m |\<in>| fmdom ?z \<and> the (fmlookup ?z m) \<le> UnixMilli now}"
    using set_take_subset by (fastforce simp: Ms_def)
  have shape: "\<exists>g i. int64 i \<and> m = deadlineMember g i" if "m |\<in>| fmdom ?z" for m
    using ok that by (simp add: db_ok_def)
  have recover: "(case parse_member m of (g, i) \<Rightarrow> deadlineMember g i) = m" if "m \<in> set Ms" for m
  proof -
    have "m |\<in>| fmdom ?z" using that sub by blast
    then obtain g i where "int64 i" "m = deadlineMember g i" using shape by blast
    then show ?thesis by simp
  qed
  have keys: "map due_key ds = map parse_member Ms" by (simp add: ds_def due_key_def split_def)
  have mem: "(g, i) \<in> due_key ` set ds \<longleftrightarrow> deadlineMember g i \<in> set Ms" for g i
  proof -
    have "due_key ` set ds = parse_member ` set Ms" using keys by (metis list.set_map)
    moreover have "(g, i) \<in> parse_member ` set Ms \<longleftrightarrow> deadlineMember g i \<in> set Ms"
    proof
      assume "(g, i) \<in> parse_member ` set Ms"
      then obtain m where "m \<in> set Ms" "parse_member m = (g, i)" by auto
      with recover[of m] show "deadlineMember g i \<in> set Ms" by simp
    next
      assume m: "deadlineMember g i \<in> set Ms"
      with sub shape[of "deadlineMember g i"] have "int64 i" by auto
      with m show "(g, i) \<in> parse_member ` set Ms" by force
    qed
    ultimately show ?thesis by simp
  qed
  have "inj_on parse_member (set Ms)"
    by (rule inj_on_inverseI[where g = "\<lambda>(g, i). deadlineMember g i"]) (rule recover)
  moreover have "distinct Ms" by (simp add: Ms_def)
  ultimately have dist: "distinct (map due_key ds)" by (simp add: keys distinct_map)
  have len: "length ds \<le> n" by (simp add: ds_def Ms_def)
  have reached: "\<forall>d \<in> set ds. \<exists>t \<le> UnixMilli now. db_due ?db (due_key d) = Some t"
  proof
    fix d assume d: "d \<in> set ds"
    obtain g i where k: "due_key d = (g, i)" by fastforce
    then have "deadlineMember g i \<in> set Ms" using d mem[of g i] by (metis image_eqI)
    then show "\<exists>t \<le> UnixMilli now. db_due ?db (due_key d) = Some t"
      using sub by (auto simp: k db_due_def fmlookup_dom_iff)
  qed
  have all: "length ds < n \<longrightarrow> (\<forall>k t. db_due ?db k = Some t \<longrightarrow> t \<le> UnixMilli now \<longrightarrow> k \<in> due_key ` set ds)"
  proof (intro impI allI)
    fix k t assume lt: "length ds < n" and k: "db_due ?db k = Some t" "t \<le> UnixMilli now"
    obtain g i where gi: "k = (g, i)" by fastforce
    have "Ms = filter (\<lambda>m. the (fmlookup ?z m) \<le> UnixMilli now) (zmembers ?z)"
      using lt by (simp add: ds_def Ms_def)
    then have "deadlineMember g i \<in> set Ms" using k by (auto simp: gi db_due_def intro: fmdomI)
    then show "k \<in> due_key ` set ds" using mem by (simp add: gi)
  qed
  define z' where "z' = fmdrop_set (set Ms) ?z"
  have dd: "db_due (put_zset deadlinesKey z' ?db) = drop_keys (due_key ` set ds) (db_due ?db)"
    using mem by (auto simp: db_due_def drop_keys_def fun_eq_iff z'_def)
  have okz: "db_ok (put_zset deadlinesKey z' ?db)"
  proof (rule db_ok_deadlines[OF ok], rule)
    fix m assume "m |\<in>| fmdom z'"
    then have "m |\<in>| fmdom ?z" by (auto simp: z'_def fmlookup_dom_iff split: if_splits)
    then show "\<exists>g i. int64 i \<and> m = deadlineMember g i" by (rule shape)
  qed
  obtain st1 a where q: "request (gs_conn R) (claimDueScript (gs_exec R) deadlinesKey (UnixMilli now) n) st = (st1, a)"
    by fastforce
  define db' where "db' = (if Ms = [] then ?db else put_zset deadlinesKey z' ?db)"
  have e: "claimDueScript (gs_exec R) deadlinesKey (UnixMilli now) n (now_ms R st) ?db = (db', RMembers Ms)"
  proof -
    have r: "gs_exec R (ZRANGEBYSCORE deadlinesKey (UnixMilli now) n) (now_ms R st) ?db = (?db, RMembers Ms)"
      using zrangebyscore[OF db_typedD(7)[OF ok], of "UnixMilli now" n "now_ms R st"] by (simp add: f Ms_def)
    show ?thesis
    proof (cases "Ms = []")
      case False
      obtain k where "gs_exec R (ZREM deadlinesKey Ms) (now_ms R st) ?db = (put_zset deadlinesKey z' ?db, RInt k)"
        using zrem[OF db_typedD(7)[OF ok] False, of "now_ms R st"] z'_def by blast
      with r False show ?thesis by (simp add: claimDueScript_def db'_def)
    qed (use r in \<open>simp add: claimDueScript_def db'_def\<close>)
  qed
  note Q = request_requested[OF q e]
  have obs: "db_ok db'" "db_view db' = db_view ?db" "db_due db' = drop_keys (due_key ` set ds) (db_due ?db)"
    using ok okz view_deadlines[of z' ?db] dd
    by (auto simp: db'_def ds_def drop_keys_def)
  have conv: "List.map_filter (\<lambda>m. map_option (\<lambda>(a, b). \<lparr>dc_GameID = a, dc_Index = atoi b\<rparr>) (split_last_bar m)) Ms = ds"
  proof -
    have "map_option (\<lambda>(a, b). \<lparr>dc_GameID = a, dc_Index = atoi b\<rparr>) (split_last_bar m) =
        Some (case parse_member m of (g, i) \<Rightarrow> \<lparr>dc_GameID = g, dc_Index = i\<rparr>)" if "m \<in> set Ms" for m
    proof -
      have "m |\<in>| fmdom ?z" using that sub by blast
      then obtain g i where "int64 i" "m = deadlineMember g i" using shape by blast
      then show ?thesis by simp
    qed
    then show ?thesis unfolding ds_def by (intro map_filter_Some) blast
  qed
  have "st' = st1 \<and> c = (case a of Inl e \<Rightarrow> Inl e | Inr r \<Rightarrow> (case r of
               RMembers members \<Rightarrow> Inr (List.map_filter (\<lambda>m. map_option (\<lambda>(a, b). \<lparr>dc_GameID = a, dc_Index = atoi b\<rparr>) (split_last_bar m)) members)
             | RNil \<Rightarrow> Inr [] | _ \<Rightarrow> Inl ErrStorage))"
    using run q by (cases a) (auto simp: Store_ClaimDueCloses_def)
  then have out: "c = Inr ds \<and> rs_db st' = db' \<or> c = Inl ErrStorage \<and> \<not> up (rs_net st) \<and> rs_db st' \<in> {?db, db'}"
    and up': "up (rs_net st) \<longrightarrow> up (rs_net st')"
    using Q conv by (auto simp: requested_def)
  have c1: "call_ok (observer up) st st' c \<and> db_view (rs_db st') = db_view ?db"
    using out up' obs ok by (auto simp: call_ok_def db'_def)
  have c2: "c = Inr ds \<and> db_due (rs_db st') = drop_keys (due_key ` set ds) (db_due ?db) \<or>
          c = Inl ErrStorage \<and> db_due (rs_db st') \<in> {db_due ?db, drop_keys (due_key ` set ds) (db_due ?db)}"
    using out obs(3) by auto
  show ?thesis using c1 dist len reached all c2 by blast
qed

end

section \<open>The games of an actor\<close>

context redis_store
begin

lemma exec_exists:
  "exec_all (gs_exec R) (map (\<lambda>i. EXISTS (metaKey i)) ids) t db =
     (db, map (\<lambda>i. RInt (if rkeys db (metaKey i) = None then 0 else 1)) ids)"
  by (induction ids) (simp_all add: exists)

lemma db_ok_actor:
  assumes "db_ok db"
  shows "db_ok (put_zset (actorGamesKey a) z db)" "db_view (put_zset (actorGamesKey a) z db) = db_view db"
    "db_due (put_zset (actorGamesKey a) z db) = db_due db"
  using assms by (simp_all add: db_ok_def db_typed_def game_ok_def db_view_def db_due_def fun_eq_iff)

lemma law_GamesOfActor:
  assumes ok: "db_ok (rs_db st)" and run: "Store_GamesOfActor R actor st = (st', r)"
  shows "call_ok (observer up) st st' r \<and> unchanged (observer up) st st' \<and>
    (r = Inl ErrStorage \<or> (\<exists>gids. r = Inr gids \<and> distinct gids \<and> (\<forall>g \<in> set gids. db_view (rs_db st) g \<noteq> None)))"
proof -
  let ?db = "rs_db st" and ?k = "actorGamesKey actor"
  define ids where "ids = rev (zmembers (zset ?db ?k))"
  obtain st1 a where q1: "request (gs_conn R) (gs_exec R (ZREVRANGE ?k)) st = (st1, a)" by fastforce
  have e1: "gs_exec R (ZREVRANGE ?k) (now_ms R st) ?db = (?db, RMembers ids)"
    using zrevrange[OF db_typedD(6)[OF ok]] by (simp add: ids_def)
  note Q1 = request_requested[OF q1 e1]
  note R1 = requested_read[OF Q1 refl ok]
  have db1: "rs_db st1 = ?db" using Q1 by (auto simp: requested_def)
  show ?thesis
  proof (cases "a = Inr (RMembers ids) \<and> ids \<noteq> []")
    case False
    then have "st' = st1 \<and> (r = Inl ErrStorage \<and> a = Inl ErrStorage \<or> r = Inr [])"
      using run q1 R1 by (auto simp: Store_GamesOfActor_def Let_def)
    then show ?thesis using R1 by (auto simp: call_ok_def)
  next
    case True
    then have a: "a = Inr (RMembers ids)" and ne: "ids \<noteq> []" by blast+
    define ex where "ex = (\<lambda>i. RInt (if rkeys ?db (metaKey i) = None then 0 else 1))"
    obtain st2 b where p: "pipelined (gs_exec R) (gs_conn R) (map (\<lambda>i. EXISTS (metaKey i)) ids) st1 = (st2, b)" by fastforce
    have e2: "exec_all (gs_exec R) (map (\<lambda>i. EXISTS (metaKey i)) ids) (now_ms R st1) (rs_db st1) = (?db, map ex ids)"
      by (simp add: exec_exists db1 ex_def)
    have Q2: "requested up st1 st2 ?db (map ex ids) b"
      by (rule pipelined_requested[OF p e2]) (auto simp: ex_def reply_error_def)
    have R2: "call_ok (observer up) st1 st2 b \<and> unchanged (observer up) st1 st2 \<and> (b = Inr (map ex ids) \<or> b = Inl ErrStorage)"
      by (rule requested_read[OF Q2]) (simp_all add: db1 ok)
    have db2: "rs_db st2 = ?db" using Q2 db1 by (auto simp: requested_def)
    define live where "live = filter (\<lambda>i. ex i = RInt 1) ids"
    define gone where "gone = filter (\<lambda>i. ex i \<noteq> RInt 1) ids"
    define st3 where "st3 = (if gone \<noteq> [] then fst (request (gs_conn R) (gs_exec R (ZREM ?k gone)) st2) else st2)"
    have st3: "db_ok (rs_db st3) \<and> db_view (rs_db st3) = db_view ?db \<and> db_due (rs_db st3) = db_due ?db \<and>
      (\<forall>h. str (rs_db st3) (lockKey h) = str ?db (lockKey h)) \<and> (up (rs_net st2) \<longrightarrow> up (rs_net st3))"
    proof (cases "gone = []")
      case False
      obtain st4 c where q3: "request (gs_conn R) (gs_exec R (ZREM ?k gone)) st2 = (st4, c)" by fastforce
      obtain n where "gs_exec R (ZREM ?k gone) (now_ms R st2) (rs_db st2) =
          (put_zset ?k (fmdrop_set (set gone) (zset ?db ?k)) ?db, RInt n)"
        using zrem[OF db_typedD(6)[OF ok] False] unfolding db2 by blast
      from request_requested[OF q3 this] show ?thesis
        using q3 False ok db_ok_actor[OF ok] by (auto simp: st3_def requested_def db2)
    qed (simp add: st3_def db2 ok)
    have f1: "map fst (filter (\<lambda>(i, r). r = RInt 1) (zip ids (map ex ids))) = live"
      and f2: "map fst (filter (\<lambda>(i, r). r \<noteq> RInt 1) (zip ids (map ex ids))) = gone"
      by (simp_all add: map_fst_filter_zip_map live_def gone_def)
    have f3: "filter (\<lambda>(i, r). r \<noteq> RInt 1) (zip ids (map ex ids)) = [] \<longleftrightarrow> gone = []"
      unfolding f2[symmetric] by simp
    have res: "st' = (if b = Inl ErrStorage then st2 else st3) \<and> r = (if b = Inl ErrStorage then Inl ErrStorage else Inr live)"
      using run q1 a ne p R2
      by (auto simp: Store_GamesOfActor_def Let_def f1 f2 f3 st3_def)
    have "db_view ?db g \<noteq> None" if "g \<in> set live" for g
      using that hash_empty_iff[OF db_typedD(1)[OF ok], of g]
      by (auto simp: live_def ex_def db_view_def split: if_splits)
    moreover have "distinct live" by (simp add: live_def ids_def)
    ultimately show ?thesis
      using res st3 R1 R2 a by (auto simp: call_ok_def unchanged_def)
  qed
qed

section \<open>The contract holds\<close>

theorem is_state_store: "state_store (gameStateStore R) (observer up)"
proof (unfold_locales, goal_cases)
  case (1 st)
  then show ?case using law_Due by simp
next
  case (2 st gid g)
  then show ?case using law_View by simp
next
  case (3 st gid st' r)
  then show ?case using law_Load by (simp add: gameStateStore_def)
next
  case (4 st gid idx st' r')
  then show ?case using law_Question by (simp add: gameStateStore_def)
next
  case (5 st gid st' b)
  then show ?case using law_Exists by (simp add: gameStateStore_def)
next
  case (6 st gid st' l)
  then show ?case using law_Lock by (simp add: gameStateStore_def)
next
  case (7 st s qs st' u)
  then show ?case using law_Create by (simp add: gameStateStore_def)
next
  case (8 st gid g t p st' u)
  then show ?case using law_AddPlayer by (simp add: gameStateStore_def)
next
  case (9 st s g ps st' u)
  then show ?case using law_Save by (simp add: gameStateStore_def)
next
  case (10 st gid idx pid oid st' u)
  then show ?case using law_RecordAnswer by (simp add: gameStateStore_def)
next
  case (11 st gid idx st' a)
  then show ?case using law_CloseAnswers by (simp add: gameStateStore_def)
next
  case (12 st idx at gid st' u)
  then show ?case using law_ScheduleClose by (simp add: gameStateStore_def)
next
  case (13 st gid idx st' u)
  then show ?case using law_CancelClose by (simp add: gameStateStore_def)
next
  case (14 st now n st' c)
  then show ?case using law_ClaimDueCloses by (simp add: gameStateStore_def)
next
  case (15 st actor st' ids)
  then show ?case using law_GamesOfActor by (simp add: gameStateStore_def)
qed

end

sublocale redis_store \<subseteq> games: state_store "gameStateStore R" "observer up"
  by (rule is_state_store)

end
