(* ===== verification/Engine_Spec.thy ===== *)
theory Engine_Spec
  imports Game_Engine
begin

text \<open>
  What one engine operation does to a game, as a function of the stored game alone
  (\<open>add_spec\<close>, \<open>start_spec\<close>, \<open>submit_spec\<close>, \<open>close_game\<close>), and the proof that the engine's code, run
  on any store that keeps the contract \<open>state_store\<close>, does exactly that: the lemmas of the
  context block. They cover failures too: an operation that fails leaves the game as it was or
  as the specification makes it, except for a close, which can also stop half way
  (\<open>half_closed\<close>).
\<close>

section \<open>Specifications\<close>

definition add_spec :: "string \<Rightarrow> string \<Rightarrow> string \<Rightarrow> string \<Rightarrow> agame \<Rightarrow> game_error + agame" where
  "add_spec gid pid name actorID g = (let s = ag_State g in
     if s_Status s \<noteq> GameStatusWaiting then Inl ErrGameAlreadyStarted
     else if pid |\<in>| fmdom (s_Players s) then Inl ErrPlayerAlreadyJoined
     else Inr (put_players gid [new_player pid name (InitialLives (s_Config s)) gid actorID] g))"

definition start_spec :: "(time \<Rightarrow> time) \<Rightarrow> time \<Rightarrow> agame \<Rightarrow> game_error + agame" where
  "start_spec tm now g = (let s = ag_State g in
     case start_error s of
       Some e \<Rightarrow> Inl e
     | None \<Rightarrow> (case ag_Question g (s_CurrentQIdx s + 1) of
         None \<Rightarrow> Inl ErrGameNotFound
       | Some q \<Rightarrow> Inr (put_progress tm (started now q s) g)))"

definition submit_spec :: "string \<Rightarrow> string \<Rightarrow> string \<Rightarrow> agame \<Rightarrow> game_error + agame" where
  "submit_spec pid qid oid g = (case loaded g of
     Inl e \<Rightarrow> Inl e
   | Inr s \<Rightarrow> (case submit_check s pid qid oid of
       Some e \<Rightarrow> Inl e
     | None \<Rightarrow> record_spec (s_CurrentQIdx s) pid oid g))"

definition close_error :: "int \<Rightarrow> State \<Rightarrow> game_error option" where
  "close_error onlyIdx s =
     (if s_Status s \<noteq> GameStatusRunning then Some ErrGameNotRunning
      else if \<not> s_QuestionOpen s \<or> (0 \<le> onlyIdx \<and> s_CurrentQIdx s \<noteq> onlyIdx) then Some ErrNoActiveQuestion
      else None)"

text \<open>The state whose penalties are applied, and the stored game before and after them.\<close>

definition closing :: "State \<Rightarrow> State" where
  "closing s = s\<lparr>s_QuestionOpen := False\<rparr>"

definition half_closed :: "agame \<Rightarrow> agame" where
  "half_closed g = g\<lparr>ag_State := (ag_State g)\<lparr>s_QuestionOpen := False\<rparr>\<rparr>"

definition close_game :: "(time \<Rightarrow> time) \<Rightarrow> State \<Rightarrow> agame \<Rightarrow> (agame \<times> close_result) option" where
  "close_game tm s g = (case (applyPenalties (closing s), s_Current s) of
     (Some (s2, result, livesAfter), Some q) \<Rightarrow>
        Some (saved tm s2 (map (the_player s2) (cr_LifeLost result)) g,
              result, q_ID q, q_CorrectOptionID q, livesAfter)
   | _ \<Rightarrow> None)"

text \<open>
  The outcome of an operation whose specification at the stored game is \<open>spec\<close>: with a store
  that is up, exactly the specification; otherwise possibly a storage error, the write done or
  not.
\<close>

type_synonym deadlines = "string \<times> int \<Rightarrow> int option"

definition achieves :: "'st observer \<Rightarrow> 'st \<Rightarrow> 'st \<Rightarrow> string \<Rightarrow> (game_error + agame) \<Rightarrow> deadlines \<Rightarrow> game_error + 'a \<Rightarrow> bool" where
  "achieves V st st' gid spec due r \<longleftrightarrow>
     (case spec of
        Inl e \<Rightarrow> unchanged V st st' \<and> r \<in> {Inl e, Inl ErrStorage}
      | Inr g' \<Rightarrow> (\<exists>x. r = Inr x) \<and> ob_view V st' = (ob_view V st)(gid \<mapsto> g') \<and> ob_due V st' = due \<or>
          r = Inl ErrStorage \<and> ob_view V st' \<in> {ob_view V st, (ob_view V st)(gid \<mapsto> g')} \<and>
            ob_due V st' \<in> {ob_due V st, due})"

definition implements :: "'st observer \<Rightarrow> 'st \<Rightarrow> 'st \<Rightarrow> string \<Rightarrow> (game_error + agame) \<Rightarrow> deadlines \<Rightarrow> game_error + 'a \<Rightarrow> bool" where
  "implements V st st' gid spec due r \<longleftrightarrow>
     ob_inv V st' \<and>
     (ob_up V st \<longrightarrow> ob_up V st' \<and> ob_lock V st' = ob_lock V st \<and> r \<noteq> Inl ErrStorage) \<and>
     achieves V st st' gid spec due r"

text \<open>The deadlines after a question was started: its own is registered when it has a timeout.\<close>

definition started_due :: "string \<Rightarrow> time \<Rightarrow> agame \<Rightarrow> deadlines \<Rightarrow> deadlines" where
  "started_due gid now g due = (let t = AnswerTimeoutSeconds (s_Config (ag_State g)) in
     if t > 0 then due((gid, s_CurrentQIdx (ag_State g) + 1) \<mapsto> UnixMilli (now + duration_seconds t)) else due)"

definition at_game :: "(agame \<Rightarrow> game_error + agame) \<Rightarrow> agame option \<Rightarrow> game_error + agame" where
  "at_game f og = (case og of None \<Rightarrow> Inl ErrGameNotFound | Some g \<Rightarrow> f g)"

lemma call_ok_trans: "call_ok V st st1 a \<Longrightarrow> call_ok V st1 st2 b \<Longrightarrow> call_ok V st st2 b"
  by (auto simp: call_ok_def)



lemma loaded_InrD:
  assumes "loaded g = Inr s"
  shows "s = (ag_State g)\<lparr>s_Current := s_Current s, s_Answers := s_Answers s\<rparr>"
    and "0 \<le> s_CurrentQIdx s \<Longrightarrow> s_Current s = ag_Question g (s_CurrentQIdx s) \<and>
           s_Current s \<noteq> None \<and> s_Answers s = ag_Answers g (s_CurrentQIdx s)"
  using assms by (auto simp: loaded_def Let_def split: if_splits option.splits)

lemma loaded_fields:
  assumes "loaded g = Inr s"
  shows "s_ID s = s_ID (ag_State g)" "s_Status s = s_Status (ag_State g)"
    "s_CreatedAt s = s_CreatedAt (ag_State g)" "s_Config s = s_Config (ag_State g)"
    "s_TotalQuestions s = s_TotalQuestions (ag_State g)" "s_CurrentQIdx s = s_CurrentQIdx (ag_State g)"
    "s_QuestionOpen s = s_QuestionOpen (ag_State g)" "s_QuestionStart s = s_QuestionStart (ag_State g)"
    "s_EndReason s = s_EndReason (ag_State g)" "s_Players s = s_Players (ag_State g)"
    "s_OwnerID s = s_OwnerID (ag_State g)" "s_QuestionListID s = s_QuestionListID (ag_State g)"
  using assms by (auto simp: loaded_def Let_def split: if_splits option.splits)

lemma start_error_loaded: "loaded g = Inr s \<Longrightarrow> start_error s = start_error (ag_State g)"
  by (simp add: start_error_def loaded_fields)

section \<open>The engine implements them\<close>

context state_store
begin

text \<open>
  The frame of every transition under the lock: the body runs on the loaded state in a store
  that shows the same games, and what it leaves is what the operation leaves.
\<close>

lemma locked_rule:
  assumes inv: "ob_inv V st" and free: "ob_lock V st gid = None"
    and run: "locked S gid body st = (st', r)"
    and body: "\<And>s st1 st2. load_view (ob_view V st gid) = Inr s \<Longrightarrow> ob_inv V st1 \<Longrightarrow> unchanged V st st1 \<Longrightarrow>
      (ob_up V st \<longrightarrow> ob_up V st1) \<Longrightarrow> body s st1 = (st2, r) \<Longrightarrow> call_ok V st1 st2 r \<and> Q s st2 r"
  shows "ob_inv V st'"
    and "ob_up V st \<Longrightarrow> ob_up V st' \<and> ob_lock V st' = ob_lock V st \<and> r \<noteq> Inl ErrStorage"
    and "r = Inl ErrStorage \<and> unchanged V st st'
       \<or> (\<exists>e. load_view (ob_view V st gid) = Inl e \<and> r = Inl e \<and> unchanged V st st')
       \<or> (\<exists>s st2. load_view (ob_view V st gid) = Inr s \<and> Q s st2 r \<and> unchanged V st2 st')"
proof -
  obtain st1 l where lock: "ss_Lock S gid st = (st1, l)" by (cases "ss_Lock S gid st")
  note L = Lock[OF inv free lock]
  have all: "ob_inv V st' \<and>
    (ob_up V st \<longrightarrow> ob_up V st' \<and> ob_lock V st' = ob_lock V st \<and> r \<noteq> Inl ErrStorage) \<and>
    (r = Inl ErrStorage \<and> unchanged V st st'
       \<or> (\<exists>e. load_view (ob_view V st gid) = Inl e \<and> r = Inl e \<and> unchanged V st st')
       \<or> (\<exists>s st2. load_view (ob_view V st gid) = Inr s \<and> Q s st2 r \<and> unchanged V st2 st'))"
  proof (cases "l = Inl ErrStorage \<and> \<not> ob_up V st")
    case True
    with run lock L show ?thesis by (auto simp: locked_def)
  next
    case False
    with L obtain unlock tok where l: "l = Inr unlock"
      and held: "ob_lock V st1 = (ob_lock V st)(gid \<mapsto> tok)" and up1: "ob_up V st \<longrightarrow> ob_up V st1"
      and unl: "\<And>st2. ob_inv V st2 \<Longrightarrow> ob_lock V st2 gid = Some tok \<Longrightarrow>
             ob_inv V (unlock st2) \<and> unchanged V st2 (unlock st2) \<and>
             (ob_up V st2 \<longrightarrow> ob_up V (unlock st2) \<and> ob_lock V (unlock st2) = (ob_lock V st2)(gid := None))"
      by blast
    have inv1: "ob_inv V st1" and un1: "unchanged V st st1" using L by blast+
    obtain st2 a where load: "ss_Load S gid st1 = (st2, a)" by (cases "ss_Load S gid st1")
    have c2: "call_ok V st1 st2 a" and un2: "unchanged V st1 st2"
      and a: "a = Inl ErrStorage \<or> a = load_view (ob_view V st gid)"
      using Load[OF inv1 load] un1 by (auto simp: unchanged_def)
    obtain st3 where body_run: "and_then (st2, a) (\<lambda>st2 s. body s st2) = (st3, r)" and st': "st' = unlock st3"
      using run lock l load by (auto simp: locked_def split: prod.splits)
    have c3: "call_ok V st1 st3 r" and Q: "(r = Inl ErrStorage \<and> st3 = st2)
       \<or> (\<exists>e. load_view (ob_view V st gid) = Inl e \<and> r = Inl e \<and> st3 = st2)
       \<or> (\<exists>s. load_view (ob_view V st gid) = Inr s \<and> Q s st3 r)"
    proof -
      have inv2: "ob_inv V st2" using c2 by (simp add: call_ok_def)
      have un: "unchanged V st st2" using un1 un2 by (simp add: unchanged_def)
      have "call_ok V st1 st3 r \<and> ((r = Inl ErrStorage \<and> st3 = st2)
       \<or> (\<exists>e. load_view (ob_view V st gid) = Inl e \<and> r = Inl e \<and> st3 = st2)
       \<or> (\<exists>s. load_view (ob_view V st gid) = Inr s \<and> Q s st3 r))"
      proof (cases a)
        case (Inl e)
        then have "r = Inl e" "st3 = st2" using body_run by auto
        moreover have "call_ok V st1 st2 (Inl e :: game_error + 'b)"
          using c2 unfolding Inl by (simp add: call_ok_def)
        moreover have "e = ErrStorage \<or> load_view (ob_view V st gid) = Inl e" using a Inl by fastforce
        ultimately show ?thesis by blast
      next
        case (Inr s)
        then have "body s st2 = (st3, r)" and "load_view (ob_view V st gid) = Inr s"
          using body_run a by auto
        moreover have "ob_up V st \<longrightarrow> ob_up V st2" using up1 c2 by (simp add: call_ok_def)
        ultimately have "call_ok V st2 st3 r \<and> Q s st3 r" using body inv2 un by blast
        with c2 \<open>load_view (ob_view V st gid) = Inr s\<close> show ?thesis by (blast intro: call_ok_trans)
      qed
      then show "call_ok V st1 st3 r" and "(r = Inl ErrStorage \<and> st3 = st2)
       \<or> (\<exists>e. load_view (ob_view V st gid) = Inl e \<and> r = Inl e \<and> st3 = st2)
       \<or> (\<exists>s. load_view (ob_view V st gid) = Inr s \<and> Q s st3 r)" by blast+
    qed
    have inv3: "ob_inv V st3" and lk3: "ob_lock V st3 = (ob_lock V st)(gid \<mapsto> tok)"
      using c2 c3 held by (auto simp: call_ok_def)
    have U: "ob_inv V st'" "unchanged V st3 st'"
      "ob_up V st3 \<Longrightarrow> ob_up V st' \<and> ob_lock V st' = (ob_lock V st3)(gid := None)"
      using unl[OF inv3] lk3 by (auto simp: st')
    have lk: "(ob_lock V st3)(gid := None) = ob_lock V st" using lk3 free by (auto simp: fun_eq_iff)
    have un: "unchanged V st st2" using un1 un2 by (simp add: unchanged_def)
    have "ob_up V st \<longrightarrow> ob_up V st' \<and> ob_lock V st' = ob_lock V st \<and> r \<noteq> Inl ErrStorage"
      using up1 c2 c3 U(3) lk by (auto simp: call_ok_def)
    moreover have "unchanged V st st'" if "st3 = st2"
      using that un U(2) by (simp add: unchanged_def)
    ultimately show ?thesis using U(1,2) Q by blast
  qed
  then show "ob_inv V st'"
    and "ob_up V st \<Longrightarrow> ob_up V st' \<and> ob_lock V st' = ob_lock V st \<and> r \<noteq> Inl ErrStorage"
    and "r = Inl ErrStorage \<and> unchanged V st st'
       \<or> (\<exists>e. load_view (ob_view V st gid) = Inl e \<and> r = Inl e \<and> unchanged V st st')
       \<or> (\<exists>s st2. load_view (ob_view V st gid) = Inr s \<and> Q s st2 r \<and> unchanged V st2 st')"
    by blast+
qed

end

context state_store
begin

lemma load_view_NotStorage:
  assumes "ob_inv V st"
  shows "load_view (ob_view V st gid) \<noteq> Inl ErrStorage"
  using View[OF assms] by (cases "ob_view V st gid") auto

lemma load_view_InrD:
  assumes "ob_inv V st" and "load_view (ob_view V st gid) = Inr s"
  obtains g where "ob_view V st gid = Some g" and "loaded g = Inr s" and "s_ID (ag_State g) = gid"
    and "int64_state (ag_State g)"
proof (cases "ob_view V st gid")
  case (Some g)
  then show ?thesis using assms(2) View[OF assms(1) Some] that by auto
qed (use assms(2) in simp)

lemma load_view_InlD: "ob_inv V st \<Longrightarrow> load_view (ob_view V st gid) = Inl e \<Longrightarrow> ob_view V st gid = None \<and> e = ErrGameNotFound"
proof (cases "ob_view V st gid")
  case (Some g)
  assume "ob_inv V st" and e: "load_view (ob_view V st gid) = Inl e"
  then have "loaded g \<noteq> Inl ErrStorage" "loaded g = Inl e" using View Some by auto
  then show ?thesis by (auto simp: loaded_def Let_def split: if_splits option.splits)
qed simp

text \<open>
  From a body that implements \<open>spec\<close> on the stored game to the operation.
\<close>

lemma locked_implements:
  assumes inv: "ob_inv V st" and free: "ob_lock V st gid = None"
    and run: "locked S gid body st = (st', r)"
    and body: "\<And>s g st1 st2. ob_view V st gid = Some g \<Longrightarrow> loaded g = Inr s \<Longrightarrow> s_ID (ag_State g) = gid \<Longrightarrow>
      int64_state (ag_State g) \<Longrightarrow> ob_inv V st1 \<Longrightarrow> unchanged V st st1 \<Longrightarrow> body s st1 = (st2, r) \<Longrightarrow>
      call_ok V st1 st2 r \<and> achieves V st st2 gid (spec g) due r"
  shows "implements V st st' gid (at_game spec (ob_view V st gid)) due r"
proof -
  define P where "P st2 = achieves V st st2 gid (at_game spec (ob_view V st gid)) due r" for st2
  have P_cong: "P st3" if "P st2" "unchanged V st2 st3" for st2 st3
    using that by (simp add: P_def achieves_def unchanged_def split: sum.splits)
  have body': "call_ok V st1 st2 r \<and> P st2"
    if asm: "load_view (ob_view V st gid) = Inr s" "ob_inv V st1" "unchanged V st st1" "body s st1 = (st2, r)" for s st1 st2
  proof -
    obtain g where g: "ob_view V st gid = Some g" "loaded g = Inr s" "s_ID (ag_State g) = gid"
        "int64_state (ag_State g)"
      by (rule load_view_InrD[OF inv asm(1)])
    show ?thesis
      using body[OF g asm(2,3,4)] by (simp add: P_def at_game_def g(1))
  qed
  note rl = locked_rule[where Q = "\<lambda>s st2 r. P st2", OF inv free run]
  have L: "ob_inv V st'" "ob_up V st \<Longrightarrow> ob_up V st' \<and> ob_lock V st' = ob_lock V st \<and> r \<noteq> Inl ErrStorage"
    using rl(1,2) body' by blast+
  have "r = Inl ErrStorage \<and> unchanged V st st'
       \<or> (\<exists>e. load_view (ob_view V st gid) = Inl e \<and> r = Inl e \<and> unchanged V st st')
       \<or> (\<exists>s st2. load_view (ob_view V st gid) = Inr s \<and> P st2 \<and> unchanged V st2 st')"
    using rl(3) body' by blast
  then have "P st'"
  proof (elim disjE exE conjE)
    assume "r = Inl ErrStorage" "unchanged V st st'"
    then show ?thesis by (auto simp: P_def achieves_def unchanged_def split: sum.splits)
  next
    fix e assume e: "load_view (ob_view V st gid) = Inl e" "r = Inl e" "unchanged V st st'"
    then have "ob_view V st gid = None" "e = ErrGameNotFound" using load_view_InlD[OF inv e(1)] by blast+
    with e show ?thesis by (simp add: P_def achieves_def at_game_def)
  next
    fix s st2 assume "P st2" "unchanged V st2 st'"
    then show ?thesis by (rule P_cong)
  qed
  then show ?thesis
    using L(1,2) by (simp add: implements_def P_def)
qed

lemma AddPlayer_implements:
  assumes inv: "ob_inv V st" and free: "ob_lock V st gid = None"
    and run: "AddPlayer S gid pid name actorID st = (st', effs, r)"
  shows "implements V st st' gid (at_game (add_spec gid pid name actorID) (ob_view V st gid)) (ob_due V st) r"
proof -
  obtain r0 where l: "locked S gid (AddPlayer_body S gid pid name actorID) st = (st', r0)"
    and r: "r = (case r0 of Inl e \<Rightarrow> Inl e | Inr _ \<Rightarrow> Inr ())"
    using run by (auto simp: AddPlayer_def split: prod.splits sum.splits)
  have "implements V st st' gid (at_game (add_spec gid pid name actorID) (ob_view V st gid)) (ob_due V st) r0"
  proof (rule locked_implements[OF inv free l])
    fix s g st1 st2
    assume g: "ob_view V st gid = Some g" "loaded g = Inr s" and inv1: "ob_inv V st1"
      and un1: "unchanged V st st1" and b: "AddPlayer_body S gid pid name actorID s st1 = (st2, r0)"
    obtain st3 u where ap: "ss_AddPlayer S gid (s_CreatedAt s)
        (new_player pid name (InitialLives (s_Config s)) gid actorID) st1 = (st3, u)" by fastforce
    have "write_ok V st1 st3 gid (put_players gid [new_player pid name (InitialLives (s_Config s)) gid actorID] g) u"
      using AddPlayer[OF inv1 _ ap] un1 g(1) by (simp add: unchanged_def)
    then show "call_ok V st1 st2 r0 \<and> achieves V st st2 gid (add_spec gid pid name actorID g) (ob_due V st) r0"
      using b ap un1 inv1 loaded_fields[OF g(2)]
      by (cases u) (auto simp: AddPlayer_body_def add_spec_def Let_def write_ok_def wrote_def unchanged_def
          call_ok_def achieves_def split: if_splits)
  qed
  then show ?thesis
    by (auto simp: r implements_def achieves_def split: sum.splits)
qed

end

text \<open>The clock reads a time within 142,000 years of 1970.\<close>

definition time_ok :: "time \<Rightarrow> bool" where
  "time_ok now \<longleftrightarrow> \<bar>UnixMilli now\<bar> \<le> 2 ^ 52"

lemma int64_next: "int64_state s \<Longrightarrow> start_error s = None \<Longrightarrow> int64 (s_CurrentQIdx s + 1)"
  by (auto simp: int64_state_def int64_def start_error_def split: if_splits)

lemma int64_started:
  assumes "int64_state s" and "start_error s = None" and "time_ok now"
  shows "int64_state (started now q s)"
  using assms int64_next[OF assms(1,2)]
  by (auto simp: int64_state_def int64_def started_def time_ok_def int64_min_def int64_max_def)

lemma duration_seconds_bounds: "- (2 ^ 63) \<le> duration_seconds t" "duration_seconds t < 2 ^ 63"
  unfolding duration_seconds_def
  using sint_ge[of "(word_of_int t :: 64 word) * 1000000000"] sint_lt[of "(word_of_int t :: 64 word) * 1000000000"]
  by simp_all

text \<open>\<open>time.Duration(t) * time.Second\<close> is exact up to 9223372036 seconds; the next values wrap to negative ones.\<close>

lemma duration_seconds_mod: "duration_seconds t = (t * 1000000000 + 2 ^ 63) mod 2 ^ 64 - 2 ^ 63"
proof -
  have "(word_of_int t :: 64 word) * 1000000000 = word_of_int (t * 1000000000)" by simp
  then show ?thesis unfolding duration_seconds_def by (simp only: int_word_sint) simp
qed

lemma duration_seconds_exact: "0 \<le> t \<Longrightarrow> t \<le> 9223372036 \<Longrightarrow> duration_seconds t = t * 1000000000"
  unfolding duration_seconds_mod by simp

lemma duration_seconds_wraps:
  assumes "9223372036 < t" and "t \<le> 18446744073"
  shows "duration_seconds t = t * 1000000000 - 2 ^ 64"
proof -
  have "(t * 1000000000 + 2 ^ 63) mod 2 ^ 64 = ((t * 1000000000 + 2 ^ 63) - 2 ^ 64) mod 2 ^ 64"
    by (rule minus_mod_self2[symmetric])
  also have "\<dots> = (t * 1000000000 + 2 ^ 63) - 2 ^ 64" using assms by (intro mod_pos_pos_trivial) simp_all
  finally show ?thesis unfolding duration_seconds_mod by simp
qed

lemma exact_deadline: "time_ok now \<Longrightarrow> exact_time (now + duration_seconds t)"
proof -
  have p: "(2::int) ^ 52 = 4503599627370496" "(2::int) ^ 53 = 9007199254740992" "(2::int) ^ 63 = 9223372036854775808"
    by simp_all
  have dm: "(a::int) = 1000000 * (a div 1000000) + a mod 1000000" "0 \<le> a mod 1000000" "a mod 1000000 < 1000000" for a
    by simp_all
  assume "time_ok now"
  then show ?thesis
    using duration_seconds_bounds[of t] dm[of now] dm[of "now + duration_seconds t"]
    unfolding time_ok_def exact_time_def UnixMilli_def p by linarith
qed

lemma int64_loaded: "loaded g = Inr s \<Longrightarrow> int64_state s = int64_state (ag_State g)"
  by (simp add: int64_state_def loaded_fields)

lemma saved_no_players [simp]: "saved tm s [] g = put_progress tm s g"
  by (simp add: saved_def put_players_def put_progress_def)

lemma put_progress_started:
  "loaded g = Inr s \<Longrightarrow> put_progress tm (started now q s) g = put_progress tm (started now q (ag_State g)) g"
  by (simp add: put_progress_def started_def loaded_fields)

lemma int64_cong:
  assumes "s_CurrentQIdx s = s_CurrentQIdx t" "s_TotalQuestions s = s_TotalQuestions t" "s_Config s = s_Config t"
    "s_CreatedAt s = s_CreatedAt t" "s_QuestionStart s = s_QuestionStart t"
  shows "int64_state s = int64_state t"
  using assms by (simp add: int64_state_def)

context state_store
begin

lemma StartNextQuestion_implements:
  assumes inv: "ob_inv V st" and free: "ob_lock V st gid = None" and now: "time_ok now"
    and run: "StartNextQuestion S gid now st = (st', effs, r)"
  shows "implements V st st' gid (at_game (start_spec (ob_time V) now) (ob_view V st gid))
    (started_due gid now (the (ob_view V st gid)) (ob_due V st)) r"
proof -
  let ?due = "started_due gid now (the (ob_view V st gid)) (ob_due V st)"
  obtain r0 where l: "locked S gid (StartNextQuestion_body S gid now) st = (st', r0)"
    and r: "r = (case r0 of Inl e \<Rightarrow> Inl e | Inr _ \<Rightarrow> Inr ())"
    using run by (auto simp: StartNextQuestion_def split: prod.splits sum.splits)
  have "implements V st st' gid (at_game (start_spec (ob_time V) now) (ob_view V st gid)) ?due r0"
  proof (rule locked_implements[OF inv free l])
    fix s g st1 st2
    assume g: "ob_view V st gid = Some g" "loaded g = Inr s" "s_ID (ag_State g) = gid"
        "int64_state (ag_State g)" and inv1: "ob_inv V st1"
      and un1: "unchanged V st st1" and b: "StartNextQuestion_body S gid now s st1 = (st2, r0)"
    have v1: "ob_view V st1 = ob_view V st" and d1: "ob_due V st1 = ob_due V st" using un1 by (simp_all add: unchanged_def)
    let ?goal = "call_ok V st1 st2 r0 \<and> achieves V st st2 gid (start_spec (ob_time V) now g) ?due r0"
    note se = start_error_loaded[OF g(2)] and lf = loaded_fields[OF g(2)]
    show ?goal
    proof (cases "start_error (ag_State g)")
      case (Some e)
      then have ne: "e \<noteq> ErrStorage" by (auto simp: start_error_def split: if_splits)
      have "st2 = st1" "r0 = Inl e" using b Some se by (simp_all add: StartNextQuestion_body_def)
      then show ?thesis
        using Some un1 inv1 ne by (simp add: start_spec_def Let_def call_ok_def achieves_def)
    next
      case None
      let ?next = "s_CurrentQIdx s + 1"
      obtain stq rq where q: "ss_Question S gid ?next st1 = (stq, rq)" by fastforce
      have Q: "call_ok V st1 stq rq" "ob_view V stq = ob_view V st \<and> ob_due V stq = ob_due V st"
        "rq = Inl ErrStorage \<or> rq = (case ag_Question g ?next of None \<Rightarrow> Inl ErrGameNotFound | Some q \<Rightarrow> Inr q)"
        using Question[OF inv1 q] v1 d1 g(1) by (auto simp: unchanged_def)
      show ?thesis
      proof (cases rq)
        case (Inl e)
        then show ?thesis
          using Q b None se lf q
          by (auto simp: StartNextQuestion_body_def start_spec_def Let_def call_ok_def go_result achieves_def
              unchanged_def split: option.splits)
      next
        case (Inr qu)
        then have qu: "ag_Question g ?next = Some qu" using Q(3) by (auto split: option.splits)
        let ?s1 = "started now qu s"
        let ?t = "AnswerTimeoutSeconds (s_Config s)"
        obtain stc rc where c: "(if ?t > 0 then ss_ScheduleClose S gid ?next (now + duration_seconds ?t) stq
            else (stq, Inr ())) = (stc, rc)" by fastforce
        have due: "?due = (if ?t > 0 then (ob_due V st)((gid, ?next) \<mapsto> UnixMilli (now + duration_seconds ?t)) else ob_due V st)"
          using g(1) lf by (simp add: started_due_def Let_def)
        have C: "call_ok V stq stc rc" "ob_view V stc = ob_view V st"
          "rc = Inr () \<and> ob_due V stc = ?due \<or> rc = Inl ErrStorage \<and> ob_due V stc \<in> {ob_due V st, ?due}"
          unfolding due
          using c ScheduleClose[of stq ?next "now + duration_seconds ?t" gid stc rc] Q(1,2) exact_deadline[OF now]
            int64_next[of s] int64_loaded[OF g(2)] g(4) None se
          by (auto simp: call_ok_def split: if_splits)
        have body: "StartNextQuestion_body S gid now s st1 = and_then (stc, rc) (\<lambda>st2 _.
            and_then (ss_Save S ?s1 [] st2) (\<lambda>st3 _.
              (st3, case questionPayload ?s1 of None \<Rightarrow> Inl NilPanic | Some p \<Rightarrow> Inr p)))"
          using None se q Inr by (subst c[symmetric]) (simp add: StartNextQuestion_body_def Let_def go_result started_def)
        have spec: "start_spec (ob_time V) now g = Inr (put_progress (ob_time V) ?s1 g)"
          using None qu lf put_progress_started[OF g(2)] by (simp add: start_spec_def Let_def)
        have call1: "call_ok V st1 stc rc" using call_ok_trans[OF Q(1) C(1)] .
        show ?thesis
        proof (cases rc)
          case (Inl e)
          then show ?thesis using body b C spec call1 by (auto simp: go_result call_ok_def achieves_def)
        next
          case (Inr u)
          obtain std rd where d: "ss_Save S ?s1 [] stc = (std, rd)" by fastforce
          have sav: "savable g ?s1"
            using int64_started[of s now qu] None se int64_loaded[OF g(2)] g(4) now qu
            by (simp add: savable_def) (simp add: started_def)
          have id: "s_ID ?s1 = gid" using lf g(3) by (simp add: started_def)
          have W: "write_ok V stc std gid (put_progress (ob_time V) ?s1 g) rd"
            using Save[of stc ?s1 g "[]" std rd] C(1,2) g(1) sav d id by (simp add: call_ok_def)
          have call2: "call_ok V st1 std rd" using call_ok_trans[OF call1] W by (auto simp: write_ok_def)
          obtain p where p: "questionPayload ?s1 = Some p" by (simp add: questionPayload_def started_def)
          have dc: "ob_due V stc = ?due" using C(3) Inr by auto
          show ?thesis
            using body b Inr d p W spec call2 C(2) dc
            by (cases rd) (auto simp: go_result write_ok_def wrote_def unchanged_def call_ok_def achieves_def)
        qed
      qed
    qed
  qed
  then show ?thesis
    by (auto simp: r implements_def achieves_def split: sum.splits)
qed

lemma submit_check_NotStorage: "submit_check s p q x \<noteq> Some ErrStorage"
  by (auto simp: submit_check_def split: option.splits bool.splits)

lemma SubmitAnswer_implements:
  assumes inv: "ob_inv V st" and run: "SubmitAnswer S gid pid qid oid st = (st', effs, r)"
  shows "implements V st st' gid (at_game (submit_spec pid qid oid) (ob_view V st gid)) (ob_due V st) r"
proof -
  obtain st1 a where load: "ss_Load S gid st = (st1, a)" by fastforce
  have L: "call_ok V st st1 a" "ob_view V st1 = ob_view V st \<and> ob_due V st1 = ob_due V st"
    "a = Inl ErrStorage \<or> a = load_view (ob_view V st gid)"
    using Load[OF inv load] by (auto simp: unchanged_def)
  show ?thesis
  proof (cases a)
    case (Inl e)
    then have e: "e = ErrStorage \<or> ob_view V st gid = None \<and> e = ErrGameNotFound"
      using L(3) Inl load_view_InlD[OF inv, of gid e] by auto
    have res: "st' = st1 \<and> r = Inl e" using run load Inl by (auto simp: SubmitAnswer_def go_result)
    then show ?thesis
      using e L(1,2) Inl
      by (auto simp: implements_def achieves_def unchanged_def at_game_def call_ok_def split: sum.splits option.splits)
  next
    case (Inr s)
    then have ls: "load_view (ob_view V st gid) = Inr s" using L(3) by simp
    obtain g where g: "ob_view V st gid = Some g" "loaded g = Inr s" by (rule load_view_InrD[OF inv ls])
    show ?thesis
    proof (cases "submit_check s pid qid oid")
      case (Some e)
      then have "st' = st1 \<and> r = Inl e" using run load Inr by (auto simp: SubmitAnswer_def go_result)
      then show ?thesis
        using Some g L(1,2) submit_check_NotStorage[of s pid qid oid]
        by (auto simp: implements_def achieves_def unchanged_def at_game_def submit_spec_def call_ok_def)
    next
      case None
      obtain st2 u where rec: "ss_RecordAnswer S gid (s_CurrentQIdx s) pid oid st1 = (st2, u)" by fastforce
      have res: "st' = st2 \<and> r = (case u of Inl e \<Rightarrow> Inl e | Inr _ \<Rightarrow> Inr ())"
        using run load Inr None rec by (auto simp: SubmitAnswer_def go_result split: sum.splits)
      have inv1: "ob_inv V st1" using L(1) by (simp add: call_ok_def)
      have R: "case record_spec (s_CurrentQIdx s) pid oid g of
           Inl e \<Rightarrow> call_ok V st1 st2 u \<and> unchanged V st1 st2 \<and> u \<in> {Inl e, Inl ErrStorage}
         | Inr g' \<Rightarrow> write_ok V st1 st2 gid g' u"
        using RecordAnswer[OF inv1 rec] L(2) g(1) by simp
      have sp: "at_game (submit_spec pid qid oid) (ob_view V st gid) = record_spec (s_CurrentQIdx s) pid oid g"
        using g None by (simp add: at_game_def submit_spec_def)
      show ?thesis
        using R L(1,2) res unfolding sp
        by (auto simp: implements_def achieves_def call_ok_def write_ok_def wrote_def unchanged_def split: sum.splits)
    qed
  qed
qed

end

section \<open>Closing a question\<close>

lemma half_closed_saved [simp]: "saved tm s ps (half_closed g) = saved tm s ps g"
  by (simp add: saved_def put_players_def put_progress_def half_closed_def)

lemma applyPenalties_keeps:
  assumes "applyPenalties s = Some (s', r, la)" and "s_Current s = Some q"
  shows "s_ID s' = s_ID s" "s_CurrentQIdx s' = s_CurrentQIdx s" "s_Current s' = Some q"
    "int64_state s' = int64_state s" "s_QuestionOpen s' = s_QuestionOpen s"
    "s_QuestionStart s' = s_QuestionStart s" "s_Config s' = s_Config s"
    "s_TotalQuestions s' = s_TotalQuestions s"
  using applyPenalties_SomeD(1)[OF assms] assms(2) by (simp_all add: int64_state_def)

text \<open>
  The outcome of a close: nothing when the guards refuse it; otherwise the specified game, its
  events and a cancelled deadline, or a storage error at one of the three points it can reach.
\<close>

definition closes :: "'st observer \<Rightarrow> 'st \<Rightarrow> 'st \<Rightarrow> string \<Rightarrow> int \<Rightarrow> game_error + close_result \<Rightarrow> bool" where
  "closes V st st' gid onlyIdx r = (case ob_view V st gid of
     None \<Rightarrow> unchanged V st st' \<and> r \<in> {Inl ErrGameNotFound, Inl ErrStorage}
   | Some g \<Rightarrow> (case loaded g of
       Inl e \<Rightarrow> False
     | Inr s \<Rightarrow> (case close_error onlyIdx s of
         Some e \<Rightarrow> unchanged V st st' \<and> r \<in> {Inl e, Inl ErrStorage}
       | None \<Rightarrow> (case close_game (ob_time V) s g of
           None \<Rightarrow> False
         | Some (g', cr) \<Rightarrow>
             r = Inr cr \<and> ob_view V st' = (ob_view V st)(gid \<mapsto> g') \<and>
               ob_due V st' \<in> {ob_due V st, (ob_due V st)((gid, s_CurrentQIdx s) := None)} \<and>
               (ob_up V st \<longrightarrow> ob_due V st' = (ob_due V st)((gid, s_CurrentQIdx s) := None)) \<or>
             r = Inl ErrStorage \<and> ob_due V st' = ob_due V st \<and>
               ob_view V st' \<in> {ob_view V st, (ob_view V st)(gid \<mapsto> half_closed g), (ob_view V st)(gid \<mapsto> g')}))))"

context state_store
begin

lemma closeQuestion_body_closes:
  assumes v1: "ob_view V st1 gid = Some g" and ld: "loaded g = Inr s" and id: "s_ID (ag_State g) = gid"
    and i64: "int64_state (ag_State g)" and inv1: "ob_inv V st1"
    and opened: "s_QuestionOpen (ag_State g) \<Longrightarrow> 0 \<le> s_CurrentQIdx (ag_State g)"
    and b: "closeQuestion_body S gid onlyIdx s st1 = (st', r)"
  shows "call_ok V st1 st' r \<and> closes V st1 st' gid onlyIdx r"
proof (cases "close_error onlyIdx s")
  case (Some e)
  then have "e \<noteq> ErrStorage" by (auto simp: close_error_def split: if_splits)
  moreover have "st' = st1 \<and> r = Inl e"
    using Some b by (auto simp: closeQuestion_body_def close_error_def split: if_splits)
  ultimately show ?thesis
    using v1 ld Some inv1 by (simp add: closes_def call_ok_def unchanged_def)
next
  case None
  note lf = loaded_fields[OF ld]
  let ?idx = "s_CurrentQIdx s"
  have op: "s_QuestionOpen s" using None by (auto simp: close_error_def split: if_splits)
  then have idx: "0 \<le> ?idx" using opened lf by simp
  have cu: "s_Current s = ag_Question g ?idx" "s_Current s \<noteq> None" and an: "s_Answers s = ag_Answers g ?idx"
    using loaded_InrD(2)[OF ld idx] by blast+
  then obtain q where q: "s_Current s = Some q" "ag_Question g ?idx = Some q" by fastforce
  have cs: "close_spec ?idx g = Inr (half_closed g, s_Answers s)"
    using op lf an by (simp add: close_spec_def half_closed_def Let_def)
  obtain s2 result la where ap: "applyPenalties (closing s) = Some (s2, result, la)"
    using applyPenalties_Some[of "closing s" q] q(1) by (auto simp: closing_def)
  have cq: "s_Current (closing s) = Some q" using q(1) by (simp add: closing_def)
  note keep = applyPenalties_keeps[OF ap cq]
  let ?ps = "map (the_player s2) (cr_LifeLost result)"
  let ?g' = "saved (ob_time V) s2 ?ps g"
  let ?cr = "(result, q_ID q, q_CorrectOptionID q, la)"
  have cg: "close_game (ob_time V) s g = Some (?g', ?cr)"
    using ap q by (simp add: close_game_def)
  have clo: "closes V st1 st' gid onlyIdx r \<longleftrightarrow>
      r = Inr ?cr \<and> ob_view V st' = (ob_view V st1)(gid \<mapsto> ?g') \<and>
               ob_due V st' \<in> {ob_due V st1, (ob_due V st1)((gid, ?idx) := None)} \<and>
               (ob_up V st1 \<longrightarrow> ob_due V st' = (ob_due V st1)((gid, ?idx) := None)) \<or>
             r = Inl ErrStorage \<and> ob_due V st' = ob_due V st1 \<and>
               ob_view V st' \<in> {ob_view V st1, (ob_view V st1)(gid \<mapsto> half_closed g), (ob_view V st1)(gid \<mapsto> ?g')}"
    using v1 ld None cg by (simp add: closes_def)
  obtain sta ra where ca: "ss_CloseAnswers S gid ?idx st1 = (sta, ra)" by fastforce
  have CA: "call_ok V st1 sta ra"
    "ra = Inr (s_Answers s) \<and> wrote V st1 sta gid (half_closed g) \<or>
     ra = Inl ErrStorage \<and> (unchanged V st1 sta \<or> wrote V st1 sta gid (half_closed g))"
    using CloseAnswers[OF inv1 ca] v1 cs by auto
  have nf: "s_Status s = GameStatusRunning" "s_QuestionOpen s" "\<not> (0 \<le> onlyIdx \<and> ?idx \<noteq> onlyIdx)"
    using None by (auto simp: close_error_def split: if_splits)
  have body: "closeQuestion_body S gid onlyIdx s st1 = and_then (sta, ra) (\<lambda>st1 answers.
        (case applyPenalties (s\<lparr>s_QuestionOpen := False, s_Answers := answers\<rparr>) of
              None \<Rightarrow> (st1, Inl NilPanic)
            | Some (s2, result, livesAfter) \<Rightarrow>
                and_then (ss_Save S s2 (map (the_player s2) (cr_LifeLost result)) st1) (\<lambda>st2 _.
                  (let (st3, cancelled) = ss_CancelClose S gid (s_CurrentQIdx s2) st2
                   in (st3, case s_Current s2 of
                              None \<Rightarrow> Inl NilPanic
                            | Some q \<Rightarrow> Inr (result, q_ID q, q_CorrectOptionID q, livesAfter))))))"
    unfolding closeQuestion_body_def Let_def ca using nf by (simp only: if_False if_True simp_thms)
  show ?thesis
  proof (cases ra)
    case (Inl e)
    then have "st' = sta" "r = Inl e" using b body by simp_all
    then show ?thesis
      using CA Inl unfolding clo by (auto simp: call_ok_def unchanged_def wrote_def)
  next
    case (Inr a)
    then have a: "a = s_Answers s" and wa: "wrote V st1 sta gid (half_closed g)" using CA(2) by auto
    have cl: "s\<lparr>s_QuestionOpen := False, s_Answers := a\<rparr> = closing s" by (simp add: closing_def a)
    obtain stb rb where sv: "ss_Save S s2 ?ps sta = (stb, rb)" by fastforce
    have va: "ob_view V sta (s_ID s2) = Some (half_closed g)"
      using wa keep lf id by (simp add: wrote_def closing_def)
    have sav: "savable (half_closed g) s2"
      using keep q(2) int64_loaded[OF ld] i64
      by (simp add: savable_def half_closed_def closing_def) (simp add: int64_state_def)
    have inva: "ob_inv V sta" using CA(1) by (simp add: call_ok_def)
    have sid: "s_ID s2 = gid" using keep lf id by (simp add: closing_def)
    have W: "write_ok V sta stb gid ?g' rb"
      using Save[OF inva va sav sv] by (simp add: sid)
    obtain stc rc where cc: "ss_CancelClose S gid (s_CurrentQIdx s2) stb = (stc, rc)" by fastforce
    have invb: "ob_inv V stb" using W by (simp add: write_ok_def call_ok_def)
    note CC = CancelClose[OF invb cc]
    have run: "(st', r) = (case rb of Inl e \<Rightarrow> (stb, Inl e) | Inr _ \<Rightarrow> (stc, Inr ?cr))"
      using b unfolding body Inr
      by (cases rb) (simp_all add: cl ap sv cc keep(3))
    show ?thesis
    proof (cases rb)
      case (Inl e)
      then have "st' = stb" "r = Inl e" using run by simp_all
      then show ?thesis
        using CA(1) wa W Inl Inr unfolding clo by (auto simp: call_ok_def unchanged_def wrote_def write_ok_def)
    next
      case (Inr u)
      then have st': "st' = stc" "r = Inr ?cr" using run by simp_all
      have wb: "wrote V sta stb gid ?g'" using W Inr by (simp add: write_ok_def)
      have k: "s_CurrentQIdx s2 = ?idx" using keep by (simp add: closing_def)
      have "call_ok V st1 stc r"
        using CA(1) W CC st' by (auto simp: call_ok_def write_ok_def \<open>ra = Inr a\<close> Inr)
      moreover have "closes V st1 stc gid onlyIdx r"
        using CC wa wb st' k CA(1) W
        unfolding clo[unfolded st'(1)] wrote_def write_ok_def call_ok_def \<open>ra = Inr a\<close> Inr
        by auto
      ultimately show ?thesis by (simp add: st')
    qed
  qed
qed

end

lemma closes_cong:
  assumes "closes V st1 st2 gid i r" and "unchanged V st st1" and "unchanged V st2 st'"
    and "ob_up V st \<Longrightarrow> ob_up V st1"
  shows "closes V st st' gid i r"
  using assms by (fastforce simp: closes_def unchanged_def split: option.splits sum.splits prod.splits)

context state_store
begin

text \<open>An attempt that fails in the storage and leaves the games as they were is one of the outcomes.\<close>

lemma unchanged_closes:
  assumes inv: "ob_inv V st"
    and opened: "\<And>g. ob_view V st gid = Some g \<Longrightarrow> s_QuestionOpen (ag_State g) \<Longrightarrow> 0 \<le> s_CurrentQIdx (ag_State g)"
    and un: "unchanged V st st'"
  shows "closes V st st' gid onlyIdx (Inl ErrStorage)"
proof (cases "ob_view V st gid")
  case (Some g)
  have "loaded g \<noteq> Inl ErrStorage" using View[OF inv Some] by blast
  then obtain s where s: "loaded g = Inr s"
    by (auto simp: loaded_def Let_def split: if_splits option.splits)
  show ?thesis
  proof (cases "close_error onlyIdx s")
    case None
    then have "0 \<le> s_CurrentQIdx s"
      using opened[OF Some] loaded_fields[OF s] by (auto simp: close_error_def split: if_splits)
    then obtain q where q: "s_Current s = Some q" using loaded_InrD(2)[OF s] by blast
    then obtain s2 result la where "applyPenalties (closing s) = Some (s2, result, la)"
      using applyPenalties_Some[of "closing s" q] by (auto simp: closing_def)
    then show ?thesis
      using Some s None un q by (simp add: closes_def close_game_def unchanged_def)
  qed (use Some s un in \<open>simp add: closes_def\<close>)
qed (use un in \<open>simp add: closes_def\<close>)

lemma closeQuestion_closes:
  assumes inv: "ob_inv V st" and free: "ob_lock V st gid = None"
    and opened: "\<And>g. ob_view V st gid = Some g \<Longrightarrow> s_QuestionOpen (ag_State g) \<Longrightarrow> 0 \<le> s_CurrentQIdx (ag_State g)"
    and run: "closeQuestion S gid onlyIdx st = (st', effs, r)"
  obtains cr where "ob_inv V st'"
    and "ob_up V st \<longrightarrow> ob_up V st' \<and> ob_lock V st' = ob_lock V st \<and> r \<noteq> Inl ErrStorage"
    and "closes V st st' gid onlyIdx cr"
    and "r = map_sum id fst cr"
    and "effs = (case cr of Inl e \<Rightarrow> [] | Inr c \<Rightarrow> close_events c @ [QuestionClosedHook gid (fst c)])"
proof -
  obtain cr where l: "locked S gid (closeQuestion_body S gid onlyIdx) st = (st', cr)"
    and r: "r = map_sum id fst cr"
    and e: "effs = (case cr of Inl e \<Rightarrow> [] | Inr c \<Rightarrow> close_events c @ [QuestionClosedHook gid (fst c)])"
    using run by (auto simp: closeQuestion_def split: prod.splits sum.splits)
  have body: "call_ok V st1 st2 cr \<and> (unchanged V st st1 \<and> closes V st1 st2 gid onlyIdx cr)"
    if asm: "load_view (ob_view V st gid) = Inr s" "ob_inv V st1" "unchanged V st st1"
      "closeQuestion_body S gid onlyIdx s st1 = (st2, cr)" for s st1 st2
  proof -
    obtain g where g: "ob_view V st gid = Some g" "loaded g = Inr s" "s_ID (ag_State g) = gid"
        "int64_state (ag_State g)"
      by (rule load_view_InrD[OF inv asm(1)])
    have "ob_view V st1 gid = Some g" using asm(3) g(1) by (simp add: unchanged_def)
    from closeQuestion_body_closes[OF this g(2,3,4) asm(2) opened[OF g(1)] asm(4)] asm(3)
    show ?thesis by blast
  qed
  define Q where "Q = (\<lambda>(s::State) st2 (c :: game_error + close_result).
    \<forall>st'. unchanged V st2 st' \<longrightarrow> closes V st st' gid onlyIdx c)"
  have body2: "call_ok V st1 st2 cr \<and> Q s st2 cr"
    if asm: "load_view (ob_view V st gid) = Inr s" "ob_inv V st1" "unchanged V st st1"
      "ob_up V st \<longrightarrow> ob_up V st1" "closeQuestion_body S gid onlyIdx s st1 = (st2, cr)" for s st1 st2
    using body[OF asm(1,2,3,5)] closes_cong[of V st1 st2 gid onlyIdx cr st] asm(4) unfolding Q_def by blast
  note rl = locked_rule[where Q = Q, OF inv free l]
  have inv': "ob_inv V st'" using rl(1) body2 by blast
  have up': "ob_up V st \<Longrightarrow> ob_up V st' \<and> ob_lock V st' = ob_lock V st \<and> cr \<noteq> Inl ErrStorage"
    using rl(2) body2 by blast
  then have up: "ob_up V st \<longrightarrow> ob_up V st' \<and> ob_lock V st' = ob_lock V st \<and> r \<noteq> Inl ErrStorage"
    by (cases cr) (auto simp: r)
  have "cr = Inl ErrStorage \<and> unchanged V st st'
       \<or> (\<exists>e. load_view (ob_view V st gid) = Inl e \<and> cr = Inl e \<and> unchanged V st st')
       \<or> (\<exists>s st2. load_view (ob_view V st gid) = Inr s \<and> Q s st2 cr \<and> unchanged V st2 st')"
    using rl(3) body2 by blast
  then have "closes V st st' gid onlyIdx cr"
  proof (elim disjE exE conjE)
    assume "cr = Inl ErrStorage" "unchanged V st st'"
    then show ?thesis
      using unchanged_closes[OF inv opened] by blast
  next
    fix e assume e: "load_view (ob_view V st gid) = Inl e" "cr = Inl e" "unchanged V st st'"
    then have "ob_view V st gid = None" "e = ErrGameNotFound" using load_view_InlD[OF inv e(1)] by blast+
    with e show ?thesis by (simp add: closes_def)
  next
    fix s st2 assume "Q s st2 cr" "unchanged V st2 st'"
    then show ?thesis by (simp add: Q_def)
  qed
  from inv' up this r e show ?thesis by (rule that)
qed

end

section \<open>Events\<close>

context state_store
begin

lemma locked_result:
  assumes inv: "ob_inv V st" and free: "ob_lock V st gid = None" and run: "locked S gid body st = (st', Inr x)"
  obtains g s st1 st2 where "ob_view V st gid = Some g" "loaded g = Inr s" "body s st1 = (st2, Inr x)"
    "ob_inv V st1" "ob_view V st1 = ob_view V st"
proof -
  obtain st1 l where lock: "ss_Lock S gid st = (st1, l)" by (cases "ss_Lock S gid st")
  then obtain unlock where l: "l = Inr unlock" using run by (cases l) (auto simp: locked_def)
  have inv1: "ob_inv V st1" and v1: "ob_view V st1 = ob_view V st"
    using Lock[OF inv free lock] by (auto simp: unchanged_def)
  obtain st2 a where load: "ss_Load S gid st1 = (st2, a)" by (cases "ss_Load S gid st1")
  obtain st3 where b: "and_then (st2, a) (\<lambda>st2 s. body s st2) = (st3, Inr x)"
    using run lock l load by (auto simp: locked_def split: prod.splits)
  then obtain s where s: "a = Inr s" "body s st2 = (st3, Inr x)" by (cases a) auto
  have v2: "ob_inv V st2" "ob_view V st2 = ob_view V st"
    using Load[OF inv1 load] v1 by (simp_all add: call_ok_def unchanged_def)
  have "load_view (ob_view V st gid) = Inr s" using Load[OF inv1 load] v1 s(1) by auto
  then obtain g where "ob_view V st gid = Some g" "loaded g = Inr s" by (rule load_view_InrD[OF inv])
  then show ?thesis using s(2) v2 by (rule that)
qed

lemma AddPlayer_events:
  assumes inv: "ob_inv V st" and free: "ob_lock V st gid = None"
    and run: "AddPlayer S gid pid name actorID st = (st', effs, r)"
  shows "effs = (if r = Inr () then [Broadcast (EventPlayerJoined pid name
      (InitialLives (s_Config (ag_State (the (ob_view V st gid))))))] else [])"
proof (cases r)
  case (Inl e)
  then show ?thesis using run by (auto simp: AddPlayer_def split: prod.splits sum.splits)
next
  case (Inr u)
  then obtain lives where l: "locked S gid (AddPlayer_body S gid pid name actorID) st = (st', Inr lives)"
    and e: "effs = [Broadcast (EventPlayerJoined pid name lives)]"
    using run by (auto simp: AddPlayer_def split: prod.splits sum.splits)
  obtain g s st1 st2 where g: "ob_view V st gid = Some g" "loaded g = Inr s"
    and b: "AddPlayer_body S gid pid name actorID s st1 = (st2, Inr lives)"
    by (rule locked_result[OF inv free l])
  have "lives = InitialLives (s_Config s)"
    using b by (auto simp: AddPlayer_body_def Let_def split: if_splits elim!: and_then_InrE)
  then show ?thesis using e Inr g loaded_fields[OF g(2)] by simp
qed

lemma StartNextQuestion_events:
  assumes inv: "ob_inv V st" and free: "ob_lock V st gid = None"
    and run: "StartNextQuestion S gid now st = (st', effs, r)"
  shows "r = Inr () \<Longrightarrow> \<exists>g q p. ob_view V st gid = Some g \<and> ag_Question g (s_CurrentQIdx (ag_State g) + 1) = Some q \<and>
      questionPayload (started now q (ag_State g)) = Some p \<and> effs = [Broadcast (EventQuestionStarted p)]"
    and "r \<noteq> Inr () \<Longrightarrow> effs = []"
proof -
  show "r \<noteq> Inr () \<Longrightarrow> effs = []"
    using run by (auto simp: StartNextQuestion_def split: prod.splits sum.splits)
  assume "r = Inr ()"
  then obtain p where l: "locked S gid (StartNextQuestion_body S gid now) st = (st', Inr p)"
    and e: "effs = [Broadcast (EventQuestionStarted p)]"
    using run by (auto simp: StartNextQuestion_def split: prod.splits sum.splits)
  obtain g s st1 st2 where g: "ob_view V st gid = Some g" "loaded g = Inr s"
    and b: "StartNextQuestion_body S gid now s st1 = (st2, Inr p)" and v1: "ob_inv V st1" "ob_view V st1 = ob_view V st"
    by (rule locked_result[OF inv free l])
  note lf = loaded_fields[OF g(2)]
  obtain stq q where Q: "ss_Question S gid (s_CurrentQIdx s + 1) st1 = (stq, Inr q)"
    and p: "questionPayload (started now q s) = Some p"
    using b by (auto simp: StartNextQuestion_body_def Let_def split: option.splits elim!: and_then_InrE)
  have "ag_Question g (s_CurrentQIdx s + 1) = Some q"
    using Question[OF v1(1) Q] v1(2) g(1) by (auto split: option.splits)
  moreover have "questionPayload (started now q s) = questionPayload (started now q (ag_State g))"
    using lf by (simp add: questionPayload_def started_def Let_def)
  ultimately show "\<exists>g q p. ob_view V st gid = Some g \<and> ag_Question g (s_CurrentQIdx (ag_State g) + 1) = Some q \<and>
      questionPayload (started now q (ag_State g)) = Some p \<and> effs = [Broadcast (EventQuestionStarted p)]"
    using g(1) e p lf by auto
qed

end

end
