(* ===== verification/Game_Lifecycle.thy ===== *)
theory Game_Lifecycle
  imports Engine_Spec
begin

text \<open>
  The life of one game. \<open>game_step\<close> is the relation of the atomic changes that the engine's
  operations make to a stored game (\<open>Engine_Spec\<close> proves that these are the only ones): a player
  joins, a question starts, an answer is recorded, a question is closed, or a close stops after
  the question was closed and before the penalties were saved (a storage failure between
  \<open>CloseAnswers\<close> and \<open>Save\<close>). The lemmas are the invariants of every reachable game and what
  never changes back.
\<close>

section \<open>Steps\<close>

datatype label = Join string | Start | Answer string string | Close | HalfClose

inductive game_step :: "(time \<Rightarrow> time) \<Rightarrow> agame \<Rightarrow> label \<Rightarrow> agame \<Rightarrow> bool" for tm :: "time \<Rightarrow> time" where
  step_join: "add_spec (s_ID (ag_State g)) pid name actorID g = Inr g' \<Longrightarrow> pid \<noteq> '''' \<Longrightarrow> game_step tm g (Join pid) g'"
| step_start: "start_spec tm now g = Inr g' \<Longrightarrow> game_step tm g Start g'"
| step_answer: "submit_spec pid qid oid g = Inr g' \<Longrightarrow> game_step tm g (Answer pid oid) g'"
| step_close: "loaded g = Inr s \<Longrightarrow> close_error i s = None \<Longrightarrow> close_game tm s g = Some (g', cr) \<Longrightarrow> game_step tm g Close g'"
| step_half: "loaded g = Inr s \<Longrightarrow> close_error i s = None \<Longrightarrow> game_step tm g HalfClose (half_closed g)"

inductive_cases game_stepE: "game_step tm g l g'"
inductive_simps step_start_iff: "game_step tm g Start g'"
inductive_simps step_close_iff: "game_step tm g Close g'"

inductive game_run :: "(time \<Rightarrow> time) \<Rightarrow> agame \<Rightarrow> label list \<Rightarrow> agame \<Rightarrow> bool" for tm :: "time \<Rightarrow> time" where
  run_nil: "game_run tm g [] g"
| run_snoc: "game_run tm g ls g1 \<Longrightarrow> game_step tm g1 l g2 \<Longrightarrow> game_run tm g (ls @ [l]) g2"

text \<open>A game as \<open>Manager.Create\<close> stores it: the questions of the list, no player.\<close>

definition initial_state :: "string \<Rightarrow> string \<Rightarrow> string \<Rightarrow> time \<Rightarrow> nat \<Rightarrow> EngineConfig \<Rightarrow> State" where
  "initial_state gid ownerID listID now n cfg =
     \<lparr>s_ID = gid, s_Status = GameStatusWaiting, s_OwnerID = ownerID, s_QuestionListID = listID,
      s_CreatedAt = now, s_Config = cfg, s_TotalQuestions = int n, s_CurrentQIdx = -1,
      s_QuestionOpen = False, s_QuestionStart = zero_time, s_EndReason = '''', s_Players = fmempty,
      s_Current = None, s_Answers = fmempty\<rparr>"

definition wf_game :: "agame \<Rightarrow> bool" where
  "wf_game g \<longleftrightarrow> (let s = ag_State g in wf_State s \<and>
     (\<forall>i. ag_Question g i \<noteq> None \<longleftrightarrow> 0 \<le> i \<and> i < s_TotalQuestions s) \<and>
     (\<forall>i. ag_Answers g i \<noteq> fmempty \<longrightarrow> 0 \<le> i \<and> i \<le> s_CurrentQIdx s))"

section \<open>What each step does\<close>

lemma join_effect:
  assumes "add_spec gid pid name actorID g = Inr g'"
  shows "s_Status (ag_State g) = GameStatusWaiting" "pid |\<notin>| fmdom (s_Players (ag_State g))"
    "g' = g\<lparr>ag_State := (ag_State g)\<lparr>s_Players := fmupd pid
       (new_player pid name (InitialLives (s_Config (ag_State g))) gid actorID) (s_Players (ag_State g))\<rparr>\<rparr>"
  using assms by (auto simp: add_spec_def Let_def put_players_def new_player_def split: if_splits)

lemma start_effect:
  assumes "start_spec tm now g = Inr g'"
  shows "s_Status (ag_State g) \<noteq> GameStatusFinished" "\<not> s_QuestionOpen (ag_State g)"
    "s_CurrentQIdx (ag_State g) + 1 < s_TotalQuestions (ag_State g)"
    "ag_Question g (s_CurrentQIdx (ag_State g) + 1) \<noteq> None"
    "g' = g\<lparr>ag_State := (ag_State g)\<lparr>s_Status := GameStatusRunning, s_CurrentQIdx := s_CurrentQIdx (ag_State g) + 1,
       s_QuestionOpen := True, s_QuestionStart := tm now\<rparr>\<rparr>"
  using assms
  by (auto simp: start_spec_def Let_def start_error_def put_progress_def started_def
      split: if_splits option.splits)

lemma answer_effect:
  assumes "submit_spec pid qid oid g = Inr g'"
  obtains s q where "loaded g = Inr s" "s_Status s = GameStatusRunning" "s_QuestionOpen s" "s_Current s = Some q"
    "q_ID q = qid" "hasOption q oid" "\<exists>p. fmlookup (s_Players s) pid = Some p \<and> p_Active p"
    "pid |\<notin>| fmdom (ag_Answers g (s_CurrentQIdx s))"
    "g' = g\<lparr>ag_Answers := (ag_Answers g)(s_CurrentQIdx s := fmupd pid oid (ag_Answers g (s_CurrentQIdx s)))\<rparr>"
proof -
  obtain s where s: "loaded g = Inr s" "submit_check s pid qid oid = None" "record_spec (s_CurrentQIdx s) pid oid g = Inr g'"
    using assms by (auto simp: submit_spec_def split: sum.splits option.splits)
  from s(2) obtain q p where "s_Status s = GameStatusRunning" "s_QuestionOpen s" "s_Current s = Some q"
      "q_ID q = qid" "hasOption q oid" "fmlookup (s_Players s) pid = Some p" "p_Active p"
    by (auto simp: submit_check_def split: if_splits option.splits bool.splits)
  moreover from s(3) have "pid |\<notin>| fmdom (ag_Answers g (s_CurrentQIdx s))"
    and "g' = g\<lparr>ag_Answers := (ag_Answers g)(s_CurrentQIdx s := fmupd pid oid (ag_Answers g (s_CurrentQIdx s)))\<rparr>"
    by (auto simp: record_spec_def Let_def split: if_splits)
  ultimately show ?thesis using that s(1) by blast
qed

lemma close_error_None:
  assumes "close_error i s = None"
  shows "s_Status s = GameStatusRunning" "s_QuestionOpen s" "0 \<le> i \<Longrightarrow> s_CurrentQIdx s = i"
  using assms by (auto simp: close_error_def split: if_splits)

text \<open>A close: the penalties are those of \<open>applyPenalties\<close> on the loaded state.\<close>

lemma put_all_players:
  assumes D: "applyPenalties s = Some (s', r, la)" "s_Current s = Some q"
    and wf: "wf_players s" and pl: "s_Players (ag_State g) = s_Players s" and id: "s_ID (ag_State g) = s_ID s"
  shows "s_Players (ag_State (put_players (s_ID s) (map (the_player s') (cr_LifeLost r)) g)) = s_Players s'"
proof (rule fmap_ext)
  fix pid
  note A = applyPenalties_SomeD[OF D]
  have look: "fmlookup (s_Players s') k = map_option (\<lambda>p. if loses s q k then penalised p else p) (fmlookup (s_Players s) k)" for k
    using A(1) by (simp add: lookup_penalise_state)
  have tp: "p_ID (the_player s' k) = k \<and> (the_player s' k)\<lparr>p_GameID := s_ID s\<rparr> = the_player s' k \<and>
      fmlookup (s_Players s') k = Some (the_player s' k)" if k: "k \<in> set (losers s q)" for k
  proof -
    have lk: "loses s q k" using k by (simp add: set_losers)
    then obtain p where p: "fmlookup (s_Players s) k = Some p" by (auto simp: loses_def split: option.splits)
    then have "the_player s' k = penalised p" using lk by (simp add: the_player_def look)
    moreover have "p_ID p = k" "p_GameID p = s_ID s" using wf p by (auto simp: wf_players_def wf_player_def)
    ultimately show ?thesis using p lk by (simp add: look penalised_def)
  qed
  define kvs where "kvs = map (\<lambda>k. (k, the_player s' k)) (losers s q)"
  have "map (\<lambda>p. (p_ID p, p\<lparr>p_GameID := s_ID s\<rparr>)) (map (the_player s') (losers s q)) = kvs"
    using tp by (simp add: kvs_def)
  then have st: "s_Players (ag_State (put_players (s_ID s) (map (the_player s') (cr_LifeLost r)) g)) =
      fmupds kvs (s_Players s)"
    by (simp only: put_players_def A(2)) (simp add: pl)
  have m: "map_of (rev kvs) pid = (if pid \<in> set (losers s q) then Some (the_player s' pid) else None)"
    by (auto simp: kvs_def rev_map comp_def map_of_eq_None_iff intro!: map_of_is_SomeI)
  show "fmlookup (s_Players (ag_State (put_players (s_ID s) (map (the_player s') (cr_LifeLost r)) g))) pid =
      fmlookup (s_Players s') pid"
    using tp[of pid] unfolding st fmlookup_fmupds m by (auto simp: look set_losers option.map_ident)
qed

lemma loaded_closing:
  assumes "wf_game g" and "loaded g = Inr s" and "s_QuestionOpen s"
  obtains q where "0 \<le> s_CurrentQIdx s" "s_Current s = Some q" "ag_Question g (s_CurrentQIdx s) = Some q"
    "s_Answers s = ag_Answers g (s_CurrentQIdx s)"
proof -
  note lf = loaded_fields[OF assms(2)]
  have op: "s_QuestionOpen (ag_State g)" using assms(3) lf by simp
  then have 0: "0 \<le> s_CurrentQIdx (ag_State g)"
    using assms(1) by (auto simp: wf_game_def wf_State_def wf_progress_def Let_def)
  then have "0 \<le> s_CurrentQIdx s" using lf by simp
  with loaded_InrD(2)[OF assms(2) this] show ?thesis using that by fastforce
qed

lemma close_effect:
  assumes wf: "wf_game g" and ld: "loaded g = Inr s" and ce: "close_error i s = None"
    and cg: "close_game tm s g = Some (g', cr)"
  obtains s2 r la q where "applyPenalties (closing s) = Some (s2, r, la)" "s_Current s = Some q"
    "cr = (r, q_ID q, q_CorrectOptionID q, la)"
    "g' = g\<lparr>ag_State := s2\<lparr>s_Current := s_Current (ag_State g), s_Answers := s_Answers (ag_State g),
       s_QuestionStart := tm (s_QuestionStart (ag_State g))\<rparr>\<rparr>"
proof -
  note lf = loaded_fields[OF ld]
  obtain q where q: "s_Current s = Some q"
    by (rule loaded_closing[OF wf ld close_error_None(2)[OF ce]])
  obtain s2 r la where ap: "applyPenalties (closing s) = Some (s2, r, la)"
    using applyPenalties_Some[of "closing s" q] q by (auto simp: closing_def)
  have cq: "s_Current (closing s) = Some q" using q by (simp add: closing_def)
  have g': "g' = saved tm s2 (map (the_player s2) (cr_LifeLost r)) g" and cr: "cr = (r, q_ID q, q_CorrectOptionID q, la)"
    using cg ap q by (auto simp: close_game_def)
  note A = applyPenalties_SomeD(1)[OF ap cq]
  have wfp: "wf_players (closing s)"
  proof -
    have "wf_players (closing s) = wf_players (ag_State g)"
      using lf by (intro wf_players_cong) (simp_all add: closing_def)
    with wf show ?thesis by (simp add: wf_game_def wf_State_def Let_def)
  qed
  have sid: "s_ID s2 = s_ID (closing s)" using A by simp
  have pl: "s_Players (ag_State g') = s_Players s2"
    unfolding g' saved_def sid
    by (rule put_all_players[OF ap cq wfp]) (simp_all add: put_progress_def closing_def lf)
  have rest: "s_OwnerID s2 = s_OwnerID (ag_State g) \<and> s_QuestionListID s2 = s_QuestionListID (ag_State g) \<and>
      s_CreatedAt s2 = s_CreatedAt (ag_State g) \<and> s_Config s2 = s_Config (ag_State g) \<and>
      s_TotalQuestions s2 = s_TotalQuestions (ag_State g) \<and> s_ID s2 = s_ID (ag_State g) \<and>
      s_QuestionStart s2 = s_QuestionStart (ag_State g)"
    using A lf by (simp add: closing_def)
  have "ag_State g' = s2\<lparr>s_Current := s_Current (ag_State g), s_Answers := s_Answers (ag_State g),
       s_QuestionStart := tm (s_QuestionStart (ag_State g))\<rparr>"
    using pl rest by (simp add: g' saved_def put_players_def put_progress_def)
  then have "g' = g\<lparr>ag_State := s2\<lparr>s_Current := s_Current (ag_State g), s_Answers := s_Answers (ag_State g),
       s_QuestionStart := tm (s_QuestionStart (ag_State g))\<rparr>\<rparr>"
    by (simp add: g' saved_def put_players_def put_progress_def)
  with that ap q cr show ?thesis by blast
qed

section \<open>Invariants of reachable games\<close>

lemma wf_State_cong:
  assumes "wf_State s" and "s_Players t = s_Players s" "s_ID t = s_ID s" "s_Config t = s_Config s"
    "s_Status t = s_Status s" "s_CurrentQIdx t = s_CurrentQIdx s" "s_TotalQuestions t = s_TotalQuestions s"
    "s_QuestionOpen t = s_QuestionOpen s" "s_EndReason t = s_EndReason s"
  shows "wf_State t"
  using assms wf_players_cong[of t s] by (simp add: wf_State_def wf_progress_def)

lemma wf_closing: "wf_State s \<Longrightarrow> close_error i s = None \<Longrightarrow> wf_State (closing s)"
  using wf_players_cong[of "closing s" s]
  by (auto simp: wf_State_def wf_progress_def closing_def close_error_def split: if_splits)

lemma wf_game_close:
  assumes wf: "wf_game g" and ld: "loaded g = Inr s" and ce: "close_error i s = None"
    and cg: "close_game tm s g = Some (g', cr)"
  shows "wf_game g'"
proof -
  obtain s2 r la q where E: "applyPenalties (closing s) = Some (s2, r, la)" "s_Current s = Some q"
    "g' = g\<lparr>ag_State := s2\<lparr>s_Current := s_Current (ag_State g), s_Answers := s_Answers (ag_State g),
       s_QuestionStart := tm (s_QuestionStart (ag_State g))\<rparr>\<rparr>"
    by (rule close_effect[OF assms]) blast
  have ws: "wf_State s"
    using wf by (intro wf_State_cong[of "ag_State g" s]) (simp_all add: wf_game_def Let_def loaded_fields[OF ld])
  have cq: "s_Current (closing s) = Some q" using E(2) by (simp add: closing_def)
  have "wf_State s2"
    by (rule wf_applyPenalties[OF wf_closing[OF ws ce] _ _ E(1) cq])
      (use close_error_None(1)[OF ce] in \<open>simp_all add: closing_def\<close>)
  then have "wf_State (ag_State g')" by (rule wf_State_cong) (simp_all add: E(3))
  moreover have "s_CurrentQIdx s2 = s_CurrentQIdx (ag_State g)" "s_TotalQuestions s2 = s_TotalQuestions (ag_State g)"
    using applyPenalties_SomeD(1)[OF E(1) cq] loaded_fields[OF ld] by (simp_all add: closing_def)
  ultimately show ?thesis using wf by (simp add: wf_game_def E(3) Let_def)
qed

lemma wf_game_step:
  assumes "game_step tm g l g'" and wf: "wf_game g"
  shows "wf_game g'"
  using assms(1)
proof (cases rule: game_step.cases)
  case (step_join pid name actorID)
  note J = join_effect[OF step_join(2)]
  have wfp: "wf_players (ag_State g')" and lv: "1 \<le> InitialLives (s_Config (ag_State g))"
    using wf step_join(3) J(2)
    by (auto simp: J(3) wf_game_def wf_State_def wf_players_def wf_player_def new_player_def Let_def split: if_splits)
  have "wf_progress (ag_State g') = wf_progress (ag_State g)" by (simp add: J(3) wf_progress_def)
  then show ?thesis using wf wfp by (simp add: wf_game_def wf_State_def Let_def) (simp add: J(3))
next
  case (step_start now)
  note T = start_effect[OF step_start(2)]
  have wfp: "wf_players (ag_State g') = wf_players (ag_State g)" by (rule wf_players_cong) (simp_all add: T(5))
  have "wf_progress (ag_State g')"
    using wf T(1-4) by (auto simp: T(5) wf_game_def wf_State_def wf_progress_def Let_def)
  then show ?thesis using wf wfp by (auto simp: wf_game_def wf_State_def Let_def T(5))
next
  case (step_answer pid qid oid)
  from step_answer(2) show ?thesis
  proof (rule answer_effect)
    fix s q assume A: "loaded g = Inr s" "s_QuestionOpen s"
      "g' = g\<lparr>ag_Answers := (ag_Answers g)(s_CurrentQIdx s := fmupd pid oid (ag_Answers g (s_CurrentQIdx s)))\<rparr>"
    then have "0 \<le> s_CurrentQIdx s" using loaded_closing[OF wf A(1,2)] by blast
    then show ?thesis
      using wf A(3) loaded_fields[OF A(1)] by (simp add: wf_game_def Let_def)
  qed
next
  case (step_close s i cr)
  then show ?thesis using wf_game_close[OF wf] by blast
next
  case (step_half s i)
  have "wf_progress (ag_State (half_closed g))"
    using wf close_error_None[OF step_half(4)] loaded_fields[OF step_half(3)]
    by (auto simp: half_closed_def wf_game_def wf_State_def wf_progress_def Let_def)
  moreover have "wf_players (ag_State (half_closed g)) = wf_players (ag_State g)"
    by (rule wf_players_cong) (simp_all add: half_closed_def)
  ultimately show ?thesis
    using wf step_half(2) by (simp add: wf_game_def wf_State_def Let_def) (simp add: half_closed_def)
qed

lemma wf_game_run: "game_run tm g ls g' \<Longrightarrow> wf_game g \<Longrightarrow> wf_game g'"
  by (induction rule: game_run.induct) (auto intro: wf_game_step)

lemma wf_initial: "1 \<le> InitialLives cfg \<Longrightarrow> wf_game (created tm (initial_state gid own lid now (length qs) cfg) qs)"
  by (auto simp: wf_game_def created_def initial_state_def wf_State_def wf_players_def wf_progress_def Let_def)

section \<open>Progress\<close>

text \<open>
  The number of starts and closes a game has left: two per question not started, one for an open
  question. Every start and every close (complete or not) uses up exactly one.
\<close>

definition moves_left :: "agame \<Rightarrow> int" where
  "moves_left g = 2 * (s_TotalQuestions (ag_State g) - 1 - s_CurrentQIdx (ag_State g))
     + (if s_QuestionOpen (ag_State g) then 1 else 0)"

definition is_move :: "label \<Rightarrow> bool" where
  "is_move l \<longleftrightarrow> l \<in> {Start, Close, HalfClose}"

lemma close_step_state:
  assumes wf: "wf_game g" and st: "game_step tm g Close g'"
  obtains s s2 r la q where "loaded g = Inr s" "s_Status s = GameStatusRunning" "s_QuestionOpen s"
    "applyPenalties (closing s) = Some (s2, r, la)" "s_Current s = Some q"
    "ag_Question g (s_CurrentQIdx s) = Some q" "s_Answers s = ag_Answers g (s_CurrentQIdx s)"
    "s_Status (ag_State g') = s_Status s2" "s_Players (ag_State g') = s_Players s2"
    "s_CurrentQIdx (ag_State g') = s_CurrentQIdx (ag_State g)"
    "s_TotalQuestions (ag_State g') = s_TotalQuestions (ag_State g)"
    "\<not> s_QuestionOpen (ag_State g')" "ag_Answers g' = ag_Answers g" "ag_Question g' = ag_Question g"
proof -
  from st obtain s i cr where S: "loaded g = Inr s" "close_error i s = None" "close_game tm s g = Some (g', cr)"
    by (auto simp: step_close_iff)
  obtain s2 r la q where E: "applyPenalties (closing s) = Some (s2, r, la)" "s_Current s = Some q"
    "g' = g\<lparr>ag_State := s2\<lparr>s_Current := s_Current (ag_State g), s_Answers := s_Answers (ag_State g),
       s_QuestionStart := tm (s_QuestionStart (ag_State g))\<rparr>\<rparr>"
    by (rule close_effect[OF wf S]) blast
  obtain q' where q': "s_Current s = Some q'" "ag_Question g (s_CurrentQIdx s) = Some q'"
    "s_Answers s = ag_Answers g (s_CurrentQIdx s)"
    by (rule loaded_closing[OF wf S(1) close_error_None(2)[OF S(2)]]) blast
  have cq: "s_Current (closing s) = Some q" using E(2) by (simp add: closing_def)
  have "s_CurrentQIdx s2 = s_CurrentQIdx s" "s_TotalQuestions s2 = s_TotalQuestions s" "\<not> s_QuestionOpen s2"
    using applyPenalties_keeps[OF E(1) cq] by (simp_all add: closing_def)
  then show ?thesis
    using that[OF S(1) close_error_None(1,2)[OF S(2)] E(1,2)] q' E(2,3) loaded_fields[OF S(1)] by simp
qed

lemma moves_left_step:
  assumes "game_step tm g l g'" and wf: "wf_game g"
  shows "moves_left g' = moves_left g - (if is_move l then 1 else 0)"
proof (cases l)
  case (Join p)
  with assms(1) obtain nm ac where "add_spec (s_ID (ag_State g)) p nm ac g = Inr g'" by (auto elim!: game_stepE)
  from join_effect(3)[OF this] show ?thesis by (simp add: Join moves_left_def is_move_def)
next
  case Start
  with assms(1) obtain now where "start_spec tm now g = Inr g'" by (auto simp: step_start_iff)
  from start_effect[OF this] show ?thesis by (simp add: Start moves_left_def is_move_def)
next
  case (Answer p x)
  with assms(1) obtain qid where "submit_spec p qid x g = Inr g'" by (auto elim!: game_stepE)
  then show ?thesis by (rule answer_effect) (simp add: Answer moves_left_def is_move_def)
next
  case Close
  with assms(1) have st: "game_step tm g Close g'" by simp
  show ?thesis
    by (rule close_step_state[OF wf st]) (use Close in \<open>simp add: moves_left_def is_move_def loaded_fields\<close>)
next
  case HalfClose
  with assms(1) obtain s i where s: "loaded g = Inr s" "close_error i s = None" "g' = half_closed g"
    by (auto elim!: game_stepE)
  have "s_QuestionOpen (ag_State g)" using close_error_None(2)[OF s(2)] loaded_fields[OF s(1)] by simp
  with s(3) show ?thesis by (simp add: HalfClose moves_left_def is_move_def half_closed_def)
qed

lemma moves_left_run:
  "game_run tm g ls g' \<Longrightarrow> wf_game g \<Longrightarrow> moves_left g' = moves_left g - int (length (filter is_move ls))"
proof (induction rule: game_run.induct)
  case (run_snoc g ls g1 l g2)
  have "wf_game g1" using wf_game_run[OF run_snoc(1)] run_snoc by simp
  from moves_left_step[OF run_snoc(2) this] show ?case using run_snoc by simp
qed simp

lemma moves_left_nonneg: "wf_game g \<Longrightarrow> 0 \<le> moves_left g"
  by (auto simp: wf_game_def wf_State_def wf_progress_def moves_left_def Let_def)

text \<open>
  As long as no close stops half way, a game past its last question is over: a running game
  always has an open question or another one to start.
\<close>

definition live_game :: "agame \<Rightarrow> bool" where
  "live_game g \<longleftrightarrow> 0 < s_TotalQuestions (ag_State g) \<and>
     (s_Status (ag_State g) = GameStatusRunning \<longrightarrow> 0 < moves_left g)"

lemma live_game_step:
  assumes "game_step tm g l g'" and wf: "wf_game g" and "l \<noteq> HalfClose" and "live_game g"
  shows "live_game g'"
proof (cases l)
  case (Join p)
  with assms(1) obtain nm ac where "add_spec (s_ID (ag_State g)) p nm ac g = Inr g'" by (auto elim!: game_stepE)
  from join_effect[OF this] assms(4) show ?thesis by (simp add: live_game_def moves_left_def)
next
  case Start
  with assms(1) obtain now where "start_spec tm now g = Inr g'" by (auto simp: step_start_iff)
  from start_effect[OF this] assms(4) show ?thesis by (simp add: live_game_def moves_left_def)
next
  case (Answer p x)
  with assms(1) obtain qid where "submit_spec p qid x g = Inr g'" by (auto elim!: game_stepE)
  then show ?thesis by (rule answer_effect) (use assms(4) in \<open>simp add: live_game_def moves_left_def\<close>)
next
  case Close
  with assms(1) have st: "game_step tm g Close g'" by simp
  show ?thesis
  proof (rule close_step_state[OF wf st])
    fix s s2 r la q
    assume C: "loaded g = Inr s" "s_Status s = GameStatusRunning" "applyPenalties (closing s) = Some (s2, r, la)"
      "s_Current s = Some q" "s_Status (ag_State g') = s_Status s2"
      "s_CurrentQIdx (ag_State g') = s_CurrentQIdx (ag_State g)"
      "s_TotalQuestions (ag_State g') = s_TotalQuestions (ag_State g)" "\<not> s_QuestionOpen (ag_State g')"
    have cq: "s_Current (closing s) = Some q" using C(4) by (simp add: closing_def)
    let ?s1 = "penalise_state (closing s) q"
    have rem: "RemainingQuestions ?s1 = s_TotalQuestions (ag_State g) - (s_CurrentQIdx (ag_State g) + 1)"
      using loaded_fields[OF C(1)] by (simp add: RemainingQuestions_def closing_def)
    have "s_Status s2 = GameStatusRunning \<longrightarrow> RemainingQuestions ?s1 \<noteq> 0"
      using applyPenalties_SomeD(1)[OF C(3) cq] by (auto simp: over_reason_def split: if_splits)
    moreover have "s_CurrentQIdx (ag_State g) < s_TotalQuestions (ag_State g)"
      using wf C(2) loaded_fields[OF C(1)]
      by (auto simp: wf_game_def wf_State_def wf_progress_def Let_def)
    ultimately have "s_Status s2 = GameStatusRunning \<longrightarrow> s_CurrentQIdx (ag_State g) + 1 < s_TotalQuestions (ag_State g)"
      using rem by linarith
    then have "s_Status s2 = GameStatusRunning \<longrightarrow> 0 < moves_left g'"
      using C(6-8) unfolding moves_left_def by auto
    then show ?thesis
      using assms(4) C(5,7) by (simp add: live_game_def)
  qed
qed (use assms(3) in simp)

lemma live_game_run:
  "game_run tm g ls g' \<Longrightarrow> wf_game g \<Longrightarrow> live_game g \<Longrightarrow> HalfClose \<notin> set ls \<Longrightarrow> live_game g'"
proof (induction rule: game_run.induct)
  case (run_snoc g ls g1 l g2)
  have "wf_game g1" using wf_game_run[OF run_snoc(1)] run_snoc by simp
  from live_game_step[OF run_snoc(2) this] show ?case using run_snoc by auto
qed simp

lemma live_initial: "qs \<noteq> [] \<Longrightarrow> live_game (created tm (initial_state gid own lid now (length qs) cfg) qs)"
  by (simp add: live_game_def created_def initial_state_def)

text \<open>A game that has moves left and is not over has a start or a close to make.\<close>

lemma move_enabled:
  assumes wf: "wf_game g" and "live_game g" and nf: "s_Status (ag_State g) \<noteq> GameStatusFinished"
  shows "\<exists>l g'. l \<in> {Start, Close} \<and> game_step tm g l g'"
proof (cases "s_QuestionOpen (ag_State g)")
  case True
  have wp: "0 \<le> s_CurrentQIdx (ag_State g)" "s_CurrentQIdx (ag_State g) < s_TotalQuestions (ag_State g)"
    "s_Status (ag_State g) = GameStatusRunning"
    using wf True by (auto simp: wf_game_def wf_State_def wf_progress_def Let_def)
  then obtain q where q: "ag_Question g (s_CurrentQIdx (ag_State g)) = Some q"
    using wf by (fastforce simp: wf_game_def Let_def)
  obtain s where s: "loaded g = Inr s" "s_Current s = Some q"
    using wp q by (simp add: loaded_def Let_def)
  have "close_error (-1) s = None" using True wp loaded_fields[OF s(1)] by (simp add: close_error_def)
  moreover obtain s2 r la where "applyPenalties (closing s) = Some (s2, r, la)"
    using applyPenalties_Some[of "closing s" q] s(2) by (auto simp: closing_def)
  then have "\<exists>g' cr. close_game tm s g = Some (g', cr)" using s(2) by (simp add: close_game_def)
  ultimately show ?thesis using s(1) by (blast intro: step_close)
next
  case False
  have "s_CurrentQIdx (ag_State g) + 1 < s_TotalQuestions (ag_State g)"
    using wf assms(2,3) False
    by (auto simp: wf_game_def wf_State_def wf_progress_def live_game_def moves_left_def Let_def)
  moreover have "-1 \<le> s_CurrentQIdx (ag_State g)"
    using wf by (auto simp: wf_game_def wf_State_def wf_progress_def Let_def)
  ultimately have "start_error (ag_State g) = None" "ag_Question g (s_CurrentQIdx (ag_State g) + 1) \<noteq> None"
    using False nf wf by (simp_all add: start_error_def wf_game_def Let_def)
  then obtain q where "start_spec tm 0 g = Inr (put_progress tm (started 0 q (ag_State g)) g)"
    by (auto simp: start_spec_def Let_def)
  then show ?thesis by (blast intro: step_start)
qed

section \<open>What never changes back\<close>

lemma finished_no_step:
  assumes wf: "wf_game g" and fin: "s_Status (ag_State g) = GameStatusFinished"
  shows "\<not> game_step tm g l g'"
proof
  assume "game_step tm g l g'"
  then show False
  proof (cases rule: game_step.cases)
    case (step_join pid name actorID)
    then show ?thesis using join_effect(1) fin by fastforce
  next
    case (step_start now)
    then show ?thesis using start_effect(1) fin by blast
  next
    case (step_answer pid qid oid)
    from step_answer(2) show ?thesis
      by (rule answer_effect) (use fin in \<open>simp add: loaded_fields\<close>)
  next
    case (step_close s i cr)
    then show ?thesis using close_error_None(1) fin loaded_fields(2) by fastforce
  next
    case (step_half s i)
    then show ?thesis using close_error_None(1) fin loaded_fields(2) by fastforce
  qed
qed

text \<open>The answers of a step: only the open question's can grow, and never change.\<close>

lemma answers_step:
  assumes "game_step tm g l g'" and wf: "wf_game g"
  shows "ag_Answers g' = ag_Answers g \<or>
    (\<exists>pid oid. l = Answer pid oid \<and> s_QuestionOpen (ag_State g) \<and>
       pid |\<notin>| fmdom (ag_Answers g (s_CurrentQIdx (ag_State g))) \<and>
       ag_Answers g' = (ag_Answers g)(s_CurrentQIdx (ag_State g) :=
          fmupd pid oid (ag_Answers g (s_CurrentQIdx (ag_State g)))))"
proof (cases l)
  case (Join p)
  with assms(1) obtain nm ac where "add_spec (s_ID (ag_State g)) p nm ac g = Inr g'" by (auto elim!: game_stepE)
  from join_effect(3)[OF this] show ?thesis by simp
next
  case Start
  with assms(1) obtain now where "start_spec tm now g = Inr g'" by (auto simp: step_start_iff)
  from start_effect(5)[OF this] show ?thesis by simp
next
  case (Answer p x)
  with assms(1) obtain qid where "submit_spec p qid x g = Inr g'" by (auto elim!: game_stepE)
  then show ?thesis by (rule answer_effect) (simp add: Answer loaded_fields)
next
  case Close
  with assms(1) have st: "game_step tm g Close g'" by simp
  show ?thesis by (rule close_step_state[OF wf st]) simp
next
  case HalfClose
  with assms(1) show ?thesis by (auto elim!: game_stepE simp: half_closed_def)
qed

lemma players_step:
  assumes "game_step tm g l g'" and wf: "wf_game g" and p: "fmlookup (s_Players (ag_State g)) pid = Some p"
  shows "\<exists>p'. fmlookup (s_Players (ag_State g')) pid = Some p' \<and> p_Lives p' \<le> p_Lives p \<and>
     (p_Active p' \<longrightarrow> p_Active p) \<and> p_ActorID p' = p_ActorID p \<and> p_Name p' = p_Name p \<and>
     (l \<noteq> Close \<longrightarrow> p' = p)"
proof (cases l)
  case (Join k)
  with assms(1) obtain nm ac where a: "add_spec (s_ID (ag_State g)) k nm ac g = Inr g'" by (auto elim!: game_stepE)
  then have "k \<noteq> pid" using join_effect(2)[OF a] p by (auto simp: fmlookup_dom_iff)
  then show ?thesis using join_effect(3)[OF a] p by simp
next
  case Start
  with assms(1) obtain now where "start_spec tm now g = Inr g'" by (auto simp: step_start_iff)
  from start_effect(5)[OF this] p show ?thesis by simp
next
  case (Answer k x)
  with assms(1) obtain qid where "submit_spec k qid x g = Inr g'" by (auto elim!: game_stepE)
  then show ?thesis by (rule answer_effect) (use p in simp)
next
  case Close
  with assms(1) have st: "game_step tm g Close g'" by simp
  show ?thesis
  proof (rule close_step_state[OF wf st])
    fix s s2 r la q
    assume C: "loaded g = Inr s" "applyPenalties (closing s) = Some (s2, r, la)" "s_Current s = Some q"
      "s_Players (ag_State g') = s_Players s2"
    have cq: "s_Current (closing s) = Some q" using C(3) by (simp add: closing_def)
    have pl: "s_Players (closing s) = s_Players (ag_State g)" using loaded_fields[OF C(1)] by (simp add: closing_def)
    have "s_Players s2 = s_Players (penalise_state (closing s) q)" using applyPenalties_SomeD(1)[OF C(2) cq] by simp
    then have "fmlookup (s_Players (ag_State g')) pid = Some (if loses (closing s) q pid then penalised p else p)"
      by (simp add: C(4) lookup_penalise_state pl p)
    then show ?thesis
      using Close p pl by (auto simp: penalised_def loses_def)
  qed
next
  case HalfClose
  with assms(1) p show ?thesis by (auto elim!: game_stepE simp: half_closed_def)
qed

lemma index_step:
  assumes "game_step tm g l g'" and wf: "wf_game g"
  shows "s_CurrentQIdx (ag_State g') = s_CurrentQIdx (ag_State g) + (if l = Start then 1 else 0)"
    and "s_QuestionOpen (ag_State g') \<longrightarrow> l = Start \<or> s_QuestionOpen (ag_State g)"
proof -
  have "s_CurrentQIdx (ag_State g') = s_CurrentQIdx (ag_State g) + (if l = Start then 1 else 0) \<and>
     (s_QuestionOpen (ag_State g') \<longrightarrow> l = Start \<or> s_QuestionOpen (ag_State g))"
  proof (cases l)
    case (Join k)
    with assms(1) obtain nm ac where "add_spec (s_ID (ag_State g)) k nm ac g = Inr g'" by (auto elim!: game_stepE)
    from join_effect(3)[OF this] Join show ?thesis by simp
  next
    case Start
    with assms(1) obtain now where "start_spec tm now g = Inr g'" by (auto simp: step_start_iff)
    from start_effect(5)[OF this] Start show ?thesis by simp
  next
    case (Answer k x)
    with assms(1) obtain qid where "submit_spec k qid x g = Inr g'" by (auto elim!: game_stepE)
    then show ?thesis by (rule answer_effect) (use Answer in simp)
  next
    case Close
    with assms(1) have st: "game_step tm g Close g'" by simp
    show ?thesis by (rule close_step_state[OF wf st]) (use Close in simp)
  next
    case HalfClose
    with assms(1) show ?thesis by (auto elim!: game_stepE simp: half_closed_def)
  qed
  then show "s_CurrentQIdx (ag_State g') = s_CurrentQIdx (ag_State g) + (if l = Start then 1 else 0)"
    and "s_QuestionOpen (ag_State g') \<longrightarrow> l = Start \<or> s_QuestionOpen (ag_State g)" by blast+
qed

text \<open>What a game keeps from its creation.\<close>

definition same_game :: "agame \<Rightarrow> agame \<Rightarrow> bool" where
  "same_game g g' \<longleftrightarrow> ag_Question g' = ag_Question g \<and> (let s = ag_State g; s' = ag_State g' in
     s_ID s' = s_ID s \<and> s_OwnerID s' = s_OwnerID s \<and> s_QuestionListID s' = s_QuestionListID s \<and>
     s_CreatedAt s' = s_CreatedAt s \<and> s_Config s' = s_Config s \<and> s_TotalQuestions s' = s_TotalQuestions s)"

lemma same_game_step:
  assumes "game_step tm g l g'" and wf: "wf_game g"
  shows "same_game g g'"
proof (cases l)
  case (Join k)
  with assms(1) obtain nm ac where "add_spec (s_ID (ag_State g)) k nm ac g = Inr g'" by (auto elim!: game_stepE)
  from join_effect(3)[OF this] show ?thesis by (simp add: same_game_def)
next
  case Start
  with assms(1) obtain now where "start_spec tm now g = Inr g'" by (auto simp: step_start_iff)
  from start_effect(5)[OF this] show ?thesis by (simp add: same_game_def)
next
  case (Answer k x)
  with assms(1) obtain qid where "submit_spec k qid x g = Inr g'" by (auto elim!: game_stepE)
  then show ?thesis by (rule answer_effect) (simp add: same_game_def)
next
  case Close
  with assms(1) obtain s i cr where S: "loaded g = Inr s" "close_error i s = None" "close_game tm s g = Some (g', cr)"
    by (auto simp: step_close_iff)
  show ?thesis
  proof (rule close_effect[OF wf S])
    fix s2 r la q
    assume E: "applyPenalties (closing s) = Some (s2, r, la)" "s_Current s = Some q"
      "g' = g\<lparr>ag_State := s2\<lparr>s_Current := s_Current (ag_State g), s_Answers := s_Answers (ag_State g),
       s_QuestionStart := tm (s_QuestionStart (ag_State g))\<rparr>\<rparr>"
    have cq: "s_Current (closing s) = Some q" using E(2) by (simp add: closing_def)
    have "s2 = penalise_state (closing s) q \<or> (\<exists>st rs. s2 = (penalise_state (closing s) q)\<lparr>s_Status := st, s_EndReason := rs\<rparr>)"
      using applyPenalties_SomeD(1)[OF E(1) cq] by auto
    then show ?thesis
      using loaded_fields[OF S(1)] by (auto simp: same_game_def E(3) closing_def)
  qed
next
  case HalfClose
  with assms(1) show ?thesis by (auto elim!: game_stepE simp: half_closed_def same_game_def)
qed

lemma same_game_run: "game_run tm g ls g' \<Longrightarrow> wf_game g \<Longrightarrow> same_game g g'"
proof (induction rule: game_run.induct)
  case (run_snoc g ls g1 l g2)
  have "wf_game g1" using wf_game_run[OF run_snoc(1)] run_snoc by simp
  from same_game_step[OF run_snoc(2) this] show ?case using run_snoc by (simp add: same_game_def Let_def)
qed (simp add: same_game_def)

lemma starts_run:
  "game_run tm g ls g' \<Longrightarrow> wf_game g \<Longrightarrow>
     s_CurrentQIdx (ag_State g') = s_CurrentQIdx (ag_State g) + int (count_list ls Start)"
proof (induction rule: game_run.induct)
  case (run_snoc g ls g1 l g2)
  have "wf_game g1" using wf_game_run[OF run_snoc(1)] run_snoc by simp
  from index_step(1)[OF run_snoc(2) this] show ?case using run_snoc by simp
qed simp

text \<open>An answer is on record, or question \<open>i\<close> is over: both last.\<close>

definition question_over :: "agame \<Rightarrow> int \<Rightarrow> bool" where
  "question_over g i \<longleftrightarrow> i < s_CurrentQIdx (ag_State g) \<or>
     i = s_CurrentQIdx (ag_State g) \<and> \<not> s_QuestionOpen (ag_State g)"

lemma question_over_step:
  assumes "game_step tm g l g'" and wf: "wf_game g" and "question_over g i"
  shows "question_over g' i \<and> ag_Answers g' i = ag_Answers g i"
  using answers_step[OF assms(1,2)] index_step[OF assms(1,2)] assms(3)
  by (auto simp: question_over_def)

lemma question_over_run:
  "game_run tm g ls g' \<Longrightarrow> wf_game g \<Longrightarrow> question_over g i \<Longrightarrow> question_over g' i \<and> ag_Answers g' i = ag_Answers g i"
proof (induction rule: game_run.induct)
  case (run_snoc g ls g1 l g2)
  have "wf_game g1" using wf_game_run[OF run_snoc(1)] run_snoc by simp
  from question_over_step[OF run_snoc(2) this, of i] show ?case using run_snoc by simp
qed simp

lemma answer_kept_run:
  "game_run tm g ls g' \<Longrightarrow> wf_game g \<Longrightarrow> fmlookup (ag_Answers g i) pid = Some x \<Longrightarrow> fmlookup (ag_Answers g' i) pid = Some x"
proof (induction rule: game_run.induct)
  case (run_snoc g ls g1 l g2)
  have "wf_game g1" using wf_game_run[OF run_snoc(1)] run_snoc by simp
  from answers_step[OF run_snoc(2) this] show ?case using run_snoc by (auto simp: fmlookup_dom_iff)
qed simp

lemma players_run:
  "game_run tm g ls g' \<Longrightarrow> wf_game g \<Longrightarrow> fmlookup (s_Players (ag_State g)) pid = Some p \<Longrightarrow>
   \<exists>p'. fmlookup (s_Players (ag_State g')) pid = Some p' \<and> p_Lives p' \<le> p_Lives p \<and>
     (p_Active p' \<longrightarrow> p_Active p) \<and> p_ActorID p' = p_ActorID p \<and> p_Name p' = p_Name p"
proof (induction rule: game_run.induct)
  case (run_snoc g ls g1 l g2)
  then obtain p1 where p1: "fmlookup (s_Players (ag_State g1)) pid = Some p1" "p_Lives p1 \<le> p_Lives p"
     "p_Active p1 \<longrightarrow> p_Active p" "p_ActorID p1 = p_ActorID p" "p_Name p1 = p_Name p" by blast
  have "wf_game g1" using wf_game_run[OF run_snoc(1)] run_snoc by simp
  from players_step[OF run_snoc(2) this p1(1)] show ?case using p1 by force
qed simp

section \<open>Properties\<close>

text \<open>
  A concrete game for the witnesses: two players, one life each, one question; the first
  player answers right, the close eliminates the other one and ends the game.
\<close>

definition ex_new_game :: agame where
  "ex_new_game = created id (initial_state ''g'' ''o'' ''l'' 0 (length [ex_question]) \<lparr>InitialLives = 1, AnswerTimeoutSeconds = 0\<rparr>)
     [ex_question]"

definition ex_joined :: agame where
  "ex_joined = ex_new_game\<lparr>ag_State := (ag_State ex_new_game)\<lparr>s_Players := fmupd ''b''
     (new_player ''b'' ''B'' 1 ''g'' ''u2'') (fmupd ''a'' (new_player ''a'' ''A'' 1 ''g'' ''u1'') fmempty)\<rparr>\<rparr>"

definition ex_open :: agame where
  "ex_open = ex_joined\<lparr>ag_State := (ag_State ex_joined)\<lparr>s_Status := GameStatusRunning, s_CurrentQIdx := 0,
     s_QuestionOpen := True, s_QuestionStart := 5\<rparr>\<rparr>"

definition ex_answered :: agame where
  "ex_answered = ex_open\<lparr>ag_Answers := (\<lambda>_. fmempty)(0 := fmupd ''a'' ''a'' fmempty)\<rparr>"

lemmas ex_game_defs = ex_answered_def ex_open_def ex_joined_def ex_new_game_def created_def initial_state_def

lemma ex_join_run: "game_run id ex_new_game [Join ''a'', Join ''b''] ex_joined"
proof -
  define g1 where "g1 = ex_new_game\<lparr>ag_State := (ag_State ex_new_game)\<lparr>s_Players :=
    fmupd ''a'' (new_player ''a'' ''A'' 1 ''g'' ''u1'') fmempty\<rparr>\<rparr>"
  have "add_spec (s_ID (ag_State ex_new_game)) ''a'' ''A'' ''u1'' ex_new_game = Inr g1"
    by (simp add: add_spec_def Let_def put_players_def g1_def ex_game_defs new_player_def)
  then have "game_step id ex_new_game (Join ''a'') g1" by (rule step_join) simp
  moreover have "add_spec (s_ID (ag_State g1)) ''b'' ''B'' ''u2'' g1 = Inr ex_joined"
    by (simp add: add_spec_def Let_def put_players_def g1_def ex_game_defs new_player_def)
  then have "game_step id g1 (Join ''b'') ex_joined" by (rule step_join) simp
  ultimately show ?thesis using run_snoc[OF run_snoc[OF run_nil]] by fastforce
qed

lemma ex_start_step: "game_step id ex_joined Start ex_open"
  by (rule step_start[where now = 5])
    (simp add: start_spec_def Let_def start_error_def ex_game_defs put_progress_def started_def)

lemma ex_answer_step: "game_step id ex_open (Answer ''a'' ''a'') ex_answered"
  by (rule step_answer[where qid = "''q2''"])
    (simp add: submit_spec_def loaded_def submit_check_def record_spec_def Let_def ex_game_defs
      new_player_def hasOption_def ex_question_def fun_eq_iff)

lemma ex_run: "game_run id ex_new_game [Join ''a'', Join ''b'', Start, Answer ''a'' ''a''] ex_answered"
  using run_snoc[OF run_snoc[OF ex_join_run ex_start_step] ex_answer_step] by simp

lemma ex_new_wf: "wf_game ex_new_game"
  using wf_initial[of "\<lparr>InitialLives = 1, AnswerTimeoutSeconds = 0\<rparr>" id "''g''" "''o''" "''l''" 0 "[ex_question]"]
  by (simp add: ex_new_game_def)

lemma ex_answered_wf: "wf_game ex_answered"
  using wf_game_run[OF ex_run ex_new_wf] .

lemma ex_close_step: "\<exists>g'. game_step id ex_answered Close g'"
proof -
  obtain s where s: "loaded ex_answered = Inr s" "s_Current s = Some ex_question"
    by (simp add: loaded_def Let_def ex_game_defs)
  have "s_Current (closing s) = Some ex_question" using s(2) by (simp add: closing_def)
  then obtain s2 r la where "applyPenalties (closing s) = Some (s2, r, la)" by (rule applyPenalties_Some)
  then have "\<exists>g' cr. close_game id s ex_answered = Some (g', cr)" using s(2) by (simp add: close_game_def)
  moreover have "close_error (-1) s = None"
    using loaded_fields[OF s(1)] by (simp add: close_error_def) (simp add: ex_game_defs)
  ultimately show ?thesis using s(1) step_close by blast
qed

text \<open>
  C4: penalties follow the recorded answers. When a question of a reachable game closes, every
  player who was active and has no recorded answer equal to the correct option loses exactly one
  life and is active afterwards only if lives are left; everybody else is untouched.
\<close>

theorem close_step_penalties:
  assumes "game_step tm g Close g'" and "wf_game g"
  shows "\<exists>q. ag_Question g (s_CurrentQIdx (ag_State g)) = Some q \<and>
    (\<forall>pid. fmlookup (s_Players (ag_State g')) pid =
       map_option (\<lambda>p. if p_Active p \<and> go_get (ag_Answers g (s_CurrentQIdx (ag_State g))) pid \<noteq> q_CorrectOptionID q
                       then p\<lparr>p_Lives := p_Lives p - 1, p_Active := 0 < p_Lives p - 1\<rparr> else p)
         (fmlookup (s_Players (ag_State g)) pid))"
proof (rule close_step_state[OF assms(2,1)])
  fix s s2 r la q
  assume C: "loaded g = Inr s" "applyPenalties (closing s) = Some (s2, r, la)" "s_Current s = Some q"
    "ag_Question g (s_CurrentQIdx s) = Some q" "s_Answers s = ag_Answers g (s_CurrentQIdx s)"
    "s_Players (ag_State g') = s_Players s2"
  have cq: "s_Current (closing s) = Some q" using C(3) by (simp add: closing_def)
  have pl: "s_Players (closing s) = s_Players (ag_State g)" "s_Answers (closing s) = s_Answers s"
    using loaded_fields[OF C(1)] by (simp_all add: closing_def)
  have "s_Players s2 = s_Players (penalise_state (closing s) q)" using applyPenalties_SomeD(1)[OF C(2) cq] by simp
  then show ?thesis
    using C(4-6) pl loaded_fields[OF C(1)]
    by (auto simp: lookup_penalise_state loses_def penalised_def not_le intro!: option.map_cong)
qed

theorem close_step_penalties_witness:
  "\<exists>g'. game_step id ex_answered Close g' \<and>
     map_option p_Lives (fmlookup (s_Players (ag_State g')) ''a'') = Some 1 \<and>
     map_option p_Active (fmlookup (s_Players (ag_State g')) ''b'') = Some False"
proof -
  obtain g' where st: "game_step id ex_answered Close g'" using ex_close_step by blast
  have a: "fmlookup (s_Players (ag_State ex_answered)) ''a'' = Some (new_player ''a'' ''A'' 1 ''g'' ''u1'')"
    "fmlookup (s_Players (ag_State ex_answered)) ''b'' = Some (new_player ''b'' ''B'' 1 ''g'' ''u2'')"
    "s_CurrentQIdx (ag_State ex_answered) = 0" "ag_Answers ex_answered 0 = fmupd ''a'' ''a'' fmempty"
    "ag_Question ex_answered 0 = Some ex_question"
    by (simp_all add: ex_game_defs)
  show ?thesis
    using close_step_penalties[OF st ex_answered_wf] st a
    by (auto simp: new_player_def ex_question_def)
qed

text \<open>
  C5: every game ends. In a game created with \<open>n > 0\<close> questions and at least one life, at most
  \<open>n\<close> questions are closed, after the \<open>n\<close>-th close the game is finished, and as long as it is not
  finished a question can be started or closed, unless a close was cut short by a storage error.
\<close>

theorem game_finishes:
  assumes "game_run tm (created tm (initial_state gid own lid now (length qs) cfg) qs) ls g"
    and "1 \<le> InitialLives cfg" and "qs \<noteq> []" and "HalfClose \<notin> set ls"
  shows "count_list ls Close \<le> length qs
     \<and> (count_list ls Close = length qs \<longrightarrow> s_Status (ag_State g) = GameStatusFinished)
     \<and> (s_Status (ag_State g) \<noteq> GameStatusFinished \<longrightarrow> (\<exists>l g'. l \<in> {Start, Close} \<and> game_step tm g l g'))"
proof -
  let ?g0 = "created tm (initial_state gid own lid now (length qs) cfg) qs"
  have "0 < length qs" using assms(3) by simp
  have wf0: "wf_game ?g0" using assms(2) by (rule wf_initial)
  have wf: "wf_game g" using wf_game_run[OF assms(1) wf0] .
  have live: "live_game g" using live_game_run[OF assms(1) wf0 live_initial[OF assms(3)] assms(4)] .
  have bal: "s_CurrentQIdx (ag_State g) = int (count_list ls Start) - 1"
    using starts_run[OF assms(1) wf0] by (simp add: created_def initial_state_def)
  have moves: "length (filter is_move ls) = count_list ls Start + count_list ls Close"
    using assms(4) by (induction ls) (auto simp: is_move_def)
  have total: "moves_left g = 2 * int (length qs) - int (length (filter is_move ls))"
    using moves_left_run[OF assms(1) wf0] by (simp add: moves_left_def created_def initial_state_def)
  have const: "s_TotalQuestions (ag_State g) = int (length qs)"
    using same_game_run[OF assms(1) wf0] by (simp add: same_game_def created_def initial_state_def Let_def)
  have closes: "int (count_list ls Close) = int (count_list ls Start) - (if s_QuestionOpen (ag_State g) then 1 else 0)"
    using total bal const by (simp add: moves moves_left_def)
  have wp: "wf_progress (ag_State g)" using wf by (simp add: wf_game_def wf_State_def Let_def)
  then have starts: "count_list ls Start \<le> length qs"
    using bal const by (auto simp: wf_progress_def)
  have "s_Status (ag_State g) = GameStatusFinished" if "count_list ls Close = length qs"
  proof -
    have "int (count_list ls Close) \<le> int (count_list ls Start)" using closes by simp
    then have "count_list ls Start \<noteq> 0" using that \<open>0 < length qs\<close> by linarith
    moreover have "moves_left g = 0"
      using that closes starts total by (auto simp: moves split: if_splits)
    ultimately have "moves_left g = 0" "count_list ls Start \<noteq> 0" by blast+
    then have "s_Status (ag_State g) \<noteq> GameStatusRunning" "s_CurrentQIdx (ag_State g) \<noteq> -1"
      using live bal by (auto simp: live_game_def)
    with wp show ?thesis by (auto simp: wf_progress_def)
  qed
  moreover have "count_list ls Close \<le> length qs" using closes starts by (auto split: if_splits)
  ultimately show ?thesis using move_enabled[OF wf live] by blast
qed

theorem game_finishes_witness:
  "count_list [Join ''a'', Join ''b'', Start, Answer ''a'' ''a''] Close \<le> (1::nat) \<and>
   (\<exists>l g'. l \<in> {Start, Close} \<and> game_step id ex_answered l g')"
proof -
  have "s_Status (ag_State ex_answered) \<noteq> GameStatusFinished" by (simp add: ex_game_defs)
  with game_finishes[OF ex_run[unfolded ex_new_game_def]] show ?thesis by simp
qed

text \<open>A player in a run of the game.\<close>

lemma players_only_lose:
  assumes "game_run tm g ls g'" and "wf_game g" and "fmlookup (s_Players (ag_State g)) pid = Some p"
  shows "\<exists>p'. fmlookup (s_Players (ag_State g')) pid = Some p' \<and> p_Lives p' \<le> p_Lives p \<and>
     (\<not> p_Active p \<longrightarrow> \<not> p_Active p') \<and> p_ActorID p' = p_ActorID p \<and> p_Name p' = p_Name p \<and>
     wf_player (ag_State g') pid p'"
proof -
  from players_run[OF assms] obtain p' where p': "fmlookup (s_Players (ag_State g')) pid = Some p'"
    "p_Lives p' \<le> p_Lives p" "p_Active p' \<longrightarrow> p_Active p" "p_ActorID p' = p_ActorID p" "p_Name p' = p_Name p"
    by blast
  have "wf_player (ag_State g') pid p'"
    using wf_game_run[OF assms(1,2)] p'(1) by (simp add: wf_game_def wf_State_def wf_players_def Let_def)
  with p' show ?thesis by blast
qed





end
