(* ===== verification/Game_Manager.thy ===== *)
theory Game_Manager
  imports Game_Lifecycle
begin

text \<open>
  The manager of \<open>internal/game/manager.go\<close>: it creates games, lists the games of an actor and
  closes the questions whose answer deadline has passed. An engine is its game ID (the engine
  holds no other state), so \<open>Get\<close> and \<open>Create\<close> return the ID. \<open>RunDeadlines\<close> is the sequence of
  \<open>CloseDue\<close> calls at the times its ticker delivers before the context ends.
\<close>

section \<open>Operations\<close>

definition Manager_Create :: "'st StateStore \<Rightarrow> string \<Rightarrow> string \<Rightarrow> string \<Rightarrow> question list \<Rightarrow> EngineConfig \<Rightarrow> time \<Rightarrow> 'st
    \<Rightarrow> 'st \<times> (game_error + string)" where
  "Manager_Create S gameID ownerID questionListID questions cfg now st =
     (let s = \<lparr>s_ID = gameID, s_Status = GameStatusWaiting, s_OwnerID = ownerID, s_QuestionListID = questionListID,
               s_CreatedAt = now, s_Config = cfg, s_TotalQuestions = int (length questions), s_CurrentQIdx = -1,
               s_QuestionOpen = False, s_QuestionStart = zero_time, s_EndReason = '''', s_Players = fmempty,
               s_Current = None, s_Answers = fmempty\<rparr>
      in and_then (ss_Create S s questions st) (\<lambda>st' _. (st', Inr gameID)))"

definition Manager_Exists :: "'st StateStore \<Rightarrow> string \<Rightarrow> 'st \<Rightarrow> 'st \<times> (game_error + bool)" where
  "Manager_Exists S gameID st = ss_Exists S gameID st"

definition Manager_Get :: "'st StateStore \<Rightarrow> string \<Rightarrow> 'st \<Rightarrow> 'st \<times> (game_error + string)" where
  "Manager_Get S gameID st = and_then (ss_Exists S gameID st) (\<lambda>st' ok.
     (st', if ok then Inr gameID else Inl ErrGameNotFound))"

fun GamesOf_loop :: "'st StateStore \<Rightarrow> string list \<Rightarrow> 'st \<Rightarrow> 'st \<times> (game_error + State list)" where
  "GamesOf_loop S [] st = (st, Inr [])"
| "GamesOf_loop S (gid # ids) st =
     (case ss_Load S gid st of
        (st1, Inl e) \<Rightarrow> if e = ErrGameNotFound then GamesOf_loop S ids st1 else (st1, Inl e)
      | (st1, Inr s) \<Rightarrow> and_then (GamesOf_loop S ids st1) (\<lambda>st2 states. (st2, Inr (s # states))))"

text \<open>\<open>sort.SliceStable\<close> with \<open>CreatedAt.After\<close>: a stable sort, newest first.\<close>

definition GamesOf :: "'st StateStore \<Rightarrow> string \<Rightarrow> 'st \<Rightarrow> 'st \<times> (game_error + State list)" where
  "GamesOf S actorID st = and_then (ss_GamesOfActor S actorID st) (\<lambda>st1 ids.
     and_then (GamesOf_loop S ids st1) (\<lambda>st2 states.
       (st2, Inr (sort_key (\<lambda>s. - s_CreatedAt s) states))))"

definition dueBatch :: nat where
  "dueBatch = 100"

fun CloseDue_loop :: "'st StateStore \<Rightarrow> DueClose list \<Rightarrow> int \<Rightarrow> 'st \<Rightarrow> 'st \<times> effect list \<times> int" where
  "CloseDue_loop S [] closed st = (st, [], closed)"
| "CloseDue_loop S (d # ds) closed st =
     (case closeQuestion S (dc_GameID d) (dc_Index d) st of
        (st1, effs, r) \<Rightarrow>
          (case CloseDue_loop S ds (case r of Inr _ \<Rightarrow> closed + 1 | Inl _ \<Rightarrow> closed) st1 of
             (st2, effs2, n) \<Rightarrow> (st2, effs @ effs2, n)))"

definition CloseDue :: "'st StateStore \<Rightarrow> time \<Rightarrow> 'st \<Rightarrow> 'st \<times> effect list \<times> int" where
  "CloseDue S now st =
     (case ss_ClaimDueCloses S now dueBatch st of
        (st1, Inl e) \<Rightarrow> (st1, [], 0)
      | (st1, Inr due) \<Rightarrow> CloseDue_loop S due 0 st1)"

fun RunDeadlines :: "'st StateStore \<Rightarrow> time list \<Rightarrow> 'st \<Rightarrow> 'st \<times> effect list" where
  "RunDeadlines S [] st = (st, [])"
| "RunDeadlines S (now # ticks) st =
     (case CloseDue S now st of (st1, effs, _) \<Rightarrow>
        (case RunDeadlines S ticks st1 of (st2, effs2) \<Rightarrow> (st2, effs @ effs2)))"

section \<open>What a deadline close does\<close>

definition question_open :: "'st observer \<Rightarrow> 'st \<Rightarrow> string \<Rightarrow> int \<Rightarrow> bool" where
  "question_open V st gid i \<longleftrightarrow> (\<exists>g. ob_view V st gid = Some g \<and> s_QuestionOpen (ag_State g) \<and>
     s_CurrentQIdx (ag_State g) = i)"

definition games_ok :: "'st observer \<Rightarrow> 'st \<Rightarrow> bool" where
  "games_ok V st \<longleftrightarrow> (\<forall>gid g. ob_view V st gid = Some g \<longrightarrow> wf_game g)"

lemma wf_game_open:
  assumes "wf_game g" and "s_QuestionOpen (ag_State g)"
  shows "0 \<le> s_CurrentQIdx (ag_State g)" and "s_Status (ag_State g) = GameStatusRunning"
  using assms by (auto simp: wf_game_def wf_State_def wf_progress_def Let_def)

text \<open>
  A close by index while the store is up: afterwards that question is not open, and every other
  open question still is.
\<close>

lemma closes_up:
  assumes c: "closes V st st' gid i cr" and ne: "cr \<noteq> Inl ErrStorage" and wf: "games_ok V st" and i: "0 \<le> i"
    and up: "ob_up V st"
  shows "games_ok V st'" and "\<not> question_open V st' gid i"
    and "(gid', j) \<noteq> (gid, i) \<Longrightarrow> question_open V st' gid' j = question_open V st gid' j"
    and "gid' \<noteq> gid \<Longrightarrow> ob_view V st' gid' = ob_view V st gid'"
    and "ob_due V st' = (if isl cr then ob_due V st else (ob_due V st)((gid, i) := None))"
    and "\<not> isl cr \<longleftrightarrow> question_open V st gid i"
proof -
  have "games_ok V st' \<and> \<not> question_open V st' gid i \<and>
     (\<forall>gid' j. (gid', j) \<noteq> (gid, i) \<longrightarrow> question_open V st' gid' j = question_open V st gid' j) \<and>
     (\<forall>gid'. gid' \<noteq> gid \<longrightarrow> ob_view V st' gid' = ob_view V st gid') \<and>
     ob_due V st' = (if isl cr then ob_due V st else (ob_due V st)((gid, i) := None)) \<and>
     (\<not> isl cr \<longleftrightarrow> question_open V st gid i)"
  proof (cases "ob_view V st gid")
    case None
    with c have un: "unchanged V st st'" "isl cr" by (auto simp: closes_def)
    moreover have "\<not> question_open V st gid i" using None by (simp add: question_open_def)
    ultimately show ?thesis using wf by (simp add: unchanged_def question_open_def games_ok_def)
  next
    case (Some g)
    with c obtain s where s: "loaded g = Inr s" by (auto simp: closes_def split: sum.splits)
    note lf = loaded_fields[OF s]
    have wfg: "wf_game g" using wf Some by (simp add: games_ok_def)
    have op: "question_open V st gid j \<longleftrightarrow> s_QuestionOpen s \<and> s_CurrentQIdx s = j" for j
      using Some lf by (simp add: question_open_def)
    show ?thesis
    proof (cases "close_error i s")
      case (Some e)
      then have un: "unchanged V st st'" "isl cr"
        using c \<open>ob_view V st gid = Some g\<close> s by (auto simp: closes_def)
      have "\<not> question_open V st gid i"
        using Some i wf_game_open(2)[OF wfg] lf by (auto simp: op close_error_def split: if_splits)
      then show ?thesis using un wf by (simp add: unchanged_def question_open_def games_ok_def)
    next
      case None
      with c obtain g' cr' where cg: "close_game (ob_time V) s g = Some (g', cr')"
        and cr: "cr = Inr cr'" and v: "ob_view V st' = (ob_view V st)(gid \<mapsto> g')"
        and due: "ob_due V st' = (ob_due V st)((gid, s_CurrentQIdx s) := None)"
        using \<open>ob_view V st gid = Some g\<close> s ne up by (auto simp: closes_def split: option.splits)
      have idx: "s_CurrentQIdx s = i" "s_QuestionOpen s" using close_error_None[OF None] i by blast+
      have "game_step (ob_time V) g Close g'" using s None cg by (rule step_close)
      then have "\<not> s_QuestionOpen (ag_State g')" by (rule close_step_state[OF wfg])
      moreover have "wf_game g'" by (rule wf_game_close[OF wfg s None cg])
      ultimately show ?thesis
        using wf idx op v due Some lf by (auto simp: cr games_ok_def question_open_def)
    qed
  qed
  then show "games_ok V st'" and "\<not> question_open V st' gid i"
    and "(gid', j) \<noteq> (gid, i) \<Longrightarrow> question_open V st' gid' j = question_open V st gid' j"
    and "gid' \<noteq> gid \<Longrightarrow> ob_view V st' gid' = ob_view V st gid'"
    and "ob_due V st' = (if isl cr then ob_due V st else (ob_due V st)((gid, i) := None))"
    and "\<not> isl cr \<longleftrightarrow> question_open V st gid i" by blast+
qed

context state_store
begin

lemma CloseDue_loop_closes:
  assumes "ob_inv V st" and "ob_up V st" and "\<forall>gid. ob_lock V st gid = None" and "games_ok V st"
    and "distinct (map due_key ds)" and "\<forall>d \<in> set ds. 0 \<le> dc_Index d"
    and "CloseDue_loop S ds n st = (st', effs, m)"
  shows "ob_inv V st' \<and> ob_up V st' \<and> (\<forall>gid. ob_lock V st' gid = None) \<and> games_ok V st' \<and>
    (\<forall>gid i. question_open V st' gid i \<longleftrightarrow> question_open V st gid i \<and> (gid, i) \<notin> due_key ` set ds) \<and>
    ob_due V st' = drop_keys {k \<in> due_key ` set ds. question_open V st (fst k) (snd k)} (ob_due V st) \<and>
    (\<forall>gid. gid \<notin> dc_GameID ` set ds \<longrightarrow> ob_view V st' gid = ob_view V st gid) \<and>
    m = n + int (card {k \<in> due_key ` set ds. question_open V st (fst k) (snd k)})"
  using assms
proof (induction ds arbitrary: n st effs)
  case Nil
  then show ?case by (simp add: drop_keys_def fun_eq_iff)
next
  case (Cons d ds)
  obtain st1 effs1 r where cq: "closeQuestion S (dc_GameID d) (dc_Index d) st = (st1, effs1, r)"
    by (cases "closeQuestion S (dc_GameID d) (dc_Index d) st") auto
  define n1 where "n1 = (case r of Inr _ \<Rightarrow> n + 1 | Inl _ \<Rightarrow> n)"
  obtain effs2 where rest: "CloseDue_loop S ds n1 st1 = (st', effs2, m)"
    using Cons.prems(7) cq by (auto simp: n1_def split: prod.splits)
  have "ob_lock V st (dc_GameID d) = None" using Cons.prems(3) by blast
  have op: "ob_view V st (dc_GameID d) = Some g \<Longrightarrow> s_QuestionOpen (ag_State g) \<Longrightarrow> 0 \<le> s_CurrentQIdx (ag_State g)" for g
    using Cons.prems(4) wf_game_open(1) by (auto simp: games_ok_def)
  obtain cr where C: "ob_inv V st1"
    "ob_up V st \<longrightarrow> ob_up V st1 \<and> ob_lock V st1 = ob_lock V st \<and> r \<noteq> Inl ErrStorage"
    "closes V st st1 (dc_GameID d) (dc_Index d) cr" "r = map_sum id fst cr"
    "effs1 = (case cr of Inl e \<Rightarrow> [] | Inr c \<Rightarrow> close_events c @ [QuestionClosedHook (dc_GameID d) (fst c)])"
    by (rule closeQuestion_closes[OF Cons.prems(1) \<open>ob_lock V st (dc_GameID d) = None\<close> op cq])
  have up1: "ob_up V st1" "ob_lock V st1 = ob_lock V st" "cr \<noteq> Inl ErrStorage"
    using C(2) Cons.prems(2) C(4) by auto
  have i: "0 \<le> dc_Index d" using Cons.prems(6) by simp
  note CU = closes_up[OF C(3) up1(3) Cons.prems(4) i Cons.prems(2)]
  have lock1: "\<forall>gid. ob_lock V st1 gid = None" using up1(2) Cons.prems(3) by simp
  have dist: "distinct (map due_key ds)" "due_key d \<notin> due_key ` set ds" using Cons.prems(5) by auto
  have pos: "\<forall>d \<in> set ds. 0 \<le> dc_Index d" using Cons.prems(6) by simp
  note IH = Cons.IH[OF C(1) up1(1) lock1 CU(1) dist(1) pos rest]
  have q1: "question_open V st1 gid j \<longleftrightarrow> question_open V st gid j \<and> (gid, j) \<noteq> due_key d" for gid j
    using CU(2,3) by (cases "(gid, j) = due_key d") (auto simp: due_key_def)
  let ?A = "{k \<in> due_key ` set ds. question_open V st (fst k) (snd k)}"
  have A: "{k \<in> due_key ` set ds. question_open V st1 (fst k) (snd k)} = ?A"
    using dist(2) q1 by auto
  have B: "{k \<in> due_key ` set (d # ds). question_open V st (fst k) (snd k)} =
      (if question_open V st (dc_GameID d) (dc_Index d) then insert (due_key d) ?A else ?A)"
    by (auto simp: due_key_def)
  have isl: "isl cr \<longleftrightarrow> \<not> question_open V st (dc_GameID d) (dc_Index d)" using CU(6) by blast
  have n1: "n1 = n + (if question_open V st (dc_GameID d) (dc_Index d) then 1 else 0)"
    using isl C(4) by (cases cr) (auto simp: n1_def)
  have "finite ?A" "due_key d \<notin> ?A" using dist(2) by auto
  then have "m = n + int (card {k \<in> due_key ` set (d # ds). question_open V st (fst k) (snd k)})"
    using IH n1 unfolding A B by simp
  moreover have "ob_due V st' = drop_keys {k \<in> due_key ` set (d # ds). question_open V st (fst k) (snd k)} (ob_due V st)"
  proof -
    have "ob_due V st' = drop_keys ?A (ob_due V st1)" using IH unfolding A by blast
    moreover have "ob_due V st1 = (if question_open V st (dc_GameID d) (dc_Index d) then (ob_due V st)(due_key d := None) else ob_due V st)"
      using CU(5) isl by (auto simp: due_key_def)
    ultimately show ?thesis unfolding B by (auto simp: drop_keys_def fun_eq_iff)
  qed
  moreover have "\<forall>gid i. question_open V st' gid i \<longleftrightarrow> question_open V st gid i \<and> (gid, i) \<notin> due_key ` set (d # ds)"
    using IH q1 by auto
  moreover have "\<forall>gid. gid \<notin> dc_GameID ` set (d # ds) \<longrightarrow> ob_view V st' gid = ob_view V st gid"
    using IH CU(4) by simp
  ultimately show ?case using IH by blast
qed

end

context state_store
begin

text \<open>
  One \<open>CloseDue\<close> on a store that is up, with fewer than \<open>dueBatch\<close> deadlines reached: exactly the
  questions that were open with a deadline at or before \<open>now\<close> are closed, each is counted once,
  nothing else changes, and no such deadline is left.
\<close>

lemma CloseDue_closes:
  assumes inv: "ob_inv V st" and up: "ob_up V st" and free: "\<forall>gid. ob_lock V st gid = None" and ok: "games_ok V st"
    and pos: "\<forall>k \<in> dom (ob_due V st). 0 \<le> snd k"
    and few: "card {k. \<exists>t \<le> UnixMilli now. ob_due V st k = Some t} < dueBatch"
    and now: "exact_time now" and run: "CloseDue S now st = (st', effs, m)"
  defines "reached \<equiv> {k. \<exists>t \<le> UnixMilli now. ob_due V st k = Some t}"
  shows "ob_inv V st' \<and> ob_up V st' \<and> (\<forall>gid. ob_lock V st' gid = None) \<and> games_ok V st' \<and>
    (\<forall>gid i. question_open V st' gid i \<longleftrightarrow> question_open V st gid i \<and> (gid, i) \<notin> reached) \<and>
    ob_due V st' = drop_keys reached (ob_due V st) \<and>
    (\<forall>gid. gid \<notin> fst ` reached \<longrightarrow> ob_view V st' gid = ob_view V st gid) \<and>
    m = int (card {k \<in> reached. question_open V st (fst k) (snd k)})"
proof -
  obtain st1 c where cl: "ss_ClaimDueCloses S now dueBatch st = (st1, c)" by fastforce
  note C = ClaimDueCloses[OF inv now cl]
  have call: "call_ok V st st1 c" and v: "ob_view V st1 = ob_view V st" using C by blast+
  have c_ne: "c \<noteq> Inl ErrStorage" using call up by (simp add: call_ok_def)
  then obtain ds where ds: "c = Inr ds" "distinct (map due_key ds)" "length ds \<le> dueBatch"
    "\<forall>d \<in> set ds. \<exists>t \<le> UnixMilli now. ob_due V st (due_key d) = Some t"
    "length ds < dueBatch \<longrightarrow> (\<forall>k t. ob_due V st k = Some t \<longrightarrow> t \<le> UnixMilli now \<longrightarrow> k \<in> due_key ` set ds)"
    "ob_due V st1 = drop_keys (due_key ` set ds) (ob_due V st)"
    using C by blast
  have sub: "due_key ` set ds \<subseteq> reached" using ds(4) by (auto simp: reached_def)
  have fin: "finite reached"
    by (rule finite_subset[OF _ Due[OF inv]]) (auto simp: reached_def)
  have "length ds = card (due_key ` set ds)" using ds(2) by (metis distinct_card length_map list.set_map)
  also have "\<dots> \<le> card reached" using card_mono[OF fin sub] .
  finally have "length ds < dueBatch" using few by (simp add: reached_def)
  with ds(5) sub have keys: "due_key ` set ds = reached" unfolding reached_def by blast
  have ix: "\<forall>d \<in> set ds. 0 \<le> dc_Index d"
  proof
    fix d assume "d \<in> set ds"
    with ds(4) obtain t where "ob_due V st (due_key d) = Some t" by blast
    then have "due_key d \<in> dom (ob_due V st)" by blast
    with pos have "0 \<le> snd (due_key d)" by blast
    then show "0 \<le> dc_Index d" by (simp add: due_key_def)
  qed
  have run': "CloseDue_loop S ds 0 st1 = (st', effs, m)" using run cl ds(1) by (simp add: CloseDue_def)
  have inv1: "ob_inv V st1" "ob_up V st1" "\<forall>gid. ob_lock V st1 gid = None"
    using call up free by (auto simp: call_ok_def)
  have q1: "question_open V st1 = question_open V st" by (simp add: question_open_def fun_eq_iff v)
  have ok1: "games_ok V st1" using ok by (simp add: games_ok_def v)
  note L = CloseDue_loop_closes[OF inv1 ok1 ds(2) ix run']
  have games: "dc_GameID ` set ds = fst ` reached" by (simp add: keys[symmetric] due_key_def image_image)
  have due: "ob_due V st' = drop_keys reached (ob_due V st)"
  proof -
    have "ob_due V st' = drop_keys {k \<in> reached. question_open V st (fst k) (snd k)} (drop_keys reached (ob_due V st))"
      using L unfolding keys q1 by (metis ds(6) keys)
    then show ?thesis by (auto simp: drop_keys_def fun_eq_iff)
  qed
  show ?thesis
    using L due unfolding keys q1 games v by simp
qed

text \<open>
  Without a bound on the deadlines: a \<open>CloseDue\<close> closes \<open>dueBatch\<close> of the questions whose deadlines are
  reached, or all of them if they are fewer.
\<close>

lemma CloseDue_progress:
  assumes inv: "ob_inv V st" and up: "ob_up V st" and free: "\<forall>gid. ob_lock V st gid = None" and ok: "games_ok V st"
    and pos: "\<forall>k \<in> dom (ob_due V st). 0 \<le> snd k" and now: "exact_time now" and run: "CloseDue S now st = (st', effs, m)"
  obtains K where "K \<subseteq> {k. \<exists>t \<le> UnixMilli now. ob_due V st k = Some t}"
    and "K = {k. \<exists>t \<le> UnixMilli now. ob_due V st k = Some t} \<or> card K = dueBatch"
    and "ob_inv V st'" and "ob_up V st'" and "\<forall>gid. ob_lock V st' gid = None" and "games_ok V st'"
    and "\<forall>gid i. question_open V st' gid i \<longleftrightarrow> question_open V st gid i \<and> (gid, i) \<notin> K"
    and "ob_due V st' = drop_keys K (ob_due V st)"
proof -
  obtain st1 c where cl: "ss_ClaimDueCloses S now dueBatch st = (st1, c)" by fastforce
  note C = ClaimDueCloses[OF inv now cl]
  have call: "call_ok V st st1 c" and v: "ob_view V st1 = ob_view V st" using C by blast+
  have c_ne: "c \<noteq> Inl ErrStorage" using call up by (simp add: call_ok_def)
  then obtain ds where ds: "c = Inr ds" "distinct (map due_key ds)" "length ds \<le> dueBatch"
    "\<forall>d \<in> set ds. \<exists>t \<le> UnixMilli now. ob_due V st (due_key d) = Some t"
    "length ds < dueBatch \<longrightarrow> (\<forall>k t. ob_due V st k = Some t \<longrightarrow> t \<le> UnixMilli now \<longrightarrow> k \<in> due_key ` set ds)"
    "ob_due V st1 = drop_keys (due_key ` set ds) (ob_due V st)"
    using C by blast
  have ix: "\<forall>d \<in> set ds. 0 \<le> dc_Index d"
  proof
    fix d assume "d \<in> set ds"
    with ds(4) have "due_key d \<in> dom (ob_due V st)" by blast
    with pos have "0 \<le> snd (due_key d)" by blast
    then show "0 \<le> dc_Index d" by (simp add: due_key_def)
  qed
  have run': "CloseDue_loop S ds 0 st1 = (st', effs, m)" using run cl ds(1) by (simp add: CloseDue_def)
  have inv1: "ob_inv V st1" "ob_up V st1" "\<forall>gid. ob_lock V st1 gid = None"
    using call up free by (auto simp: call_ok_def)
  have q1: "question_open V st1 = question_open V st" by (simp add: question_open_def fun_eq_iff v)
  have ok1: "games_ok V st1" using ok by (simp add: games_ok_def v)
  note L = CloseDue_loop_closes[OF inv1 ok1 ds(2) ix run', unfolded q1]
  let ?K = "due_key ` set ds"
  have due: "ob_due V st' = drop_keys ?K (ob_due V st)"
    using L ds(6) by (auto simp: drop_keys_def fun_eq_iff)
  have card: "?K = {k. \<exists>t \<le> UnixMilli now. ob_due V st k = Some t} \<or> card ?K = dueBatch"
  proof (cases "length ds < dueBatch")
    case True
    then show ?thesis using ds(4,5) by blast
  next
    case False
    then show ?thesis using ds(2,3) by (metis distinct_card length_map linorder_neqE_nat list.set_map not_le)
  qed
  show thesis using L due card ds(4) by (intro that[of ?K]) auto
qed

text \<open>
  The loop of the deadlines: with enough ticks for the deadlines there are, every deadline that all ticks
  have reached is met, however many are due at once, and no question is closed before its deadline.
\<close>

lemma RunDeadlines_meets:
  assumes "ob_inv V st" and "ob_up V st" and "\<forall>gid. ob_lock V st gid = None" and "games_ok V st"
    and "\<forall>k \<in> dom (ob_due V st). 0 \<le> snd k" and "\<forall>now \<in> set ticks. exact_time now \<and> T \<le> UnixMilli now"
    and "(\<forall>k t. ob_due V st k = Some t \<longrightarrow> T < t) \<or> card (dom (ob_due V st)) \<le> dueBatch * length ticks"
    and "RunDeadlines S ticks st = (st', effs)"
  shows "(\<forall>k t. ob_due V st' k = Some t \<longrightarrow> ob_due V st k = Some t \<and> T < t) \<and>
    (\<forall>gid i. question_open V st' gid i \<longrightarrow> question_open V st gid i \<and> (\<forall>t. ob_due V st (gid, i) = Some t \<longrightarrow> T < t)) \<and>
    (\<forall>gid i. question_open V st gid i \<longrightarrow>
       (\<forall>t now. ob_due V st (gid, i) = Some t \<longrightarrow> now \<in> set ticks \<longrightarrow> UnixMilli now < t) \<longrightarrow> question_open V st' gid i)"
  using assms
proof (induction ticks arbitrary: st effs)
  case Nil
  have "finite (dom (ob_due V st))" by (rule Due[OF Nil.prems(1)])
  with Nil.prems(7) have "\<forall>k t. ob_due V st k = Some t \<longrightarrow> T < t" by auto
  with Nil.prems(8) show ?case by auto
next
  case (Cons now ticks)
  obtain st1 effs1 m where run: "CloseDue S now st = (st1, effs1, m)" by (cases "CloseDue S now st") auto
  obtain effs2 where rest: "RunDeadlines S ticks st1 = (st', effs2)"
    using Cons.prems(8) run by (auto split: prod.splits)
  have now: "exact_time now" "T \<le> UnixMilli now" using Cons.prems(6) by auto
  obtain K where K: "K \<subseteq> {k. \<exists>t \<le> UnixMilli now. ob_due V st k = Some t}"
    "K = {k. \<exists>t \<le> UnixMilli now. ob_due V st k = Some t} \<or> card K = dueBatch"
    and I: "ob_inv V st1" "ob_up V st1" "\<forall>gid. ob_lock V st1 gid = None" "games_ok V st1"
    and q: "\<forall>gid i. question_open V st1 gid i \<longleftrightarrow> question_open V st gid i \<and> (gid, i) \<notin> K"
    and due: "ob_due V st1 = drop_keys K (ob_due V st)"
    by (rule CloseDue_progress[OF Cons.prems(1-5) now(1) run])
  have dk: "ob_due V st1 k = (if k \<in> K then None else ob_due V st k)" for k by (simp add: due drop_keys_def)
  have dom1: "dom (ob_due V st1) = dom (ob_due V st) - K" by (auto simp: dom_def dk split: if_splits)
  have fin: "finite (dom (ob_due V st))" by (rule Due[OF Cons.prems(1)])
  have sub: "K \<subseteq> dom (ob_due V st)" using K(1) by blast
  have left: "(\<forall>k t. ob_due V st1 k = Some t \<longrightarrow> T < t) \<or> card (dom (ob_due V st1)) \<le> dueBatch * length ticks"
    using Cons.prems(7)
  proof
    assume "\<forall>k t. ob_due V st k = Some t \<longrightarrow> T < t"
    then show ?thesis by (simp add: dk)
  next
    assume few: "card (dom (ob_due V st)) \<le> dueBatch * length (now # ticks)"
    show ?thesis using K(2)
    proof
      assume all: "K = {k. \<exists>t \<le> UnixMilli now. ob_due V st k = Some t}"
      have "T < t" if "ob_due V st1 k = Some t" for k t
      proof -
        from that have "k \<notin> K" "ob_due V st k = Some t" by (auto simp: dk split: if_splits)
        then have "\<not> t \<le> UnixMilli now" using all by blast
        then show ?thesis using now(2) by simp
      qed
      then show ?thesis by blast
    next
      assume "card K = dueBatch"
      then have "card (dom (ob_due V st1)) = card (dom (ob_due V st)) - dueBatch"
        using dom1 sub fin by (simp add: card_Diff_subset finite_subset)
      then have "card (dom (ob_due V st1)) \<le> dueBatch * length ticks" using few by simp
      then show ?thesis by (rule disjI2)
    qed
  qed
  have pos1: "\<forall>k \<in> dom (ob_due V st1). 0 \<le> snd k" using Cons.prems(5) dom1 by blast
  have ticks: "\<forall>now \<in> set ticks. exact_time now \<and> T \<le> UnixMilli now" using Cons.prems(6) by simp
  note IH = Cons.IH[OF I pos1 ticks left rest]
  have a: "\<forall>k t. ob_due V st' k = Some t \<longrightarrow> ob_due V st k = Some t \<and> T < t"
  proof (intro allI impI)
    fix k t assume "ob_due V st' k = Some t"
    then have "ob_due V st1 k = Some t" "T < t" using IH by blast+
    then show "ob_due V st k = Some t \<and> T < t" by (simp add: dk split: if_splits)
  qed
  have b: "question_open V st gid i \<and> (\<forall>t. ob_due V st (gid, i) = Some t \<longrightarrow> T < t)" if o: "question_open V st' gid i" for gid i
  proof -
    have 1: "question_open V st1 gid i" "\<forall>t. ob_due V st1 (gid, i) = Some t \<longrightarrow> T < t" using IH o by blast+
    then have "question_open V st gid i" "(gid, i) \<notin> K" using q by blast+
    with 1(2) show ?thesis by (simp add: dk)
  qed
  have c: "question_open V st' gid i" if o: "question_open V st gid i"
    and t: "\<forall>t now'. ob_due V st (gid, i) = Some t \<longrightarrow> now' \<in> set (now # ticks) \<longrightarrow> UnixMilli now' < t" for gid i
  proof -
    have "(gid, i) \<notin> K" using K(1) t by fastforce
    then have "question_open V st1 gid i" "ob_due V st1 (gid, i) = ob_due V st (gid, i)" using o q by (auto simp: dk)
    moreover have "\<forall>t now'. ob_due V st1 (gid, i) = Some t \<longrightarrow> now' \<in> set ticks \<longrightarrow> UnixMilli now' < t"
      using t calculation(2) by simp
    ultimately show ?thesis using IH by blast
  qed
  from a b c show ?case by blast
qed

end

section \<open>Creating and finding games\<close>

context state_store
begin

lemma Manager_Create_creates:
  assumes inv: "ob_inv V st" and fresh: "ob_fresh V st gid"
    and i64: "int64 (InitialLives cfg)" "int64 (AnswerTimeoutSeconds cfg)" "int64 (int (length qs))"
      "int64 (UnixMilli now)"
    and run: "Manager_Create S gid own lid qs cfg now st = (st', r)"
  shows "write_ok V st st' gid (created (ob_time V) (initial_state gid own lid now (length qs) cfg) qs)
    (map_sum id (\<lambda>_. ()) r)" and "r \<in> {Inr gid, Inl ErrStorage}"
proof -
  let ?s = "initial_state gid own lid now (length qs) cfg"
  obtain st1 u where c: "ss_Create S ?s qs st = (st1, u)" by fastforce
  have "int64_state ?s"
    using i64 by (simp add: int64_state_def initial_state_def)
      (simp add: int64_def UnixMilli_def zero_time_def int64_min_def int64_max_def)
  then have W: "write_ok V st st1 gid (created (ob_time V) ?s qs) u"
    using Create[OF inv _ _ _ c] fresh by (simp add: initial_state_def)
  have "(st', r) = and_then (st1, u) (\<lambda>st' _. (st', Inr gid))"
    using run c by (simp add: Manager_Create_def initial_state_def Let_def)
  then show "write_ok V st st' gid (created (ob_time V) ?s qs) (map_sum id (\<lambda>_. ()) r)" and "r \<in> {Inr gid, Inl ErrStorage}"
    using W by (cases u; auto simp: write_ok_def call_ok_def)+
qed

lemma Manager_Get_finds:
  assumes inv: "ob_inv V st" and run: "Manager_Get S gid st = (st', r)"
  shows "call_ok V st st' r \<and> unchanged V st st' \<and>
    (r = Inl ErrStorage \<or> r = (if ob_view V st gid = None then Inl ErrGameNotFound else Inr gid))"
proof -
  obtain st1 b where e: "ss_Exists S gid st = (st1, b)" by fastforce
  have "(st', r) = and_then (st1, b) (\<lambda>st' ok. (st', if ok then Inr gid else Inl ErrGameNotFound))"
    using run e by (simp add: Manager_Get_def)
  then show ?thesis
    using Exists[OF inv e] by (cases b) (auto simp: call_ok_def)
qed

text \<open>The games of an actor: the states of stored games, newest first.\<close>

lemma GamesOf_loop_states:
  assumes "ob_inv V st" and "GamesOf_loop S ids st = (st', r)"
  shows "call_ok V st st' r \<and> unchanged V st st' \<and>
    (r = Inl ErrStorage \<or>
     r = Inr (List.map_filter (\<lambda>i. case load_view (ob_view V st i) of Inl _ \<Rightarrow> None | Inr s \<Rightarrow> Some s) ids))"
  using assms
proof (induction ids arbitrary: st st' r)
  case Nil
  then have "st' = st" "r = Inr []" by auto
  with Nil show ?case by (simp add: call_ok_def unchanged_def List.map_filter_simps)
next
  case (Cons i ids)
  obtain st1 a where l: "ss_Load S i st = (st1, a)" by fastforce
  note L = Load[OF Cons.prems(1) l]
  have inv1: "ob_inv V st1" and v1: "ob_view V st1 = ob_view V st" using L by (auto simp: call_ok_def unchanged_def)
  obtain st2 b where g: "GamesOf_loop S ids st1 = (st2, b)" by fastforce
  note IH = Cons.IH[OF inv1 g, unfolded v1]
  show ?case
  proof (cases a)
    case (Inr s)
    then have "load_view (ob_view V st i) = Inr s" using L by auto
    moreover have "(st', r) = and_then (st2, b) (\<lambda>st2 states. (st2, Inr (s # states)))"
      using Cons.prems(2) l Inr g by simp
    ultimately show ?thesis
      using L IH Inr by (cases b) (auto simp: call_ok_def unchanged_def List.map_filter_simps)
  next
    case (Inl e)
    show ?thesis
    proof (cases "e = ErrGameNotFound")
      case True
      then have "load_view (ob_view V st i) = Inl e" using L Inl by auto
      then show ?thesis
        using L IH Cons.prems(2) l Inl g True by (auto simp: call_ok_def unchanged_def List.map_filter_simps)
    next
      case False
      have "load_view (ob_view V st i) = Inl e \<Longrightarrow> e = ErrGameNotFound"
        using load_view_InlD[OF Cons.prems(1)] by blast
      then have "e = ErrStorage" using L Inl False by auto
      then show ?thesis using L Cons.prems(2) l Inl by (simp add: call_ok_def)
    qed
  qed
qed

lemma GamesOf_newest_first:
  assumes inv: "ob_inv V st" and run: "GamesOf S actor st = (st', Inr states)"
  shows "unchanged V st st' \<and> sorted (map (\<lambda>s. - s_CreatedAt s) states) \<and> distinct (map s_ID states) \<and>
    (\<forall>s \<in> set states. load_view (ob_view V st (s_ID s)) = Inr s)"
proof -
  obtain st1 ids where g: "ss_GamesOfActor S actor st = (st1, Inr ids)"
    and r: "and_then (GamesOf_loop S ids st1) (\<lambda>st2 states. (st2, Inr (sort_key (\<lambda>s. - s_CreatedAt s) states))) = (st', Inr states)"
    using run by (auto simp: GamesOf_def elim: and_then_InrE)
  note G = GamesOfActor[OF inv g]
  have inv1: "ob_inv V st1" and v1: "ob_view V st1 = ob_view V st" and d: "distinct ids"
    and ex: "\<forall>i \<in> set ids. ob_view V st i \<noteq> None"
    using G by (auto simp: call_ok_def unchanged_def)
  obtain st2 ss where l: "GamesOf_loop S ids st1 = (st2, Inr ss)" and st: "st' = st2"
    and srt: "states = sort_key (\<lambda>s. - s_CreatedAt s) ss"
    using r by (auto elim: and_then_InrE)
  let ?f = "\<lambda>i. case load_view (ob_view V st i) of Inl _ \<Rightarrow> None | Inr s \<Rightarrow> Some s"
  have ss: "ss = List.map_filter ?f ids" and un: "unchanged V st1 st2"
    using GamesOf_loop_states[OF inv1 l, unfolded v1] by auto
  have some: "\<exists>s. load_view (ob_view V st i) = Inr s \<and> s_ID s = i" if "i \<in> set ids" for i
  proof -
    have "ob_view V st i \<noteq> None" using ex that by blast
    then obtain gm where gm: "ob_view V st i = Some gm" by blast
    have "load_view (ob_view V st i) \<noteq> Inl e" for e
      using load_view_InlD[OF inv, of i e] gm by (metis option.distinct(1))
    then obtain s where s: "load_view (ob_view V st i) = Inr s" by (metis sum.exhaust)
    then have "s_ID s = i" using gm View[OF inv gm] loaded_fields(1)[of gm s] by simp
    with s show ?thesis by blast
  qed
  define h where "h = (\<lambda>i. case load_view (ob_view V st i) of Inr s \<Rightarrow> s)"
  have hid: "s_ID (h i) = i \<and> load_view (ob_view V st i) = Inr (h i) \<and> ?f i = Some (h i)" if i: "i \<in> set ids" for i
  proof -
    obtain s where "load_view (ob_view V st i) = Inr s" "s_ID s = i" using some[OF i] by blast
    then show ?thesis by (simp add: h_def)
  qed
  have sm: "ss = map h ids" unfolding ss by (rule map_filter_Some) (use hid in blast)
  have mp: "map s_ID ss = ids" unfolding sm map_map by (rule map_idI) (use hid in simp)
  moreover have "\<forall>s \<in> set ss. load_view (ob_view V st (s_ID s)) = Inr s"
    unfolding sm using hid by simp
  moreover have "distinct (map s_ID states)"
  proof -
    have "mset (map s_ID states) = mset (map s_ID ss)" by (simp add: srt)
    then show ?thesis using d mp mset_eq_imp_distinct_iff by metis
  qed
  ultimately show ?thesis
    using G un by (auto simp: st srt unchanged_def)
qed

end

end
