(* ===== verification/Redis_Memory.thy ===== *)
theory Redis_Memory
  imports Redis_Store Game_Manager
begin

text \<open>
  A server and a connection that keep the laws of \<open>Redis_Client\<close>: the database is changed as the
  commands are documented to, requests are delivered, lost or left without a reply as a list of
  outcomes says, and each takes a millisecond. The interpretation of \<open>redis_store\<close> on them makes
  every fact about the Redis store one about a program that can be run.
\<close>

section \<open>The server\<close>

fun mem_exec :: server where
  "mem_exec (HSET k fvs) t db =
     (if is_hash db k \<and> fvs \<noteq> []
      then (put k (RHash (fmupds fvs (hash db k))) db,
            RInt (int (length (filter (\<lambda>(f, _). f |\<notin>| fmdom (hash db k)) fvs))))
      else (db, RError))"
| "mem_exec (HSETNX k f v) t db =
     (if \<not> is_hash db k then (db, RError)
      else if f |\<in>| fmdom (hash db k) then (db, RInt 0)
      else (put k (RHash (fmupd f v (hash db k))) db, RInt 1))"
| "mem_exec (HGET k f) t db =
     (db, if is_hash db k then (case fmlookup (hash db k) f of None \<Rightarrow> RNil | Some v \<Rightarrow> RBulk v) else RError)"
| "mem_exec (HMGET k fs) t db = (db, if is_hash db k then RBulks (map (fmlookup (hash db k)) fs) else RError)"
| "mem_exec (HGETALL k) t db = (db, if is_hash db k then RFields (hash db k) else RError)"
| "mem_exec (EXISTS k) t db = (db, RInt (if rkeys db k = None then 0 else 1))"
| "mem_exec (EXPIRE k ttl) t db =
     (if 0 < ttl then (set_expiry k (t + whole_seconds ttl) db, RInt (if rkeys db k = None then 0 else 1))
      else (del k db, RInt (if rkeys db k = None then 0 else 1)))"
| "mem_exec (PEXPIRE k ttl) t db =
     (if 0 < ttl then (set_expiry k (t + ttl) db, RInt (if rkeys db k = None then 0 else 1))
      else (del k db, RInt (if rkeys db k = None then 0 else 1)))"
| "mem_exec (SETNX k v ttl) t db =
     (if rkeys db k = None then
        (let db1 = put k (RStr v) db in (if 0 < ttl then set_expiry k (t + UnixMilli ttl) db1 else db1, RInt 1))
      else (db, RInt 0))"
| "mem_exec (GET k) t db =
     (db, if is_str db k then (case str db k of None \<Rightarrow> RNil | Some v \<Rightarrow> RBulk (FText v)) else RError)"
| "mem_exec (DEL k) t db = (del k db, RInt (if rkeys db k = None then 0 else 1))"
| "mem_exec (ZADD k score m) t db =
     (if is_zset db k
      then (put k (RZSet (fmupd m score (zset db k))) db, RInt (if m |\<in>| fmdom (zset db k) then 0 else 1))
      else (db, RError))"
| "mem_exec (ZREM k members) t db =
     (if is_zset db k \<and> members \<noteq> []
      then (put_zset k (fmdrop_set (set members) (zset db k)) db,
            RInt (int (length (filter (\<lambda>m. m |\<in>| fmdom (zset db k)) members))))
      else (db, RError))"
| "mem_exec (ZRANGEBYSCORE k high limit) t db =
     (db, if is_zset db k
          then RMembers (take limit (filter (\<lambda>m. the (fmlookup (zset db k) m) \<le> float64 high) (zmembers (zset db k))))
          else RError)"
| "mem_exec (HINCRBY k f n) t db =
     (if \<not> is_hash db k then (db, RError)
      else case (case fmlookup (hash db k) f of None \<Rightarrow> Some 0 | Some (FText x) \<Rightarrow> (if itoa (atoi x) = x then Some (atoi x) else None)
                 | _ \<Rightarrow> None) of
             None \<Rightarrow> (db, RError)
           | Some i \<Rightarrow>
               if int64_min \<le> i + n \<and> i + n \<le> int64_max
               then (put k (RHash (fmupd f (FText (itoa (i + n))) (hash db k))) db, RInt (i + n))
               else (db, RError))"
| "mem_exec (PUBLISH ch msg) t db = (publish_log ch msg db, RInt 1)"
| "mem_exec (ZREVRANGE k) t db = (db, if is_zset db k then RMembers (rev (zmembers (zset db k))) else RError)"

section \<open>The connection\<close>

record mem_net =
  mn_outcomes :: "delivery list"
  mn_clock :: time
  mn_seed :: nat
  mn_cancelled :: bool

definition mem_send :: "mem_net \<Rightarrow> mem_net \<times> delivery" where
  "mem_send n = (case mn_outcomes n of
     [] \<Rightarrow> (n\<lparr>mn_clock := mn_clock n + 1000000\<rparr>, Delivered)
   | d # ds \<Rightarrow> (n\<lparr>mn_outcomes := ds, mn_clock := mn_clock n + 1000000\<rparr>, d))"

definition mem_conn :: "mem_net conn" where
  "mem_conn = \<lparr>cn_send = mem_send, cn_now = mn_clock,
     cn_sleep = (\<lambda>d n. n\<lparr>mn_clock := mn_clock n + max 0 d\<rparr>),
     cn_random = (\<lambda>n. (n\<lparr>mn_seed := mn_seed n + 1\<rparr>, itoa (int (mn_seed n)))),
     cn_done = mn_cancelled\<rparr>"

definition mem_up :: "mem_net \<Rightarrow> bool" where
  "mem_up n \<longleftrightarrow> mn_outcomes n = []"

definition mem_R :: "mem_net GameStateStore" where
  "mem_R = NewGameStateStore mem_exec mem_conn (7200 * 1000000000) (600 * 1000000000)"

interpretation mem: redis_store mem_R mem_up
proof
  show "\<exists>n. gs_exec mem_R (DEL k) t db = (del k db, RInt n)" for k t db
    by (simp add: mem_R_def NewGameStateStore_def)
qed (auto simp: mem_R_def NewGameStateStore_def mem_conn_def mem_send_def mem_up_def Let_def
    split: list.splits option.splits)

section \<open>A game on it\<close>

definition mem_net0 :: mem_net where
  "mem_net0 = \<lparr>mn_outcomes = [], mn_clock = 1700000000000000000, mn_seed = 0, mn_cancelled = False\<rparr>"

definition mem_empty :: "mem_net rstate" where
  "mem_empty = \<lparr>rs_db = \<lparr>rkeys = (\<lambda>_. None), rexpiry = (\<lambda>_. None), rlog = (\<lambda>_. [])\<rparr>, rs_net = mem_net0\<rparr>"

lemma db_ok_empty: "db_ok \<lparr>rkeys = (\<lambda>_. None), rexpiry = e, rlog = l\<rparr>"
  by (simp add: db_ok_def db_typed_def is_hash_def is_zset_def is_str_def game_ok_def hash_def zset_def)

end
