(* ===== verification/Redis_Properties.thy ===== *)
theory Redis_Properties
  imports Redis_Memory
begin

text \<open>
  The engine on Redis: the lemmas of \<open>Engine_Spec\<close> and \<open>Game_Manager\<close> about any store that keeps the
  contract, applied to the store of \<open>gamestate.go\<close>. The hypothesis \<open>redis_store R up\<close> is the server's
  and the connection's documented behaviour; \<open>idle_game\<close> says that the database has the shape every
  method keeps and that nobody holds the game's lock. The witnesses run on the in-memory server.
\<close>

definition idle_game :: "'n rstate \<Rightarrow> string \<Rightarrow> bool" where
  "idle_game st gid \<longleftrightarrow> db_ok (rs_db st) \<and> str (rs_db st) (lockKey gid) = None"

section \<open>A run on the in-memory server\<close>

abbreviation mem_S :: "mem_net rstate StateStore" where "mem_S \<equiv> gameStateStore mem_R"

definition mem_cfg :: EngineConfig where
  "mem_cfg = \<lparr>InitialLives = 1, AnswerTimeoutSeconds = 20\<rparr>"

definition mem_now :: time where "mem_now = 1700000000000000000"

definition mem_ag :: agame where
  "mem_ag = created (\<lambda>t. fromMS (ms t)) (initial_state ''g'' ''o'' ''l'' mem_now 1 mem_cfg) [ex_question]"

definition mem_game :: "mem_net rstate" where
  "mem_game = fst (Manager_Create mem_S ''g'' ''o'' ''l'' [ex_question] mem_cfg mem_now mem_empty)"

definition mem_joined :: "mem_net rstate" where
  "mem_joined = fst (AddPlayer mem_S ''g'' ''p'' ''P'' ''u'' mem_game)"

definition mem_started :: "mem_net rstate" where
  "mem_started = fst (StartNextQuestion mem_S ''g'' mem_now mem_joined)"

definition mem_answered :: "mem_net rstate" where
  "mem_answered = fst (SubmitAnswer mem_S ''g'' ''p'' ''q2'' ''a'' mem_started)"

definition mem_ok :: "mem_net rstate \<Rightarrow> bool" where
  "mem_ok st \<longleftrightarrow> db_ok (rs_db st) \<and> mem_up (rs_net st) \<and> (\<forall>g. str (rs_db st) (lockKey g) = None)"

lemma mem_ok_idle: "mem_ok st \<Longrightarrow> idle_game st g"
  by (simp add: mem_ok_def idle_game_def)

lemma mem_time_ok: "time_ok mem_now" "exact_time mem_now" "int64 (UnixMilli mem_now)"
  by (simp_all add: time_ok_def exact_time_def mem_now_def UnixMilli_def int64_def int64_min_def int64_max_def)

text \<open>An operation that implements its specification, on a store that is up.\<close>

lemma implements_up:
  assumes "implements (observer mem_up) st st' gid (Inr g) due r" and "mem_ok st"
  shows "mem_ok st' \<and> db_view (rs_db st') = (db_view (rs_db st))(gid \<mapsto> g) \<and> db_due (rs_db st') = due \<and> (\<exists>x. r = Inr x)"
proof -
  have "(\<lambda>g. str (rs_db st') (lockKey g)) = (\<lambda>g. str (rs_db st) (lockKey g))" "r \<noteq> Inl ErrStorage"
    using assms by (simp_all add: implements_def mem_ok_def)
  then show ?thesis
    using assms by (auto simp: implements_def achieves_def mem_ok_def fun_eq_iff)
qed

lemma mem_game_created: "mem_ok mem_game" "db_view (rs_db mem_game) = [''g'' \<mapsto> mem_ag]" "db_due (rs_db mem_game) = Map.empty"
proof -
  have ok0: "db_ok (rs_db mem_empty)" using db_ok_empty by (simp add: mem_empty_def)
  have fr: "db_fresh (rs_db mem_empty) ''g''" by (simp add: db_fresh_def mem_empty_def)
  have v0: "db_view (rs_db mem_empty) = Map.empty" "db_due (rs_db mem_empty) = Map.empty"
    by (simp_all add: db_view_def db_due_def hash_def zset_def mem_empty_def fun_eq_iff)
  have i: "int64 1" "int64 20" by (simp_all add: int64_def int64_min_def int64_max_def)
  obtain r where run: "Manager_Create mem_S ''g'' ''o'' ''l'' [ex_question] mem_cfg mem_now mem_empty = (mem_game, r)"
    by (simp add: mem_game_def) (metis prod.collapse)
  have W: "write_ok (observer mem_up) mem_empty mem_game ''g'' mem_ag (map_sum id (\<lambda>_. ()) r)"
    using mem.games.Manager_Create_creates(1)[OF _ _ _ _ _ _ run] ok0 fr i mem_time_ok(3)
    by (simp add: mem_cfg_def mem_ag_def)
  have "mem_up (rs_net mem_empty)" "\<forall>g. str (rs_db mem_empty) (lockKey g) = None"
    by (simp_all add: mem_up_def mem_empty_def mem_net0_def str_def)
  then show "mem_ok mem_game" "db_view (rs_db mem_game) = [''g'' \<mapsto> mem_ag]" "db_due (rs_db mem_game) = Map.empty"
    using W v0 by (cases r; auto simp: write_ok_def call_ok_def wrote_def mem_ok_def fun_eq_iff)+
qed

definition mem_ag_joined :: agame where
  "mem_ag_joined = put_players ''g'' [new_player ''p'' ''P'' 1 ''g'' ''u''] mem_ag"

definition mem_ag_started :: agame where
  "mem_ag_started = put_progress (\<lambda>t. fromMS (ms t)) (started mem_now ex_question (ag_State mem_ag_joined)) mem_ag_joined"

definition mem_ag_answered :: agame where
  "mem_ag_answered = mem_ag_started\<lparr>ag_Answers := (\<lambda>_. fmempty)(0 := fmupd ''p'' ''a'' fmempty)\<rparr>"

lemmas mem_ag_defs = mem_ag_answered_def mem_ag_started_def mem_ag_joined_def mem_ag_def mem_cfg_def
  created_def initial_state_def put_players_def put_progress_def started_def new_player_def

lemma mem_specs:
  "add_spec ''g'' ''p'' ''P'' ''u'' mem_ag = Inr mem_ag_joined"
  "start_spec (\<lambda>t. fromMS (ms t)) mem_now mem_ag_joined = Inr mem_ag_started"
  "submit_spec ''p'' ''q2'' ''a'' mem_ag_started = Inr mem_ag_answered"
proof -
  show "add_spec ''g'' ''p'' ''P'' ''u'' mem_ag = Inr mem_ag_joined"
    by (simp add: add_spec_def Let_def mem_ag_defs)
  show "start_spec (\<lambda>t. fromMS (ms t)) mem_now mem_ag_joined = Inr mem_ag_started"
    by (simp add: start_spec_def start_error_def Let_def mem_ag_defs)
  show "submit_spec ''p'' ''q2'' ''a'' mem_ag_started = Inr mem_ag_answered"
    by (simp add: submit_spec_def loaded_def submit_check_def record_spec_def Let_def mem_ag_defs
        hasOption_def ex_question_def fun_eq_iff)
qed

lemma mem_started_due:
  "started_due ''g'' mem_now mem_ag_joined Map.empty = [(''g'', 0) \<mapsto> UnixMilli (mem_now + duration_seconds 20)]"
  by (simp add: started_due_def mem_ag_defs Let_def)

lemma mem_joined_view: "mem_ok mem_joined" "db_view (rs_db mem_joined) = [''g'' \<mapsto> mem_ag_joined]"
    "db_due (rs_db mem_joined) = Map.empty"
proof -
  obtain effs r where run: "AddPlayer mem_S ''g'' ''p'' ''P'' ''u'' mem_game = (mem_joined, effs, r)"
    by (simp add: mem_joined_def) (metis prod.collapse)
  have "implements (observer mem_up) mem_game mem_joined ''g'' (Inr mem_ag_joined) (db_due (rs_db mem_game)) r"
    using mem.games.AddPlayer_implements[OF _ _ run] mem_game_created
    by (simp add: mem_ok_def at_game_def mem_specs)
  from implements_up[OF this mem_game_created(1)] mem_game_created(2,3)
  show "mem_ok mem_joined" "db_view (rs_db mem_joined) = [''g'' \<mapsto> mem_ag_joined]"
    "db_due (rs_db mem_joined) = Map.empty" by simp_all
qed

lemma mem_started_view: "mem_ok mem_started" "db_view (rs_db mem_started) = [''g'' \<mapsto> mem_ag_started]"
    "db_due (rs_db mem_started) = [(''g'', 0) \<mapsto> UnixMilli (mem_now + duration_seconds 20)]"
proof -
  obtain effs r where run: "StartNextQuestion mem_S ''g'' mem_now mem_joined = (mem_started, effs, r)"
    by (simp add: mem_started_def) (metis prod.collapse)
  have "implements (observer mem_up) mem_joined mem_started ''g'' (Inr mem_ag_started) (started_due ''g'' mem_now mem_ag_joined (db_due (rs_db mem_joined))) r"
    using mem.games.StartNextQuestion_implements[OF _ _ mem_time_ok(1) run] mem_joined_view
    by (simp add: mem_ok_def at_game_def mem_specs)
  from implements_up[OF this mem_joined_view(1)] mem_joined_view(2,3) mem_started_due
  show "mem_ok mem_started" "db_view (rs_db mem_started) = [''g'' \<mapsto> mem_ag_started]"
    "db_due (rs_db mem_started) = [(''g'', 0) \<mapsto> UnixMilli (mem_now + duration_seconds 20)]" by simp_all
qed

lemma mem_answered_view: "mem_ok mem_answered" "db_view (rs_db mem_answered) = [''g'' \<mapsto> mem_ag_answered]"
    "db_due (rs_db mem_answered) = [(''g'', 0) \<mapsto> UnixMilli (mem_now + duration_seconds 20)]"
proof -
  obtain effs r where run: "SubmitAnswer mem_S ''g'' ''p'' ''q2'' ''a'' mem_started = (mem_answered, effs, r)"
    by (simp add: mem_answered_def) (metis prod.collapse)
  have "implements (observer mem_up) mem_started mem_answered ''g'' (Inr mem_ag_answered) (db_due (rs_db mem_started)) r"
    using mem.games.SubmitAnswer_implements[OF _ run] mem_started_view
    by (simp add: mem_ok_def at_game_def mem_specs)
  from implements_up[OF this mem_started_view(1)] mem_started_view(2,3)
  show "mem_ok mem_answered" "db_view (rs_db mem_answered) = [''g'' \<mapsto> mem_ag_answered]"
    "db_due (rs_db mem_answered) = [(''g'', 0) \<mapsto> UnixMilli (mem_now + duration_seconds 20)]" by simp_all
qed

section \<open>Properties\<close>

text \<open>
  C9: joining a game. \<open>AddPlayer\<close> on Redis does what \<open>add_spec\<close> says of the stored game: rejected
  unless the game is waiting and the player ID is new, otherwise the player is stored with the
  initial lives and everybody is told; a storage error leaves the game as it was or with the
  player, tells nobody and cannot happen while the store is up.
\<close>

theorem redis_add_player:
  assumes "redis_store R up" and "idle_game st gid"
    and "AddPlayer (gameStateStore R) gid pid name actorID st = (st', effs, r)"
  shows "implements (observer up) st st' gid (at_game (add_spec gid pid name actorID) (db_view (rs_db st) gid))
      (db_due (rs_db st)) r
    \<and> effs = (if r = Inr () then [Broadcast (EventPlayerJoined pid name
        (InitialLives (s_Config (ag_State (the (db_view (rs_db st) gid))))))] else [])"
proof -
  have S: "state_store (gameStateStore R) (observer up)" using redis_store.is_state_store[OF assms(1)] .
  show ?thesis
    using state_store.AddPlayer_implements[OF S _ _ assms(3)] state_store.AddPlayer_events[OF S _ _ assms(3)] assms(2)
    by (simp add: idle_game_def)
qed

theorem redis_add_player_witness:
  "\<exists>st' effs. AddPlayer mem_S ''g'' ''p'' ''P'' ''u'' mem_game = (st', effs, Inr ()) \<and>
     db_view (rs_db st') ''g'' = Some mem_ag_joined \<and> effs = [Broadcast (EventPlayerJoined ''p'' ''P'' 1)]"
proof -
  obtain st' effs r where run: "AddPlayer mem_S ''g'' ''p'' ''P'' ''u'' mem_game = (st', effs, r)"
    by (metis prod.collapse)
  note T = redis_add_player[OF mem.redis_store_axioms mem_ok_idle[OF mem_game_created(1)] run]
  have "implements (observer mem_up) mem_game st' ''g'' (Inr mem_ag_joined) (db_due (rs_db mem_game)) r"
    using T mem_game_created(2) by (simp add: at_game_def mem_specs)
  from implements_up[OF this mem_game_created(1)] have "db_view (rs_db st') ''g'' = Some mem_ag_joined" "r = Inr ()"
    by auto
  moreover have "InitialLives (s_Config (ag_State mem_ag)) = 1" by (simp add: mem_ag_defs)
  ultimately show ?thesis using run T mem_game_created(2) by simp
qed

text \<open>
  C10: starting a question. \<open>StartNextQuestion\<close> on Redis does what \<open>start_spec\<close> says: refused when
  the game is over, a question is open or none is left, otherwise the next question of the list is
  open, running from \<open>now\<close>, its payload is broadcast, and its answer deadline is registered if the
  game has a timeout (\<open>started_due\<close>).
\<close>

theorem redis_start_question:
  assumes "redis_store R up" and "idle_game st gid" and "time_ok now"
    and "StartNextQuestion (gameStateStore R) gid now st = (st', effs, r)"
  shows "implements (observer up) st st' gid (at_game (start_spec (\<lambda>t. fromMS (ms t)) now) (db_view (rs_db st) gid))
      (started_due gid now (the (db_view (rs_db st) gid)) (db_due (rs_db st))) r
    \<and> (r = Inr () \<longrightarrow> (\<exists>g q p. db_view (rs_db st) gid = Some g \<and>
          ag_Question g (s_CurrentQIdx (ag_State g) + 1) = Some q \<and> questionPayload (started now q (ag_State g)) = Some p \<and> effs = [Broadcast (EventQuestionStarted p)]))
    \<and> (r \<noteq> Inr () \<longrightarrow> effs = [])"
proof -
  have S: "state_store (gameStateStore R) (observer up)" using redis_store.is_state_store[OF assms(1)] .
  show ?thesis
    using state_store.StartNextQuestion_implements[OF S _ _ assms(3,4)]
      state_store.StartNextQuestion_events[OF S _ _ assms(4)] assms(2)
    by (simp add: idle_game_def)
qed

theorem redis_start_question_witness:
  "\<exists>st' effs. StartNextQuestion mem_S ''g'' mem_now mem_joined = (st', effs, Inr ()) \<and>
     db_view (rs_db st') ''g'' = Some mem_ag_started \<and> effs \<noteq> []"
proof -
  obtain st' effs r where run: "StartNextQuestion mem_S ''g'' mem_now mem_joined = (st', effs, r)"
    by (metis prod.collapse)
  note T = redis_start_question[OF mem.redis_store_axioms mem_ok_idle[OF mem_joined_view(1)] mem_time_ok(1) run]
  have "implements (observer mem_up) mem_joined st' ''g'' (Inr mem_ag_started) (started_due ''g'' mem_now mem_ag_joined (db_due (rs_db mem_joined))) r"
    using T mem_joined_view(2) by (simp add: at_game_def mem_specs)
  from implements_up[OF this mem_joined_view(1)] have "db_view (rs_db st') ''g'' = Some mem_ag_started" "r = Inr ()"
    by auto
  then show ?thesis using run T by auto
qed



text \<open>
  C11: answering. \<open>SubmitAnswer\<close> on Redis records the answer exactly when the game runs, the player
  is active, the named question is the open one, the option is one of its options and the player
  has no answer yet; otherwise it returns the error of the first of these that fails and records
  nothing. The first answer is never replaced.
\<close>

theorem redis_submit_answer:
  assumes "redis_store R up" and "db_ok (rs_db st)"
    and "SubmitAnswer (gameStateStore R) gid pid qid oid st = (st', effs, r)"
  shows "implements (observer up) st st' gid (at_game (submit_spec pid qid oid) (db_view (rs_db st) gid))
      (db_due (rs_db st)) r
    \<and> effs = (if r = Inr () then [Broadcast (EventAnswerSubmitted pid qid)] else [])"
proof -
  have S: "state_store (gameStateStore R) (observer up)" using redis_store.is_state_store[OF assms(1)] .
  have "effs = (if r = Inr () then [Broadcast (EventAnswerSubmitted pid qid)] else [])"
    using assms(3) by (auto simp: SubmitAnswer_def split: prod.splits sum.splits)
  then show ?thesis
    using state_store.SubmitAnswer_implements[OF S _ assms(3)] assms(2) by simp
qed

theorem redis_submit_answer_witness:
  "\<exists>st' effs. SubmitAnswer mem_S ''g'' ''p'' ''q2'' ''a'' mem_started = (st', effs, Inr ()) \<and>
     db_view (rs_db st') ''g'' = Some mem_ag_answered \<and> effs = [Broadcast (EventAnswerSubmitted ''p'' ''q2'')]"
proof -
  obtain st' effs r where run: "SubmitAnswer mem_S ''g'' ''p'' ''q2'' ''a'' mem_started = (st', effs, r)"
    by (metis prod.collapse)
  have ok: "db_ok (rs_db mem_started)" using mem_started_view(1) by (simp add: mem_ok_def)
  note T = redis_submit_answer[OF mem.redis_store_axioms ok run]
  have "implements (observer mem_up) mem_started st' ''g'' (Inr mem_ag_answered) (db_due (rs_db mem_started)) r"
    using T mem_started_view(2) by (simp add: at_game_def mem_specs)
  from implements_up[OF this mem_started_view(1)] have "db_view (rs_db st') ''g'' = Some mem_ag_answered" "r = Inr ()"
    by auto
  then show ?thesis using run T by auto
qed

text \<open>
  C12: closing a question. \<open>closeQuestion\<close> on Redis, for a well-formed game: refused when nothing is
  open (or, for a deadline, when another question is); otherwise the stored game becomes the one of
  \<open>close_game\<close>, the deadline is dropped, and the events are sent in the order question_closed, one
  life_lost to each penalised player, player_eliminated, game_over, then the manager's hook runs.
  A storage error sends nothing and stops before the close, between the close and the penalties, or
  after them; it cannot happen while the store is up.
\<close>

theorem redis_close_question:
  assumes "redis_store R up" and "idle_game st gid"
    and "\<And>g. db_view (rs_db st) gid = Some g \<Longrightarrow> wf_game g"
    and "closeQuestion (gameStateStore R) gid onlyIdx st = (st', effs, r)"
  shows "\<exists>cr. closes (observer up) st st' gid onlyIdx cr \<and> r = map_sum id fst cr \<and>
      effs = (case cr of Inl e \<Rightarrow> [] | Inr c \<Rightarrow> close_events c @ [QuestionClosedHook gid (fst c)]) \<and>
      db_ok (rs_db st') \<and> (up (rs_net st) \<longrightarrow> r \<noteq> Inl ErrStorage \<and> up (rs_net st') \<and> idle_game st' gid)"
proof -
  have S: "state_store (gameStateStore R) (observer up)" using redis_store.is_state_store[OF assms(1)] .
  have i: "ob_inv (observer up) st" "ob_lock (observer up) st gid = None" using assms(2) by (simp_all add: idle_game_def)
  have o: "ob_view (observer up) st gid = Some g \<Longrightarrow> s_QuestionOpen (ag_State g) \<Longrightarrow> 0 \<le> s_CurrentQIdx (ag_State g)" for g
    using assms(3) wf_game_open(1) by simp
  obtain cr where C: "ob_inv (observer up) st'"
    "ob_up (observer up) st \<longrightarrow> ob_up (observer up) st' \<and> ob_lock (observer up) st' = ob_lock (observer up) st \<and> r \<noteq> Inl ErrStorage"
    "closes (observer up) st st' gid onlyIdx cr" "r = map_sum id fst cr"
    "effs = (case cr of Inl e \<Rightarrow> [] | Inr c \<Rightarrow> close_events c @ [QuestionClosedHook gid (fst c)])"
    by (rule state_store.closeQuestion_closes[OF S i o assms(4)])
  have "idle_game st' gid" if "up (rs_net st)"
    using C(1,2) that assms(2) by (auto simp: idle_game_def fun_eq_iff)
  then show ?thesis using C by (intro exI[of _ cr]) simp
qed

theorem redis_close_question_witness:
  "\<exists>st' effs c. closeQuestion mem_S ''g'' 0 mem_answered = (st', effs, Inr c) \<and> idle_game st' ''g'' \<and> effs \<noteq> []"
proof -
  obtain st' effs r where run: "closeQuestion mem_S ''g'' 0 mem_answered = (st', effs, r)"
    by (metis prod.collapse)
  have wf: "wf_game mem_ag_answered"
    by (auto simp: wf_game_def wf_State_def wf_players_def wf_player_def wf_progress_def Let_def mem_ag_defs split: if_splits)
  obtain cr where T: "closes (observer mem_up) mem_answered st' ''g'' 0 cr" "r = map_sum id fst cr"
    "effs = (case cr of Inl e \<Rightarrow> [] | Inr c \<Rightarrow> close_events c @ [QuestionClosedHook ''g'' (fst c)])"
    "mem_up (rs_net mem_answered) \<longrightarrow> r \<noteq> Inl ErrStorage \<and> mem_up (rs_net st') \<and> idle_game st' ''g''"
    using redis_close_question[OF mem.redis_store_axioms mem_ok_idle[OF mem_answered_view(1)] _ run]
      mem_answered_view(2) wf by auto
  have up: "mem_up (rs_net mem_answered)" using mem_answered_view(1) by (simp add: mem_ok_def)
  have "\<exists>s. loaded mem_ag_answered = Inr s \<and> s_Status s = GameStatusRunning \<and> s_QuestionOpen s \<and> s_CurrentQIdx s = 0"
    by (simp add: loaded_def Let_def mem_ag_defs)
  then obtain s where s: "loaded mem_ag_answered = Inr s" "close_error 0 s = None" by (auto simp: close_error_def)
  have "\<exists>c. cr = Inr c"
    using T(1,2,4) up s mem_answered_view(2) by (auto simp: closes_def split: option.splits)
  then show ?thesis using run T up by auto
qed



text \<open>
  C2: every answer deadline is met. On a store that is up and whose games are well formed, let
  \<open>RunDeadlines\<close> tick often enough for the deadlines registered (\<open>dueBatch\<close> of them per tick), every
  tick at or after \<open>T\<close>. Then no deadline at or before \<open>T\<close> is left and no question with such a deadline is
  open, however many questions were due at once; no question was opened, and none was closed before its
  deadline or without one.
\<close>

theorem redis_deadlines_met:
  assumes "redis_store R up" and "db_ok (rs_db st)" and "up (rs_net st)" and "\<forall>gid. str (rs_db st) (lockKey gid) = None"
    and "\<forall>gid g. db_view (rs_db st) gid = Some g \<longrightarrow> wf_game g"
    and "\<forall>gid i t. db_due (rs_db st) (gid, i) = Some t \<longrightarrow> 0 \<le> i"
    and "\<forall>now \<in> set ticks. exact_time now \<and> T \<le> UnixMilli now"
    and "card (dom (db_due (rs_db st))) \<le> dueBatch * length ticks"
    and "RunDeadlines (gameStateStore R) ticks st = (st', effs)"
  shows "(\<forall>k t. db_due (rs_db st') k = Some t \<longrightarrow> db_due (rs_db st) k = Some t \<and> T < t)
    \<and> (\<forall>gid i. question_open (observer up) st' gid i \<longrightarrow> question_open (observer up) st gid i \<and>
         (\<forall>t. db_due (rs_db st) (gid, i) = Some t \<longrightarrow> T < t))
    \<and> (\<forall>gid i. question_open (observer up) st gid i \<longrightarrow>
         (\<forall>t now. db_due (rs_db st) (gid, i) = Some t \<longrightarrow> now \<in> set ticks \<longrightarrow> UnixMilli now < t) \<longrightarrow>
         question_open (observer up) st' gid i)"
proof -
  have S: "state_store (gameStateStore R) (observer up)" using redis_store.is_state_store[OF assms(1)] .
  have H: "ob_inv (observer up) st" "ob_up (observer up) st" "\<forall>gid. ob_lock (observer up) st gid = None"
    "games_ok (observer up) st"
    using assms(2-5) by (simp_all add: games_ok_def)
  have D: "\<forall>k \<in> dom (ob_due (observer up) st). 0 \<le> snd k"
  proof
    fix k assume "k \<in> dom (ob_due (observer up) st)"
    then obtain t where "db_due (rs_db st) (fst k, snd k) = Some t" by auto
    then show "0 \<le> snd k" using assms(6) by blast
  qed
  have few: "(\<forall>k t. ob_due (observer up) st k = Some t \<longrightarrow> T < t) \<or>
      card (dom (ob_due (observer up) st)) \<le> dueBatch * length ticks"
    using assms(8) by simp
  from state_store.RunDeadlines_meets[OF S H D assms(7) few assms(9)] show ?thesis by simp
qed

theorem redis_deadlines_met_witness:
  "\<exists>st' effs. RunDeadlines mem_S [mem_now + duration_seconds 20] mem_answered = (st', effs) \<and>
     question_open (observer mem_up) mem_answered ''g'' 0 \<and> \<not> question_open (observer mem_up) st' ''g'' 0"
proof -
  let ?now = "mem_now + duration_seconds 20"
  obtain st' effs where run: "RunDeadlines mem_S [?now] mem_answered = (st', effs)" by (metis prod.collapse)
  have wf: "wf_game mem_ag_answered"
    by (auto simp: wf_game_def wf_State_def wf_players_def wf_player_def wf_progress_def Let_def mem_ag_defs split: if_splits)
  have mo: "db_ok (rs_db mem_answered)" "mem_up (rs_net mem_answered)" "\<forall>g. str (rs_db mem_answered) (lockKey g) = None"
    using mem_answered_view(1) by (simp_all add: mem_ok_def)
  have q: "question_open (observer mem_up) mem_answered ''g'' 0"
    by (simp add: question_open_def mem_answered_view(2)) (simp add: mem_ag_defs)
  have w: "\<forall>gid g. db_view (rs_db mem_answered) gid = Some g \<longrightarrow> wf_game g"
    using wf by (simp add: mem_answered_view(2) split: if_splits)
  have d: "\<forall>gid i t. db_due (rs_db mem_answered) (gid, i) = Some t \<longrightarrow> 0 \<le> i"
    by (simp add: mem_answered_view(3) split: if_splits)
  have c: "card (dom (db_due (rs_db mem_answered))) \<le> dueBatch * length [?now]"
    by (simp add: mem_answered_view(3) dueBatch_def)
  have t: "\<forall>now \<in> set [?now]. exact_time now \<and> UnixMilli ?now \<le> UnixMilli now"
    using exact_deadline[OF mem_time_ok(1)] by simp
  obtain t where due: "db_due (rs_db mem_answered) (''g'', 0) = Some t" "t \<le> UnixMilli ?now"
    by (auto simp: mem_answered_view(3))
  note T = redis_deadlines_met[OF mem.redis_store_axioms mo w d t c run]
  have "\<not> question_open (observer mem_up) st' ''g'' 0" using T due by (meson not_le)
  with run q show ?thesis by blast
qed

section \<open>The lock\<close>

lemma request_now:
  assumes "redis_conn L up" and "request L f st = (st1, a)"
  shows "cn_now L (rs_net st) \<le> cn_now L (rs_net st1)"
proof -
  obtain n d where s: "cn_send L (rs_net st) = (n, d)" by fastforce
  have "rs_net st1 = n" using assms(2) s by (auto simp: request_def Let_def split: prod.splits delivery.splits)
  then show ?thesis using redis_conn.now_send[OF assms(1) s] by simp
qed

text \<open>The bound on the attempts is never reached: each waits at least two milliseconds.\<close>

lemma Lock_loop_returns:
  assumes C: "redis_conn (gs_conn R) up" and "2000000 \<le> delay" and "0 < fuel"
    and "deadline < cn_now (gs_conn R) (rs_net st) + 2000000 * (int fuel - 1)"
  shows "Lock_loop R key token deadline delay fuel st \<noteq> None"
  using assms(2-4)
proof (induction fuel arbitrary: delay st)
  case (Suc fuel)
  let ?L = "gs_conn R"
  obtain st1 a where q: "request ?L (gs_exec R (SETNX key token (gs_lockTTL R))) st = (st1, a)" by fastforce
  have now1: "cn_now ?L (rs_net st) \<le> cn_now ?L (rs_net st1)" by (rule request_now[OF C q])
  let ?st2 = "st1\<lparr>rs_net := cn_sleep ?L delay (rs_net st1)\<rparr>"
  have now2: "cn_now ?L (rs_net st1) + delay \<le> cn_now ?L (rs_net ?st2)"
    using redis_conn.now_sleep[OF C, of delay "rs_net st1"] Suc.prems(1) by simp
  have rec: "Lock_loop R key token deadline (if delay < 50000000 then delay * 2 else delay) fuel ?st2 \<noteq> None"
    if "\<not> deadline < cn_now ?L (rs_net st1)"
  proof (rule Suc.IH)
    show "0 < fuel" using that now1 Suc.prems(3) by (cases fuel) auto
    show "deadline < cn_now ?L (rs_net ?st2) + 2000000 * (int fuel - 1)"
      using Suc.prems(1,3) now1 now2 by (simp add: algebra_simps)
  qed (use Suc.prems(1) in auto)
  then show ?case
    using q by (auto split: sum.splits reply.splits)
qed simp

lemma Lock_loop_held:
  assumes "redis_server (gs_exec R)" and "0 < gs_lockTTL R" and "rkeys (rs_db st) key \<noteq> None"
    and "Lock_loop R key token deadline delay fuel st = Some (st', l)"
  shows "rs_db st' = rs_db st \<and> (l = Inl ErrStorage \<or> l = Inl ErrContext \<or>
    l = Inl ErrBusy \<and> deadline < cn_now (gs_conn R) (rs_net st'))"
  using assms(3,4)
proof (induction fuel arbitrary: delay st)
  case (Suc fuel)
  let ?L = "gs_conn R"
  obtain st1 a where q: "request ?L (gs_exec R (SETNX key token (gs_lockTTL R))) st = (st1, a)" by fastforce
  have "gs_exec R (SETNX key token (gs_lockTTL R)) t (rs_db st) = (rs_db st, RInt 0)" for t
    using redis_server.setnx[OF assms(1,2)] Suc.prems(1) by auto
  then have st1: "rs_db st1 = rs_db st \<and> (a = Inr (RInt 0) \<or> a = Inl ErrStorage)"
    using q by (auto simp: request_def Let_def split: prod.splits delivery.splits)
  show ?case
  proof (cases "a = Inr (RInt 0) \<and> \<not> deadline < cn_now ?L (rs_net st1) \<and> \<not> cn_done ?L (rs_net st1)")
    case True
    let ?st2 = "st1\<lparr>rs_net := cn_sleep ?L delay (rs_net st1)\<rparr>"
    have "Lock_loop R key token deadline (if delay < 50000000 then delay * 2 else delay) fuel ?st2 = Some (st', l)"
      using Suc.prems(2) q True by simp
    from Suc.IH[OF _ this] show ?thesis using Suc.prems(1) st1 by simp
  next
    case False
    then show ?thesis using Suc.prems(2) q st1 by (auto split: if_splits)
  qed
qed simp


definition mem_held :: "mem_net rstate" where
  "mem_held = mem_empty\<lparr>rs_db := put (lockKey ''g'') (RStr ''other'') (rs_db mem_empty)\<rparr>"


text \<open>
  C15: the release is safe after the lock has expired: an unlock with a token that is not the one
  stored (because the lock timed out and somebody else took it) leaves the database as it is, and an
  unlock with the stored token removes the lock and nothing else.
\<close>

theorem redis_unlock_own:
  assumes "redis_store R up" and "db_ok (rs_db st)" and "str (rs_db st) (lockKey gid) = Some holder"
    and "up (rs_net st)"
  shows "rs_db (unlock R (lockKey gid) token st) = (if token = holder then del (lockKey gid) (rs_db st) else rs_db st)"
proof -
  have S: "redis_server (gs_exec R)" using assms(1) by (simp add: redis_store_def)
  obtain st1 a where q: "request (gs_conn R) (unlockScript (gs_exec R) (lockKey gid) token) st = (st1, a)" by fastforce
  obtain n where d: "gs_exec R (DEL (lockKey gid)) (now_ms R st) (rs_db st) = (del (lockKey gid) (rs_db st), RInt n)"
    using redis_server.delete[OF S] by blast
  have "is_str (rs_db st) (lockKey gid)" using assms(2) by (simp add: db_ok_def db_typed_def)
  then have "unlockScript (gs_exec R) (lockKey gid) token (now_ms R st) (rs_db st) =
      (if token = holder then (del (lockKey gid) (rs_db st), RInt n) else (rs_db st, RInt 0))"
    using redis_server.get[OF S] assms(3) d by (simp add: unlockScript_def)
  then have e: "unlockScript (gs_exec R) (lockKey gid) token (now_ms R st) (rs_db st) =
      (if token = holder then del (lockKey gid) (rs_db st) else rs_db st, if token = holder then RInt n else RInt 0)"
    by simp
  show ?thesis
    using redis_store.request_requested[OF assms(1) q e] q assms(4) by (simp add: unlock_def requested_def)
qed

theorem redis_unlock_own_witness:
  "rs_db (unlock mem_R (lockKey ''g'') ''stale'' mem_held) = rs_db mem_held"
proof -
  have ok: "db_ok (rs_db mem_held)"
    using mem.db_ok_lock(1)[of "rs_db mem_empty" "''g''" "''other''"] db_ok_empty by (simp add: mem_held_def mem_empty_def)
  have h: "str (rs_db mem_held) (lockKey ''g'') = Some ''other''" by (simp add: mem_held_def)
  have up: "mem_up (rs_net mem_held)" by (simp add: mem_held_def mem_empty_def mem_net0_def mem_up_def)
  show ?thesis using redis_unlock_own[OF mem.redis_store_axioms ok h up] by simp
qed

section \<open>Expiry\<close>



end
