(* ===== verification/Ws_Hub.thy ===== *)
theory Ws_Hub
  imports Game_Engine
begin

text \<open>
  The WebSocket connections of one game on one instance: \<open>internal/ws/client.go\<close> and
  \<open>internal/ws/hub.go\<close>. A \<open>*Client\<close> is an address of a heap of clients, so that two pointers are
  compared as the code compares them. \<open>Register\<close> and \<open>Claim\<close> close a connection only after they
  have released the mutex; their critical sections are separate definitions, and a run of a hub
  interleaves them with the pending closes in any order.

  Not modelled: the mutex itself (a critical section is one step), log messages, and the pings'
  timing. A message is whatever \<open>json.Marshal\<close> makes of an event; marshalling is a parameter that may fail.
\<close>

section \<open>Clients\<close>

record 'm Client =
  cl_buf :: "'m list"
  cl_playerID :: string
  cl_gameID :: string
  cl_seq :: int
  cl_closed :: bool

definition NewClient :: "string \<Rightarrow> string \<Rightarrow> int \<Rightarrow> 'm Client" where
  "NewClient playerID gameID seq =
     \<lparr>cl_buf = [], cl_playerID = playerID, cl_gameID = gameID, cl_seq = seq, cl_closed = False\<rparr>"

definition client_Close :: "'m Client \<Rightarrow> 'm Client" where
  "client_Close c = c\<lparr>cl_closed := True\<rparr>"

text \<open>The send buffer holds 256 messages; a message for a full buffer is dropped.\<close>

definition client_send :: "'m \<Rightarrow> 'm Client \<Rightarrow> 'm Client" where
  "client_send msg c = (if length (cl_buf c) < 256 then c\<lparr>cl_buf := cl_buf c @ [msg]\<rparr> else c)"

text \<open>
  \<open>WritePump\<close>, over the choices its \<open>select\<close> makes: a message of the buffer, a closed buffer, a
  tick, the end of the context; with each, whether the write it causes succeeds. The result is
  what it has written and the client; \<open>False\<close> tells that it is still waiting.
\<close>

datatype 'm frame = TextMessage 'm | PingMessage | CloseMessage

datatype pump_choice = BufMessage | BufClosed | Tick | CtxDone

fun WritePump :: "(pump_choice \<times> bool) list \<Rightarrow> 'm Client \<Rightarrow> 'm frame list \<times> 'm Client \<times> bool" where
  "WritePump [] c = ([], c, False)"
| "WritePump ((BufMessage, ok) # cs) c =
     (case cl_buf c of
        [] \<Rightarrow> WritePump cs c
      | msg # rest \<Rightarrow>
          (let c' = c\<lparr>cl_buf := rest\<rparr>
           in if ok then (let (out, c'', fin) = WritePump cs c' in (TextMessage msg # out, c'', fin))
              else ([], client_Close c', True)))"
| "WritePump ((BufClosed, ok) # cs) c = (if ok then [CloseMessage] else [], client_Close c, True)"
| "WritePump ((Tick, ok) # cs) c =
     (if ok then (let (out, c', fin) = WritePump cs c in (PingMessage # out, c', fin))
      else ([], client_Close c, True))"
| "WritePump ((CtxDone, ok) # cs) c = (if ok then [CloseMessage] else [], client_Close c, True)"

text \<open>
  An incoming message, with what \<open>json.Unmarshal\<close> makes of its data as \<open>SubmitAnswerData\<close>: the
  struct as far as it was filled, and whether there was no error.
\<close>

record SubmitAnswerData =
  sa_QuestionID :: string
  sa_OptionID :: string

record IncomingMessage =
  im_Type :: string
  im_Data :: "SubmitAnswerData \<times> bool"

text \<open>
  \<open>ReadPump\<close>, over what it finds: whether the context is done, else what \<open>ReadMessage\<close> returns
  (\<open>None\<close> on an error), decoded (\<open>Inl\<close> when it is not a valid envelope). The result is the calls
  of the handler and the client; \<open>False\<close> tells that it is still waiting.
\<close>

fun ReadPump :: "(bool \<times> (unit + IncomingMessage) option) list \<Rightarrow> 'm Client
    \<Rightarrow> (string \<times> IncomingMessage) list \<times> 'm Client \<times> bool" where
  "ReadPump [] c = ([], c, False)"
| "ReadPump ((True, r) # rs) c = ([], client_Close c, True)"
| "ReadPump ((False, None) # rs) c = ([], client_Close c, True)"
| "ReadPump ((False, Some (Inl e)) # rs) c = ReadPump rs c"
| "ReadPump ((False, Some (Inr msg)) # rs) c =
     (let (calls, c', fin) = ReadPump rs c in ((cl_playerID c, msg) # calls, c', fin))"

section \<open>The hub\<close>

type_synonym conn_id = nat

record Hub =
  hb_clients :: "(string, conn_id) fmap"
  hb_latest :: "(string, int) fmap"

definition NewHub :: Hub where
  "NewHub = \<lparr>hb_clients = fmempty, hb_latest = fmempty\<rparr>"

text \<open>A missing generation reads as zero.\<close>

definition latest_of :: "Hub \<Rightarrow> string \<Rightarrow> int" where
  "latest_of h pid = (case fmlookup (hb_latest h) pid of None \<Rightarrow> 0 | Some n \<Rightarrow> n)"

text \<open>The hub with the clients it points to.\<close>

record 'm hub_state =
  hs_hub :: Hub
  hs_heap :: "conn_id \<Rightarrow> 'm Client"

definition hub_close :: "conn_id \<Rightarrow> 'm hub_state \<Rightarrow> 'm hub_state" where
  "hub_close c w = w\<lparr>hs_heap := (hs_heap w)(c := client_Close (hs_heap w c))\<rparr>"

text \<open>The critical sections: the new state, the connections to close afterwards, the result.\<close>

definition Register_cs :: "string \<Rightarrow> conn_id \<Rightarrow> 'm hub_state \<Rightarrow> 'm hub_state \<times> conn_id list \<times> bool" where
  "Register_cs playerID c w =
     (let h = hs_hub w; seq = cl_seq (hs_heap w c) in
      if seq < latest_of h playerID then (w, [c], False)
      else (let old = fmlookup (hb_clients h) playerID;
                h' = h\<lparr>hb_latest := fmupd playerID seq (hb_latest h), hb_clients := fmupd playerID c (hb_clients h)\<rparr>
            in (w\<lparr>hs_hub := h'\<rparr>, (case old of None \<Rightarrow> [] | Some o' \<Rightarrow> if o' \<noteq> c then [o'] else []), True)))"

definition Claim_cs :: "string \<Rightarrow> int \<Rightarrow> 'm hub_state \<Rightarrow> 'm hub_state \<times> conn_id list" where
  "Claim_cs playerID seq w =
     (let h = hs_hub w;
          h1 = (if seq > latest_of h playerID then h\<lparr>hb_latest := fmupd playerID seq (hb_latest h)\<rparr> else h)
      in case fmlookup (hb_clients h1) playerID of
           None \<Rightarrow> (w\<lparr>hs_hub := h1\<rparr>, [])
         | Some c \<Rightarrow>
             if cl_seq (hs_heap w c) \<ge> seq then (w\<lparr>hs_hub := h1\<rparr>, [])
             else (w\<lparr>hs_hub := h1\<lparr>hb_clients := fmdrop playerID (hb_clients h1)\<rparr>\<rparr>, [c]))"

definition Hub_Register :: "string \<Rightarrow> conn_id \<Rightarrow> 'm hub_state \<Rightarrow> 'm hub_state \<times> bool" where
  "Hub_Register playerID c w = (let (w', cs, ok) = Register_cs playerID c w in (fold hub_close cs w', ok))"

definition Hub_Claim :: "string \<Rightarrow> int \<Rightarrow> 'm hub_state \<Rightarrow> 'm hub_state" where
  "Hub_Claim playerID seq w = (let (w', cs) = Claim_cs playerID seq w in fold hub_close cs w')"

definition Hub_Unregister :: "string \<Rightarrow> conn_id \<Rightarrow> 'm hub_state \<Rightarrow> 'm hub_state" where
  "Hub_Unregister playerID c w =
     (let h = hs_hub w in
      if fmlookup (hb_clients h) playerID = Some c
      then w\<lparr>hs_hub := h\<lparr>hb_clients := fmdrop playerID (hb_clients h)\<rparr>\<rparr> else w)"

text \<open>The clients of the hub, one for each player.\<close>

definition hub_conns :: "Hub \<Rightarrow> conn_id list" where
  "hub_conns h = List.map_filter (fmlookup (hb_clients h)) (sorted_keys (hb_clients h))"

definition send_to :: "'m \<Rightarrow> conn_id \<Rightarrow> 'm hub_state \<Rightarrow> 'm hub_state" where
  "send_to msg c w = w\<lparr>hs_heap := (hs_heap w)(c := client_send msg (hs_heap w c))\<rparr>"

definition Hub_Broadcast :: "('e \<Rightarrow> 'm option) \<Rightarrow> 'e \<Rightarrow> 'm hub_state \<Rightarrow> 'm hub_state" where
  "Hub_Broadcast marshal event w = (case marshal event of
      None \<Rightarrow> w
    | Some msg \<Rightarrow> fold (send_to msg) (hub_conns (hs_hub w)) w)"

definition Hub_BroadcastTo :: "('e \<Rightarrow> 'm option) \<Rightarrow> string \<Rightarrow> 'e \<Rightarrow> 'm hub_state \<Rightarrow> 'm hub_state" where
  "Hub_BroadcastTo marshal playerID event w = (case marshal event of
      None \<Rightarrow> w
    | Some msg \<Rightarrow>
        (case fmlookup (hb_clients (hs_hub w)) playerID of None \<Rightarrow> w | Some c \<Rightarrow> send_to msg c w))"

definition Hub_CloseAll :: "'m hub_state \<Rightarrow> 'm hub_state" where
  "Hub_CloseAll w = fold hub_close (hub_conns (hs_hub w)) w"

definition Hub_ConnectedCount :: "'m hub_state \<Rightarrow> nat" where
  "Hub_ConnectedCount w = length (sorted_keys (hb_clients (hs_hub w)))"

section \<open>Runs of a hub\<close>

text \<open>
  The operations that concern who is connected. \<open>OpClose\<close> performs one of the closes that an
  earlier operation has left to do.
\<close>

datatype hub_op = OpRegister string conn_id | OpClaim string int | OpUnregister string conn_id | OpClose conn_id

fun hub_step :: "hub_op \<Rightarrow> 'm hub_state \<times> conn_id list \<Rightarrow> 'm hub_state \<times> conn_id list" where
  "hub_step (OpRegister pid c) (w, P) = (let (w', cs, ok) = Register_cs pid c w in (w', cs @ P))"
| "hub_step (OpClaim pid seq) (w, P) = (let (w', cs) = Claim_cs pid seq w in (w', cs @ P))"
| "hub_step (OpUnregister pid c) (w, P) = (Hub_Unregister pid c w, P)"
| "hub_step (OpClose c) (w, P) = (if c \<in> set P then (hub_close c w, removeAll c P) else (w, P))"

definition hub_run :: "hub_op list \<Rightarrow> 'm hub_state \<Rightarrow> 'm hub_state \<times> conn_id list" where
  "hub_run ops w = fold hub_step ops (w, [])"

definition new_hub_state :: "(conn_id \<Rightarrow> 'm Client) \<Rightarrow> 'm hub_state" where
  "new_hub_state heap = \<lparr>hs_hub = NewHub, hs_heap = heap\<rparr>"

text \<open>The generations of a player that a sequence of operations announces.\<close>

fun generations :: "(conn_id \<Rightarrow> int) \<Rightarrow> string \<Rightarrow> hub_op \<Rightarrow> int set" where
  "generations gen pid (OpRegister p c) = (if p = pid then {gen c} else {})"
| "generations gen pid (OpClaim p n) = (if p = pid then {n} else {})"
| "generations gen pid (OpUnregister p c) = {}"
| "generations gen pid (OpClose c) = {}"

definition announced :: "(conn_id \<Rightarrow> int) \<Rightarrow> string \<Rightarrow> hub_op list \<Rightarrow> int set" where
  "announced gen pid ops = (\<Union>op \<in> set ops. generations gen pid op)"

section \<open>Invariants of a run\<close>

lemmas hub_cs_defs = Register_cs_def Claim_cs_def Hub_Unregister_def hub_close_def client_Close_def Let_def

lemma hub_step_cases:
  obtains (Register) pid c where "op = OpRegister pid c" | (Claim) pid n where "op = OpClaim pid n"
    | (Unregister) pid c where "op = OpUnregister pid c" | (Close) c where "op = OpClose c"
  by (cases op)

lemma step_seq [simp]: "cl_seq (hs_heap (fst (hub_step op (w, P))) c) = cl_seq (hs_heap w c)"
  by (cases op) (auto simp: hub_cs_defs split: option.split)

lemma run_snoc [simp]: "hub_run (ops @ [op]) w = hub_step op (hub_run ops w)"
  by (simp add: hub_run_def)

lemma run_Nil [simp]: "hub_run [] w = (w, [])"
  by (simp add: hub_run_def)

lemma run_seq [simp]: "cl_seq (hs_heap (fst (hub_run ops w)) c) = cl_seq (hs_heap w c)"
proof (induction ops rule: rev_induct)
  case (snoc op ops)
  then show ?case using step_seq[of op "fst (hub_run ops w)" "snd (hub_run ops w)" c] by simp
qed simp

lemma run_seq_new:
  "hub_run ops (new_hub_state heap) = (w, P) \<Longrightarrow> cl_seq (hs_heap w c) = cl_seq (heap c)"
  using run_seq[of ops "new_hub_state heap" c] by (simp add: new_hub_state_def)

lemma latest_of_upd: "latest_of (h\<lparr>hb_latest := fmupd p n (hb_latest h)\<rparr>) pid = (if p = pid then n else latest_of h pid)"
  by (simp add: latest_of_def)

lemma latest_of_clients [simp]: "latest_of (h\<lparr>hb_clients := cs\<rparr>) pid = latest_of h pid"
  by (simp add: latest_of_def)

lemma step_latest:
  "latest_of (hs_hub (fst (hub_step op (w, P)))) pid =
     Max (insert (latest_of (hs_hub w) pid) (generations (\<lambda>c. cl_seq (hs_heap w c)) pid op))"
  by (cases op) (auto simp: hub_cs_defs latest_of_upd latest_of_def max_def split: option.split)

lemma generations_finite [simp]: "finite (generations gen pid op)"
  by (cases op) auto

lemma announced_finite [simp]: "finite (announced gen pid ops)"
  by (simp add: announced_def)

lemma announced_simps [simp]:
  "announced gen pid [] = {}"
  "announced gen pid (ops @ [op]) = announced gen pid ops \<union> generations gen pid op"
  by (auto simp: announced_def)

lemma announced_register: "OpRegister pid c \<in> set ops \<Longrightarrow> gen c \<in> announced gen pid ops"
  by (force simp: announced_def)

lemma Max_insert_Max:
  "finite A \<Longrightarrow> A \<noteq> {} \<Longrightarrow> finite B \<Longrightarrow> Max (insert (Max A) B) = Max (A \<union> B)"
  by (cases "B = {}") (simp_all add: Max_Un)

lemma run_latest:
  "latest_of (hs_hub (fst (hub_run ops (new_hub_state heap)))) pid =
     Max (insert 0 (announced (\<lambda>c. cl_seq (heap c)) pid ops))"
proof (induction ops rule: rev_induct)
  case Nil
  then show ?case by (simp add: new_hub_state_def latest_of_def NewHub_def)
next
  case (snoc op ops)
  let ?g = "\<lambda>c. cl_seq (heap c)" and ?A = "announced (\<lambda>c. cl_seq (heap c)) pid ops"
  obtain w P where r: "hub_run ops (new_hub_state heap) = (w, P)" by (cases "hub_run ops (new_hub_state heap)")
  have g: "(\<lambda>c. cl_seq (hs_heap w c)) = ?g"
    using run_seq_new[OF r] by simp
  have "Max (insert (Max (insert 0 ?A)) (generations ?g pid op)) = Max (insert 0 ?A \<union> generations ?g pid op)"
    by (rule Max_insert_Max) simp_all
  then show ?case using snoc r step_latest[of op w P pid] by (simp add: g)
qed

lemma step_clients:
  "fmlookup (hb_clients (hs_hub (fst (hub_step op (w, P))))) pid = Some c \<Longrightarrow>
   fmlookup (hb_clients (hs_hub w)) pid = Some c \<and> latest_of (hs_hub (fst (hub_step op (w, P)))) pid = latest_of (hs_hub w) pid
   \<or> fmlookup (hb_clients (hs_hub w)) pid = Some c \<and> latest_of (hs_hub (fst (hub_step op (w, P)))) pid \<le> cl_seq (hs_heap w c)
   \<or> op = OpRegister pid c \<and> latest_of (hs_hub (fst (hub_step op (w, P)))) pid = cl_seq (hs_heap w c)"
  by (cases op) (auto simp: hub_cs_defs latest_of_def split: option.splits if_splits)

text \<open>The connection of a player has the newest generation announced.\<close>

lemma run_clients:
  "fmlookup (hb_clients (hs_hub (fst (hub_run ops (new_hub_state heap))))) pid = Some c \<Longrightarrow>
   OpRegister pid c \<in> set ops \<and> cl_seq (heap c) = latest_of (hs_hub (fst (hub_run ops (new_hub_state heap)))) pid"
proof (induction ops rule: rev_induct)
  case Nil
  then show ?case by (simp add: new_hub_state_def NewHub_def)
next
  case (snoc op ops)
  obtain w P where r: "hub_run ops (new_hub_state heap) = (w, P)" by (cases "hub_run ops (new_hub_state heap)")
  have s: "cl_seq (hs_heap w c) = cl_seq (heap c)" using run_seq_new[OF r] .
  have ge: "latest_of (hs_hub w) pid \<le> latest_of (hs_hub (fst (hub_step op (w, P)))) pid"
    unfolding step_latest by simp
  from snoc.prems r have "fmlookup (hb_clients (hs_hub (fst (hub_step op (w, P))))) pid = Some c" by simp
  from step_clients[OF this] snoc.IH r s ge show ?case by auto
qed

text \<open>A registered connection that is no longer the player's has been closed or is about to be.\<close>

lemma step_closed:
  assumes "\<And>p d. fmlookup (hb_clients (hs_hub w)) p = Some d \<or> \<not> R p d \<or> d \<in> set P \<or> cl_closed (hs_heap w d)"
    and "hub_step op (w, P) = (w', P')" and "op \<noteq> OpUnregister pid c" and "R pid c \<or> op = OpRegister pid c"
  shows "fmlookup (hb_clients (hs_hub w')) pid = Some c \<or> c \<in> set P' \<or> cl_closed (hs_heap w' c)"
  using assms(2-4) assms(1)[of pid c]
  by (cases op) (auto simp: hub_cs_defs split: option.splits if_splits)

lemma run_closed:
  assumes "OpRegister pid c \<in> set ops" and "OpUnregister pid c \<notin> set ops"
    and "hub_run ops (new_hub_state heap) = (w, P)"
  shows "fmlookup (hb_clients (hs_hub w)) pid = Some c \<or> c \<in> set P \<or> cl_closed (hs_heap w c)"
  using assms
proof (induction ops arbitrary: w P pid c rule: rev_induct)
  case (snoc op ops)
  obtain w1 P1 where r: "hub_run ops (new_hub_state heap) = (w1, P1)" by (cases "hub_run ops (new_hub_state heap)")
  have "fmlookup (hb_clients (hs_hub w1)) p = Some d \<or>
      \<not> (OpRegister p d \<in> set ops \<and> OpUnregister p d \<notin> set ops) \<or> d \<in> set P1 \<or> cl_closed (hs_heap w1 d)" for p d
    using snoc.IH[OF _ _ r] by blast
  from step_closed[OF this, of op w P pid c] r snoc.prems show ?case by auto
qed simp

text \<open>The connection of the newest generation, once registered, stays.\<close>

lemma run_keeps_newest:
  assumes "OpRegister pid c \<in> set ops" and "OpUnregister pid c \<notin> set ops" and "0 \<le> cl_seq (heap c)"
    and "\<And>n. n \<in> announced (\<lambda>c. cl_seq (heap c)) pid ops \<Longrightarrow> n \<le> cl_seq (heap c)"
    and "\<And>d. OpRegister pid d \<in> set ops \<Longrightarrow> cl_seq (heap d) = cl_seq (heap c) \<Longrightarrow> d = c"
    and "hub_run ops (new_hub_state heap) = (w, P)"
  shows "fmlookup (hb_clients (hs_hub w)) pid = Some c"
  using assms
proof (induction ops arbitrary: w P rule: rev_induct)
  case (snoc op ops)
  obtain w1 P1 where r: "hub_run ops (new_hub_state heap) = (w1, P1)" by (cases "hub_run ops (new_hub_state heap)")
  let ?A = "announced (\<lambda>c. cl_seq (heap c)) pid ops"
  have heap1: "cl_seq (hs_heap w1 d) = cl_seq (heap d)" for d using run_seq_new[OF r] .
  have l: "latest_of (hs_hub w1) pid = Max (insert 0 ?A)"
    using run_latest[of ops heap pid] r by simp
  have le: "latest_of (hs_hub w1) pid \<le> cl_seq (heap c)"
    unfolding l using snoc.prems(3,4) by simp
  have step: "hub_step op (w1, P1) = (w, P)" using r snoc.prems(6) by simp
  show ?case
  proof (cases "OpRegister pid c \<in> set ops")
    case True
    have c: "fmlookup (hb_clients (hs_hub w1)) pid = Some c"
      using snoc.IH[OF True _ snoc.prems(3) _ _ r] snoc.prems(2,4,5) by auto
    have lc: "latest_of (hs_hub w1) pid = cl_seq (heap c)"
      using run_clients[of ops heap pid c] r c by simp
    have lt: "cl_seq (heap d) < cl_seq (heap c)" if "op = OpRegister pid d" "d \<noteq> c" for d
      using that snoc.prems(4)[of "cl_seq (heap d)"] snoc.prems(5)[of d] by fastforce
    have n: "n \<le> cl_seq (heap c)" if "op = OpClaim pid n" for n
      using that snoc.prems(4)[of n] by simp
    show ?thesis
      using step c lc lt n heap1 snoc.prems(2)
      by (cases op) (auto simp: hub_cs_defs split: option.splits if_splits)
  next
    case False
    with snoc.prems(1) have "op = OpRegister pid c" by simp
    with step le heap1 show ?thesis by (auto simp: hub_cs_defs)
  qed
qed simp

section \<open>Properties\<close>

text \<open>Two connections of a player and one of another, for the witnesses.\<close>

definition ex_heap :: "conn_id \<Rightarrow> nat Client" where
  "ex_heap c = (if c = 0 then NewClient ''p'' ''g'' 1 else if c = 1 then NewClient ''p'' ''g'' 2
                else NewClient ''q'' ''g'' (int c))"



text \<open>
  C18: order and repetition do not matter. Two hubs that see the same registrations and claims, in
  any order and any number of times, agree on every player's latest generation and connection.
\<close>
theorem hub_any_order:
  assumes "hub_run ops (new_hub_state heap) = (w, P)" and "hub_run ops' (new_hub_state heap) = (w', P')"
    and "set ops = set ops'"
    and "\<forall>pid c. OpUnregister pid c \<notin> set ops"
    and "\<forall>pid c. OpRegister pid c \<in> set ops \<longrightarrow> 0 \<le> cl_seq (heap c)"
    and "\<forall>pid c d. OpRegister pid c \<in> set ops \<and> OpRegister pid d \<in> set ops \<and> cl_seq (heap c) = cl_seq (heap d) \<longrightarrow> c = d"
  shows "hb_clients (hs_hub w) = hb_clients (hs_hub w') \<and>
    (\<forall>pid. latest_of (hs_hub w) pid = latest_of (hs_hub w') pid)"
proof -
  have a: "announced (\<lambda>c. cl_seq (heap c)) pid ops = announced (\<lambda>c. cl_seq (heap c)) pid ops'" for pid
    by (simp add: announced_def assms(3))
  have l: "latest_of (hs_hub w) pid = latest_of (hs_hub w') pid" for pid
    using run_latest[of ops heap pid] run_latest[of ops' heap pid] assms(1,2) a by simp
  have sub: "fmlookup (hb_clients (hs_hub w2)) pid = Some c"
    if "fmlookup (hb_clients (hs_hub w1)) pid = Some c" and r1: "hub_run ops1 (new_hub_state heap) = (w1, P1)"
      and r2: "hub_run ops2 (new_hub_state heap) = (w2, P2)" and s: "set ops1 = set ops" "set ops2 = set ops"
    for ops1 ops2 w1 w2 P1 P2 pid c
  proof -
    have c: "OpRegister pid c \<in> set ops" "cl_seq (heap c) = latest_of (hs_hub w1) pid"
      using run_clients[of ops1 heap pid c] that by simp_all
    moreover have "announced (\<lambda>c. cl_seq (heap c)) pid ops1 = announced (\<lambda>c. cl_seq (heap c)) pid ops2"
      by (simp add: announced_def s)
    ultimately have m: "cl_seq (heap c) = Max (insert 0 (announced (\<lambda>c. cl_seq (heap c)) pid ops2))"
      using run_latest[of ops1 heap pid] r1 by simp
    show ?thesis
      by (rule run_keeps_newest[OF _ _ _ _ _ r2]) (use c(1) m assms(4-6) s in auto)
  qed
  have "fmlookup (hb_clients (hs_hub w)) pid = fmlookup (hb_clients (hs_hub w')) pid" for pid
    using sub[OF _ assms(1,2)] sub[OF _ assms(2,1)] assms(3) by (metis not_Some_eq)
  with l show ?thesis by (auto intro: fmap_ext)
qed

theorem hub_any_order_witness:
  "hb_clients (hs_hub (fst (hub_run [OpRegister ''p'' 0, OpClaim ''p'' 2, OpRegister ''p'' 1] (new_hub_state ex_heap)))) =
   hb_clients (hs_hub (fst (hub_run [OpRegister ''p'' 1, OpRegister ''p'' 0, OpClaim ''p'' 2, OpRegister ''p'' 0] (new_hub_state ex_heap))))"
proof -
  let ?a = "[OpRegister ''p'' 0, OpClaim ''p'' 2, OpRegister ''p'' 1]"
  let ?b = "[OpRegister ''p'' 1, OpRegister ''p'' 0, OpClaim ''p'' 2, OpRegister ''p'' 0]"
  show ?thesis
    by (rule hub_any_order[of ?a ex_heap _ "snd (hub_run ?a (new_hub_state ex_heap))" ?b _
          "snd (hub_run ?b (new_hub_state ex_heap))", THEN conjunct1])
      (auto simp: ex_heap_def NewClient_def)
qed

end
