(* ===== verification/Redis_Broadcaster.thy ===== *)
theory Redis_Broadcaster
  imports Redis_Client Ws_Hub
begin

text \<open>
  Events and connection claims across instances: \<open>internal/redis/broadcaster.go\<close>. Publishing is a
  request to the server; a subscription is a channel and the position in the channel's messages
  after which it was confirmed, so that reading it yields every later message in order.

  Not modelled: log messages, the five seconds that \<open>Subscribe\<close> waits for its confirmation (a lost
  request stands for it), and the loss of messages by a connection that breaks.
\<close>

definition connectionsKey :: "string \<Rightarrow> string" where
  "connectionsKey gid = ''game:{'' @ gid @ ''}:conns''"

definition channel :: "string \<Rightarrow> string" where
  "channel gid = ''game:'' @ gid @ '':events''"

record 'n Publisher =
  pb_exec :: server
  pb_conn :: "'n conn"

definition NewPublisher :: "server \<Rightarrow> 'n conn \<Rightarrow> 'n Publisher" where
  "NewPublisher exec L = \<lparr>pb_exec = exec, pb_conn = L\<rparr>"

definition claim_msg :: "string \<Rightarrow> int \<Rightarrow> pubsubMsg" where
  "claim_msg playerID seq = \<lparr>pm_Target = '''', pm_Event = None, pm_Claim = Some \<lparr>cm_PlayerID = playerID, cm_Seq = seq\<rparr>\<rparr>"

text \<open>The two requests of \<open>ClaimConnection\<close>: take the next generation, then announce it.\<close>

definition next_generation :: "'n Publisher \<Rightarrow> string \<Rightarrow> string \<Rightarrow> int \<Rightarrow> 'n rstate \<Rightarrow> 'n rstate \<times> (game_error + int)" where
  "next_generation P gid playerID ttl st =
     and_then (pipelined (pb_exec P) (pb_conn P)
         [HINCRBY (connectionsKey gid) playerID 1, EXPIRE (connectionsKey gid) ttl] st)
       (\<lambda>st1 rs. (st1, case rs of RInt seq # _ \<Rightarrow> Inr seq | _ \<Rightarrow> Inl ErrStorage))"

definition publish_msg :: "'n Publisher \<Rightarrow> string \<Rightarrow> pubsubMsg \<Rightarrow> 'n rstate \<Rightarrow> 'n rstate \<times> (game_error + unit)" where
  "publish_msg P ch msg st =
     and_then (request (pb_conn P) (pb_exec P (PUBLISH ch msg)) st)
       (\<lambda>st' r. (st', if reply_error r then Inl ErrStorage else Inr ()))"

definition Publisher_ClaimConnection :: "'n Publisher \<Rightarrow> string \<Rightarrow> string \<Rightarrow> int \<Rightarrow> 'n rstate \<Rightarrow> 'n rstate \<times> (game_error + int)" where
  "Publisher_ClaimConnection P gid playerID ttl st =
     and_then (next_generation P gid playerID ttl st) (\<lambda>st1 seq.
       and_then (publish_msg P (channel gid) (claim_msg playerID seq) st1) (\<lambda>st2 _. (st2, Inr seq)))"

record 'n GamePublisher =
  gp_p :: "'n Publisher"
  gp_ch :: string

definition Publisher_For :: "'n Publisher \<Rightarrow> string \<Rightarrow> 'n GamePublisher" where
  "Publisher_For P gid = \<lparr>gp_p = P, gp_ch = channel gid\<rparr>"

text \<open>Publishing an event: a failure is only logged.\<close>

definition gp_publish :: "'n GamePublisher \<Rightarrow> string \<Rightarrow> event \<Rightarrow> 'n rstate \<Rightarrow> 'n rstate" where
  "gp_publish g target event st =
     fst (publish_msg (gp_p g) (gp_ch g) \<lparr>pm_Target = target, pm_Event = Some event, pm_Claim = None\<rparr> st)"

definition gp_Broadcast :: "'n GamePublisher \<Rightarrow> event \<Rightarrow> 'n rstate \<Rightarrow> 'n rstate" where
  "gp_Broadcast g event = gp_publish g ''*'' event"

definition gp_BroadcastTo :: "'n GamePublisher \<Rightarrow> string \<Rightarrow> event \<Rightarrow> 'n rstate \<Rightarrow> 'n rstate" where
  "gp_BroadcastTo g playerID event = gp_publish g playerID event"

text \<open>The events of an engine operation, published in order; its hook is not the publisher's.\<close>

fun publish_effect :: "'n GamePublisher \<Rightarrow> effect \<Rightarrow> 'n rstate \<Rightarrow> 'n rstate" where
  "publish_effect g (Broadcast e) st = gp_Broadcast g e st"
| "publish_effect g (BroadcastTo pid e) st = gp_BroadcastTo g pid e st"
| "publish_effect g (QuestionClosedHook gid r) st = st"

text \<open>What the subscriber's loop does with a message.\<close>

definition dispatch :: "(event option \<Rightarrow> 'm option) \<Rightarrow> pubsubMsg \<Rightarrow> 'm hub_state \<Rightarrow> 'm hub_state" where
  "dispatch marshal m w = (case pm_Claim m of
      Some c \<Rightarrow> Hub_Claim (cm_PlayerID c) (cm_Seq c) w
    | None \<Rightarrow> if pm_Target m = ''*'' then Hub_Broadcast marshal (pm_Event m) w
              else Hub_BroadcastTo marshal (pm_Target m) (pm_Event m) w)"

text \<open>\<open>Subscribe\<close>: the position of the subscription, once the server has confirmed it.\<close>

definition Subscribe :: "'n Publisher \<Rightarrow> string \<Rightarrow> 'n rstate \<Rightarrow> 'n rstate \<times> (game_error + nat)" where
  "Subscribe P gid st = request (pb_conn P) (\<lambda>t db. (db, length (rlog db (channel gid)))) st"

text \<open>The loop, over the messages it receives.\<close>

definition Subscribe_loop :: "(event option \<Rightarrow> 'm option) \<Rightarrow> pubsubMsg list \<Rightarrow> 'm hub_state \<Rightarrow> 'm hub_state" where
  "Subscribe_loop marshal msgs w = fold (dispatch marshal) msgs w"

end
