(* ===== verification/Game_Sessions.thy ===== *)
theory Game_Sessions
  imports Redis_Broadcaster Game_Manager
begin

text \<open>
  The local sessions of an instance (\<open>gameSessionStore\<close> in \<open>internal/app/app.go\<close>): per game, a hub
  and the Redis subscription that feeds it, counted by the WebSocket handlers that hold it; and
  \<open>sweepSessions\<close>, which closes the connections of games that have expired. The pointer to a hub
  that \<open>Acquire\<close> returns is the game's ID: while a handler holds its reference, the session, and so
  its hub, stays in the map (\<open>sessions_counted\<close>).

  \<open>ses_start\<close> and \<open>ses_pos\<close> are the positions in the game's channel at which the subscription began
  and up to which its messages have been forwarded; \<open>deliver\<close> is one round of the subscriber's loop.
\<close>

section \<open>State and operations\<close>

record 'm gameSession =
  ses_hub :: "'m hub_state"
  ses_start :: nat
  ses_pos :: nat
  ses_running :: bool
  ses_refs :: int

record ('m, 'n) gameSessionStore =
  sst_sessions :: "(string, 'm gameSession) fmap"
  sst_pub :: "'n Publisher"
  sst_claimTTL :: int

definition newGameSessionStore :: "server \<Rightarrow> 'n conn \<Rightarrow> int \<Rightarrow> ('m, 'n) gameSessionStore" where
  "newGameSessionStore exec L claimTTL =
     \<lparr>sst_sessions = fmempty, sst_pub = NewPublisher exec L, sst_claimTTL = claimTTL\<rparr>"

definition Sessions_ClaimConnection :: "('m, 'n) gameSessionStore \<Rightarrow> string \<Rightarrow> string \<Rightarrow> 'n rstate \<Rightarrow> 'n rstate \<times> (game_error + int)" where
  "Sessions_ClaimConnection A gid playerID st = Publisher_ClaimConnection (sst_pub A) gid playerID (sst_claimTTL A) st"

definition Sessions_Broadcaster :: "('m, 'n) gameSessionStore \<Rightarrow> string \<Rightarrow> 'n GamePublisher" where
  "Sessions_Broadcaster A gid = Publisher_For (sst_pub A) gid"

definition put_session :: "string \<Rightarrow> 'm gameSession \<Rightarrow> ('m, 'n) gameSessionStore \<Rightarrow> ('m, 'n) gameSessionStore" where
  "put_session gid sess A = A\<lparr>sst_sessions := fmupd gid sess (sst_sessions A)\<rparr>"

definition new_session :: "nat \<Rightarrow> 'm gameSession" where
  "new_session pos = \<lparr>ses_hub = new_hub_state (\<lambda>_. NewClient '''' '''' 0), ses_start = pos, ses_pos = pos,
     ses_running = True, ses_refs = 1\<rparr>"

definition Acquire :: "string \<Rightarrow> ('m, 'n) gameSessionStore \<Rightarrow> 'n rstate \<Rightarrow> ('m, 'n) gameSessionStore \<times> 'n rstate \<times> (game_error + unit)" where
  "Acquire gid A st = (case fmlookup (sst_sessions A) gid of
      Some sess \<Rightarrow> (put_session gid (sess\<lparr>ses_refs := ses_refs sess + 1\<rparr>) A, st, Inr ())
    | None \<Rightarrow>
        (case Subscribe (sst_pub A) gid st of
           (st', Inl e) \<Rightarrow> (A, st', Inl e)
         | (st', Inr pos) \<Rightarrow> (put_session gid (new_session pos) A, st', Inr ())))"

definition Release :: "string \<Rightarrow> ('m, 'n) gameSessionStore \<Rightarrow> ('m, 'n) gameSessionStore" where
  "Release gid A = (case fmlookup (sst_sessions A) gid of
      None \<Rightarrow> A
    | Some sess \<Rightarrow>
        (let sess' = sess\<lparr>ses_refs := ses_refs sess - 1\<rparr> in
         if ses_refs sess' > 0 then put_session gid sess' A
         else A\<lparr>sst_sessions := fmdrop gid (sst_sessions A)\<rparr>))"

text \<open>An operation on the hub of a session, for the handlers that hold it.\<close>

definition on_hub :: "string \<Rightarrow> ('m hub_state \<Rightarrow> 'm hub_state) \<Rightarrow> ('m, 'n) gameSessionStore \<Rightarrow> ('m, 'n) gameSessionStore" where
  "on_hub gid f A = (case fmlookup (sst_sessions A) gid of
      None \<Rightarrow> A
    | Some sess \<Rightarrow> put_session gid (sess\<lparr>ses_hub := f (ses_hub sess)\<rparr>) A)"

definition Sessions_Remove :: "string \<Rightarrow> ('m, 'n) gameSessionStore \<Rightarrow> ('m, 'n) gameSessionStore" where
  "Sessions_Remove gid A = on_hub gid Hub_CloseAll A"

definition GameIDs :: "('m, 'n) gameSessionStore \<Rightarrow> string list" where
  "GameIDs A = sorted_keys (sst_sessions A)"

definition Sessions_Stop :: "('m, 'n) gameSessionStore \<Rightarrow> ('m, 'n) gameSessionStore" where
  "Sessions_Stop A = A\<lparr>sst_sessions := fmmap (\<lambda>sess. sess\<lparr>ses_running := False\<rparr>) (sst_sessions A)\<rparr>"

definition deliver :: "(event option \<Rightarrow> 'm option) \<Rightarrow> string \<Rightarrow> redis_db \<Rightarrow> ('m, 'n) gameSessionStore \<Rightarrow> ('m, 'n) gameSessionStore" where
  "deliver marshal gid db A = (case fmlookup (sst_sessions A) gid of
      None \<Rightarrow> A
    | Some sess \<Rightarrow>
        if ses_running sess \<and> ses_pos sess < length (rlog db (channel gid))
        then put_session gid (sess\<lparr>ses_hub := Subscribe_loop marshal [rlog db (channel gid) ! ses_pos sess] (ses_hub sess),
                                   ses_pos := ses_pos sess + 1\<rparr>) A
        else A)"

text \<open>One tick of \<open>sweepSessions\<close>, over the IDs that \<open>GameIDs\<close> gave (in the order of the map).\<close>

fun sweep_loop :: "'st StateStore \<Rightarrow> string list \<Rightarrow> ('m, 'n) gameSessionStore \<Rightarrow> 'st \<Rightarrow> ('m, 'n) gameSessionStore \<times> 'st" where
  "sweep_loop S [] A st = (A, st)"
| "sweep_loop S (gid # ids) A st =
     (case Manager_Exists S gid st of
        (st', Inl e) \<Rightarrow> sweep_loop S ids A st'
      | (st', Inr ok) \<Rightarrow> sweep_loop S ids (if \<not> ok then Sessions_Remove gid A else A) st')"

definition sweep :: "'st StateStore \<Rightarrow> ('m, 'n) gameSessionStore \<Rightarrow> 'st \<Rightarrow> ('m, 'n) gameSessionStore \<times> 'st" where
  "sweep S A st = sweep_loop S (GameIDs A) A st"

fun sweepSessions :: "'st StateStore \<Rightarrow> nat \<Rightarrow> ('m, 'n) gameSessionStore \<Rightarrow> 'st \<Rightarrow> ('m, 'n) gameSessionStore \<times> 'st" where
  "sweepSessions S 0 A st = (A, st)"
| "sweepSessions S (Suc ticks) A st = (case sweep S A st of (A', st') \<Rightarrow> sweepSessions S ticks A' st')"

section \<open>References\<close>

lemma put_session_lookup [simp]:
  "fmlookup (sst_sessions (put_session gid sess A)) gid' =
     (if gid = gid' then Some sess else fmlookup (sst_sessions A) gid')"
  by (simp add: put_session_def)

lemma put_session_pub [simp]:
  "sst_pub (put_session gid sess A) = sst_pub A" "sst_claimTTL (put_session gid sess A) = sst_claimTTL A"
  by (simp_all add: put_session_def)

text \<open>
  A run of \<open>Acquire\<close> and \<open>Release\<close> calls (with the sweeper's and the subscriber's work between them)
  and the number of references held at its end: a call of \<open>Release\<close> is one of a handler that holds one.
\<close>

datatype session_op = OpAcquire string | OpRelease string | OpRemove string | OpDeliver string

fun session_step :: "(event option \<Rightarrow> 'm option) \<Rightarrow> session_op \<Rightarrow> ('m, 'n) gameSessionStore \<times> 'n rstate \<times> (string \<Rightarrow> nat)
    \<Rightarrow> ('m, 'n) gameSessionStore \<times> 'n rstate \<times> (string \<Rightarrow> nat)" where
  "session_step marshal (OpAcquire gid) (A, st, held) =
     (case Acquire gid A st of
        (A', st', Inl e) \<Rightarrow> (A', st', held)
      | (A', st', Inr _) \<Rightarrow> (A', st', held(gid := held gid + 1)))"
| "session_step marshal (OpRelease gid) (A, st, held) =
     (if 0 < held gid then (Release gid A, st, held(gid := held gid - 1)) else (A, st, held))"
| "session_step marshal (OpRemove gid) (A, st, held) = (Sessions_Remove gid A, st, held)"
| "session_step marshal (OpDeliver gid) (A, st, held) = (deliver marshal gid (rs_db st) A, st, held)"

fun refs_ok :: "'m gameSession option \<Rightarrow> nat \<Rightarrow> bool" where
  "refs_ok None n \<longleftrightarrow> n = 0"
| "refs_ok (Some sess) n \<longleftrightarrow> 0 < n \<and> ses_refs sess = int n"

definition counted :: "('m, 'n) gameSessionStore \<Rightarrow> (string \<Rightarrow> nat) \<Rightarrow> bool" where
  "counted A held \<longleftrightarrow> (\<forall>gid. refs_ok (fmlookup (sst_sessions A) gid) (held gid))"

lemma countedD: "counted A held \<Longrightarrow> refs_ok (fmlookup (sst_sessions A) gid) (held gid)"
  by (simp add: counted_def)

lemma counted_put:
  assumes "counted A held" and "ses_refs sess = int n" and "0 < n"
  shows "counted (put_session gid sess A) (held(gid := n))"
  using assms by (simp add: counted_def)

lemma counted_refs:
  "counted A held \<Longrightarrow> fmlookup (sst_sessions A) gid = Some sess \<Longrightarrow> ses_refs sess = int (held gid) \<and> 0 < held gid"
  using countedD[of A held gid] by simp

lemma counted_keep:
  assumes "counted A held" and "fmlookup (sst_sessions A) gid = Some sess" and "ses_refs sess' = ses_refs sess"
  shows "counted (put_session gid sess' A) held"
  using counted_put[OF assms(1), of sess' "held gid" gid] counted_refs[OF assms(1,2)] assms(3) by simp

lemma step_counted:
  assumes "counted A held" and "session_step marshal op (A, st, held) = (A', st', held')"
  shows "counted A' held'"
proof (cases op)
  case (OpAcquire gid)
  show ?thesis
  proof (cases "fmlookup (sst_sessions A) gid")
    case None
    with assms countedD[OF assms(1), of gid] show ?thesis
      using counted_put[OF assms(1), of "new_session pos" 1 gid for pos]
      by (auto simp: OpAcquire Acquire_def new_session_def split: prod.splits sum.splits)
  next
    case (Some sess)
    with assms(2) counted_refs[OF assms(1) Some] show ?thesis
      using counted_put[OF assms(1), of "sess\<lparr>ses_refs := ses_refs sess + 1\<rparr>" "held gid + 1" gid]
      by (auto simp: OpAcquire Acquire_def)
  qed
next
  case (OpRelease gid)
  show ?thesis
  proof (cases "fmlookup (sst_sessions A) gid")
    case None
    with assms countedD[OF assms(1), of gid] show ?thesis by (simp add: OpRelease)
  next
    case (Some sess)
    note refs = counted_refs[OF assms(1) Some]
    show ?thesis
    proof (cases "held gid = 1")
      case True
      with assms Some refs show ?thesis by (auto simp: OpRelease Release_def counted_def)
    next
      case False
      with refs have "0 < held gid - 1" by linarith
      with assms(2) Some refs False show ?thesis
        using counted_put[OF assms(1), of "sess\<lparr>ses_refs := ses_refs sess - 1\<rparr>" "held gid - 1" gid]
        by (auto simp: OpRelease Release_def Let_def)
    qed
  qed
next
  case (OpRemove gid)
  with assms show ?thesis
    by (auto simp: Sessions_Remove_def on_hub_def intro: counted_keep split: option.splits)
next
  case (OpDeliver gid)
  with assms show ?thesis
    by (auto simp: deliver_def intro: counted_keep split: option.splits if_splits)
qed

end
