(* ===== verification/Ws_Cluster.thy ===== *)
theory Ws_Cluster
  imports Game_Sessions
begin

text \<open>
  The WebSocket connections of one game across all instances. Each run of the \<open>WebSocket\<close> handler
  (\<open>internal/handler/game.go\<close>) is a thread that acquires the game's session on its instance, takes
  its generation and announces it (the two requests of \<open>ClaimConnection\<close>), registers its connection
  and, when its pump returns, unregisters it and releases the session. The step relation
  interleaves these steps of any number of threads on any number of instances with the
  subscribers' deliveries, the sweeper and whatever else happens in Redis.
\<close>

section \<open>States and steps\<close>

datatype phase = Acquired | Counted int | Claimed int | Registered int | Leaving | Gone

record handler =
  wh_inst :: nat
  wh_player :: string
  wh_phase :: phase

record ('m, 'n) cluster =
  cu_st :: "'n rstate"
  cu_insts :: "nat \<Rightarrow> ('m, 'n) gameSessionStore"
  cu_handlers :: "nat \<Rightarrow> handler option"

definition at_phase :: "('m, 'n) cluster \<Rightarrow> nat \<Rightarrow> nat \<Rightarrow> string \<Rightarrow> phase \<Rightarrow> bool" where
  "at_phase u t i pid ph \<longleftrightarrow> cu_handlers u t = Some \<lparr>wh_inst = i, wh_player = pid, wh_phase = ph\<rparr>"

definition go :: "('m, 'n) cluster \<Rightarrow> nat \<Rightarrow> nat \<Rightarrow> string \<Rightarrow> phase \<Rightarrow> ('m, 'n) cluster" where
  "go u t i pid ph = u\<lparr>cu_handlers := (cu_handlers u)(t \<mapsto> \<lparr>wh_inst = i, wh_player = pid, wh_phase = ph\<rparr>)\<rparr>"

definition with_inst :: "('m, 'n) cluster \<Rightarrow> nat \<Rightarrow> ('m, 'n) gameSessionStore \<Rightarrow> ('m, 'n) cluster" where
  "with_inst u i A = u\<lparr>cu_insts := (cu_insts u)(i := A)\<rparr>"

definition with_st :: "('m, 'n) cluster \<Rightarrow> 'n rstate \<Rightarrow> ('m, 'n) cluster" where
  "with_st u st = u\<lparr>cu_st := st\<rparr>"

text \<open>The client of thread \<open>t\<close> is allocated at the address \<open>t\<close>.\<close>

definition alloc :: "nat \<Rightarrow> 'm Client \<Rightarrow> 'm hub_state \<Rightarrow> 'm hub_state" where
  "alloc t c w = w\<lparr>hs_heap := (hs_heap w)(t := c)\<rparr>"

text \<open>
  Anything else that happens in Redis: it leaves the game's connection counters alone and may
  publish events of the game, which are no claims.
\<close>

definition other_traffic :: "string \<Rightarrow> redis_db \<Rightarrow> redis_db \<Rightarrow> bool" where
  "other_traffic gid db db' \<longleftrightarrow> rkeys db' (connectionsKey gid) = rkeys db (connectionsKey gid) \<and>
     (\<exists>ms. rlog db' (channel gid) = rlog db (channel gid) @ ms \<and> (\<forall>m \<in> set ms. pm_Claim m = None))"

inductive ws_step :: "(event option \<Rightarrow> 'm option) \<Rightarrow> string \<Rightarrow> ('m, 'n) cluster \<Rightarrow> ('m, 'n) cluster \<Rightarrow> bool"
  for marshal :: "event option \<Rightarrow> 'm option" and gid :: string where
  acquire: "cu_handlers u t = None \<Longrightarrow> Acquire gid (cu_insts u i) (cu_st u) = (A, st, Inr ()) \<Longrightarrow>
    ws_step marshal gid u (go (with_st (with_inst u i A) st) t i pid Acquired)"
| acquire_fails: "Acquire gid (cu_insts u i) (cu_st u) = (A, st, Inl e) \<Longrightarrow>
    ws_step marshal gid u (with_st (with_inst u i A) st)"
| count: "at_phase u t i pid Acquired \<Longrightarrow>
    next_generation (sst_pub (cu_insts u i)) gid pid (sst_claimTTL (cu_insts u i)) (cu_st u) = (st, Inr seq) \<Longrightarrow>
    ws_step marshal gid u (go (with_st u st) t i pid (Counted seq))"
| count_fails: "at_phase u t i pid Acquired \<Longrightarrow>
    next_generation (sst_pub (cu_insts u i)) gid pid (sst_claimTTL (cu_insts u i)) (cu_st u) = (st, Inl e) \<Longrightarrow>
    ws_step marshal gid u (go (with_st u st) t i pid Leaving)"
| announce: "at_phase u t i pid (Counted seq) \<Longrightarrow>
    publish_msg (sst_pub (cu_insts u i)) (channel gid) (claim_msg pid seq) (cu_st u) = (st, Inr ()) \<Longrightarrow>
    ws_step marshal gid u (go (with_st u st) t i pid (Claimed seq))"
| announce_fails: "at_phase u t i pid (Counted seq) \<Longrightarrow>
    publish_msg (sst_pub (cu_insts u i)) (channel gid) (claim_msg pid seq) (cu_st u) = (st, Inl e) \<Longrightarrow>
    ws_step marshal gid u (go (with_st u st) t i pid Leaving)"
| upgrade_fails: "at_phase u t i pid (Claimed seq) \<Longrightarrow> ws_step marshal gid u (go u t i pid Leaving)"
| register: "at_phase u t i pid (Claimed seq) \<Longrightarrow> fmlookup (sst_sessions (cu_insts u i)) gid = Some sess \<Longrightarrow>
    Hub_Register pid t (alloc t (NewClient pid gid seq) (ses_hub sess)) = (w, ok) \<Longrightarrow>
    ws_step marshal gid u (go (with_inst u i (put_session gid (sess\<lparr>ses_hub := w\<rparr>) (cu_insts u i))) t i pid
                          (if ok then Registered seq else Leaving))"
| unregister: "at_phase u t i pid (Registered seq) \<Longrightarrow>
    ws_step marshal gid u (go (with_inst u i (on_hub gid (Hub_Unregister pid t) (cu_insts u i))) t i pid Leaving)"
| release: "at_phase u t i pid Leaving \<Longrightarrow>
    ws_step marshal gid u (go (with_inst u i (Release gid (cu_insts u i))) t i pid Gone)"
| forward: "ws_step marshal gid u (with_inst u i (deliver marshal gid (rs_db (cu_st u)) (cu_insts u i)))"
| remove: "ws_step marshal gid u (with_inst u i (Sessions_Remove gid (cu_insts u i)))"
| other: "other_traffic gid (rs_db (cu_st u)) (rs_db st) \<Longrightarrow> ws_step marshal gid u (with_st u st)"

inductive ws_reach :: "(event option \<Rightarrow> 'm option) \<Rightarrow> string \<Rightarrow> ('m, 'n) cluster \<Rightarrow> ('m, 'n) cluster \<Rightarrow> bool"
  for marshal :: "event option \<Rightarrow> 'm option" and gid :: string and u0 :: "('m, 'n) cluster" where
  ws_refl: "ws_reach marshal gid u0 u0"
| ws_trans: "ws_reach marshal gid u0 u \<Longrightarrow> ws_step marshal gid u u' \<Longrightarrow> ws_reach marshal gid u0 u'"

text \<open>The start: no session, no thread, no connection of the game counted or announced yet.\<close>

definition ws_start :: "server \<Rightarrow> 'n conn \<Rightarrow> int \<Rightarrow> string \<Rightarrow> 'n rstate \<Rightarrow> ('m, 'n) cluster \<Rightarrow> bool" where
  "ws_start exec L ttl gid st u \<longleftrightarrow> rkeys (rs_db st) (connectionsKey gid) = None \<and> rlog (rs_db st) (channel gid) = [] \<and>
     u = \<lparr>cu_st = st, cu_insts = (\<lambda>i. newGameSessionStore exec L ttl), cu_handlers = (\<lambda>t. None)\<rparr>"

section \<open>The invariant\<close>

fun phase_gen :: "phase \<Rightarrow> int option" where
  "phase_gen Acquired = None"
| "phase_gen (Counted s) = Some s"
| "phase_gen (Claimed s) = Some s"
| "phase_gen (Registered s) = Some s"
| "phase_gen Leaving = None"
| "phase_gen Gone = None"

definition claims :: "string \<Rightarrow> pubsubMsg list \<Rightarrow> int set" where
  "claims pid ms = {cm_Seq c | c. \<exists>m \<in> set ms. pm_Claim m = Some c \<and> cm_PlayerID c = pid}"

definition counter :: "redis_db \<Rightarrow> string \<Rightarrow> string \<Rightarrow> int" where
  "counter db gid pid = (case fmlookup (hash db (connectionsKey gid)) pid of Some (FText x) \<Rightarrow> atoi x | _ \<Rightarrow> 0)"

definition counters_ok :: "redis_db \<Rightarrow> string \<Rightarrow> bool" where
  "counters_ok db gid \<longleftrightarrow> is_hash db (connectionsKey gid) \<and>
     (\<forall>pid. case fmlookup (hash db (connectionsKey gid)) pid of
        None \<Rightarrow> True | Some v \<Rightarrow> \<exists>n. v = FText (itoa n) \<and> 0 \<le> n \<and> n \<le> int64_max)"

definition live :: "('m, 'n) cluster \<Rightarrow> nat \<Rightarrow> nat set" where
  "live u i = {t. \<exists>h. cu_handlers u t = Some h \<and> wh_inst h = i \<and> wh_phase h \<noteq> Gone}"

text \<open>The messages that a session has forwarded.\<close>

definition forwarded :: "'m gameSession \<Rightarrow> pubsubMsg list \<Rightarrow> pubsubMsg list" where
  "forwarded sess log = drop (ses_start sess) (take (ses_pos sess) log)"

text \<open>
  A session: every claim published before its subscription is older than its threads' generations;
  every claim it has forwarded is known to the hub; the clients in the hub are those of registered
  threads with the latest generation; a registered thread that is not in the hub is superseded.
\<close>

definition older_claims :: "('m, 'n) cluster \<Rightarrow> pubsubMsg list \<Rightarrow> nat \<Rightarrow> bool" where
  "older_claims u log i \<longleftrightarrow> (\<forall>t pid ph s. at_phase u t i pid ph \<longrightarrow> phase_gen ph = Some s \<longrightarrow> (\<forall>n \<in> claims pid log. n < s))"

definition hub_knows :: "pubsubMsg list \<Rightarrow> (string \<Rightarrow> int) \<Rightarrow> Hub \<Rightarrow> bool" where
  "hub_knows log cnt h \<longleftrightarrow> (\<forall>pid. latest_of h pid \<le> cnt pid \<and> (\<forall>n \<in> claims pid log. n \<le> latest_of h pid))"

definition clients_latest :: "('m, 'n) cluster \<Rightarrow> nat \<Rightarrow> 'm hub_state \<Rightarrow> bool" where
  "clients_latest u i w \<longleftrightarrow> (\<forall>pid c. fmlookup (hb_clients (hs_hub w)) pid = Some c \<longrightarrow>
     at_phase u c i pid (Registered (latest_of (hs_hub w) pid)) \<and> cl_seq (hs_heap w c) = latest_of (hs_hub w) pid)"

definition registered_or_old :: "('m, 'n) cluster \<Rightarrow> nat \<Rightarrow> Hub \<Rightarrow> bool" where
  "registered_or_old u i h \<longleftrightarrow> (\<forall>t pid s. at_phase u t i pid (Registered s) \<longrightarrow>
     fmlookup (hb_clients h) pid = Some t \<or> s < latest_of h pid)"

definition session_inv :: "('m, 'n) cluster \<Rightarrow> pubsubMsg list \<Rightarrow> (string \<Rightarrow> int) \<Rightarrow> nat \<Rightarrow> 'm gameSession \<Rightarrow> bool" where
  "session_inv u log cnt i sess \<longleftrightarrow> ses_start sess \<le> ses_pos sess \<and> ses_pos sess \<le> length log \<and>
     older_claims u (take (ses_start sess) log) i \<and>
     hub_knows (forwarded sess log) cnt (hs_hub (ses_hub sess)) \<and>
     clients_latest u i (ses_hub sess) \<and>
     registered_or_old u i (hs_hub (ses_hub sess))"

definition gens_inv :: "('m, 'n) cluster \<Rightarrow> pubsubMsg list \<Rightarrow> (string \<Rightarrow> int) \<Rightarrow> bool" where
  "gens_inv u log cnt \<longleftrightarrow>
     (\<forall>pid. \<forall>n \<in> claims pid log. n \<le> cnt pid) \<and>
     (\<forall>t i pid ph s. at_phase u t i pid ph \<longrightarrow> phase_gen ph = Some s \<longrightarrow> 1 \<le> s \<and> s \<le> cnt pid) \<and>
     (\<forall>t i pid s. at_phase u t i pid (Claimed s) \<or> at_phase u t i pid (Registered s) \<longrightarrow> s \<in> claims pid log) \<and>
     (\<forall>t t' i i' pid ph ph' s. at_phase u t i pid ph \<longrightarrow> at_phase u t' i' pid ph' \<longrightarrow>
        phase_gen ph = Some s \<longrightarrow> phase_gen ph' = Some s \<longrightarrow> t = t')"

definition cluster_inv :: "server \<Rightarrow> string \<Rightarrow> ('m, 'n) cluster \<Rightarrow> bool" where
  "cluster_inv exec gid u \<longleftrightarrow>
     counters_ok (rs_db (cu_st u)) gid \<and>
     finite {t. cu_handlers u t \<noteq> None} \<and>
     (\<forall>i. pb_exec (sst_pub (cu_insts u i)) = exec \<and> 0 < sst_claimTTL (cu_insts u i)) \<and>
     gens_inv u (rlog (rs_db (cu_st u)) (channel gid)) (counter (rs_db (cu_st u)) gid) \<and>
     (\<forall>i. refs_ok (fmlookup (sst_sessions (cu_insts u i)) gid) (card (live u i))) \<and>
     (\<forall>i sess. fmlookup (sst_sessions (cu_insts u i)) gid = Some sess \<longrightarrow>
        session_inv u (rlog (rs_db (cu_st u)) (channel gid)) (counter (rs_db (cu_st u)) gid) i sess)"

section \<open>Frame lemmas\<close>

lemma cluster_simps [simp]:
  "cu_st (go u t i pid ph) = cu_st u" "cu_insts (go u t i pid ph) = cu_insts u"
  "cu_st (with_inst u i A) = cu_st u" "cu_handlers (with_inst u i A) = cu_handlers u"
  "cu_insts (with_inst u i A) = (cu_insts u)(i := A)"
  "cu_st (with_st u st) = st" "cu_handlers (with_st u st) = cu_handlers u" "cu_insts (with_st u st) = cu_insts u"
  "at_phase (with_inst u i A) = at_phase u" "at_phase (with_st u st) = at_phase u"
  "live (with_inst u i A) = live u" "live (with_st u st) = live u"
  by (simp_all add: go_def with_inst_def with_st_def at_phase_def live_def fun_eq_iff)

lemma at_phase_go [simp]:
  "at_phase (go u t i pid ph) t' i' pid' ph' \<longleftrightarrow>
     (if t' = t then i' = i \<and> pid' = pid \<and> ph' = ph else at_phase u t' i' pid' ph')"
  by (auto simp: at_phase_def go_def)

lemma at_phase_unique: "at_phase u t i pid ph \<Longrightarrow> at_phase u t i' pid' ph' \<Longrightarrow> i' = i \<and> pid' = pid \<and> ph' = ph"
  by (simp add: at_phase_def)

lemma handlers_go: "cu_handlers (go u t i pid ph) = (cu_handlers u)(t \<mapsto> \<lparr>wh_inst = i, wh_player = pid, wh_phase = ph\<rparr>)"
  by (simp add: go_def)

lemma finite_go: "finite {t'. cu_handlers (go u t i pid ph) t' \<noteq> None} = finite {t'. cu_handlers u t' \<noteq> None}"
proof -
  have "{t'. cu_handlers (go u t i pid ph) t' \<noteq> None} = insert t {t'. cu_handlers u t' \<noteq> None}"
    by (auto simp: handlers_go)
  then show ?thesis by simp
qed

lemma live_go:
  "live (go u t i pid ph) j = (if j = i \<and> ph \<noteq> Gone then insert t (live u j) else live u j - {t})"
  by (auto simp: live_def handlers_go)

lemma live_go_same:
  "at_phase u t i pid ph0 \<Longrightarrow> ph0 \<noteq> Gone \<Longrightarrow> ph \<noteq> Gone \<Longrightarrow> live (go u t i pid ph) = live u"
  by (auto simp: live_def handlers_go at_phase_def fun_eq_iff)

lemma live_finite: "finite {t. cu_handlers u t \<noteq> None} \<Longrightarrow> finite (live u i)"
  by (rule finite_subset[of _ "{t. cu_handlers u t \<noteq> None}"]) (auto simp: live_def)

lemma at_phase_live: "at_phase u t i pid ph \<Longrightarrow> ph \<noteq> Gone \<Longrightarrow> t \<in> live u i"
  by (simp add: at_phase_def live_def)

lemma claims_append [simp]: "claims pid (xs @ ys) = claims pid xs \<union> claims pid ys"
  by (auto simp: claims_def)

lemma claims_Nil [simp]: "claims pid [] = {}"
  by (simp add: claims_def)

lemma claims_none: "(\<forall>m \<in> set ms. pm_Claim m = None) \<Longrightarrow> claims pid ms = {}"
  by (auto simp: claims_def)

lemma claims_claim_msg [simp]: "claims pid [claim_msg p n] = (if p = pid then {n} else {})"
  by (auto simp: claims_def claim_msg_def)

lemma claims_take: "claims pid (take n ms) \<subseteq> claims pid ms"
  using set_take_subset[of n ms] by (fastforce simp: claims_def)

lemma counter_keys: "rkeys db' (connectionsKey gid) = rkeys db (connectionsKey gid) \<Longrightarrow>
    counter db' gid = counter db gid \<and> counters_ok db' gid = counters_ok db gid"
  by (simp add: counter_def counters_ok_def hash_def is_hash_def fun_eq_iff)

lemma counter_nonneg: "counters_ok db gid \<Longrightarrow> 0 \<le> counter db gid pid"
  by (auto simp: counters_ok_def counter_def int64_min_def split: option.splits dest!: spec[of _ pid])

text \<open>More traffic, higher counters.\<close>

lemma gens_inv_mono:
  assumes "gens_inv u log cnt" and "\<And>pid. cnt pid \<le> cnt' pid" and "\<And>pid n. n \<in> claims pid ms \<Longrightarrow> n \<le> cnt' pid"
  shows "gens_inv u (log @ ms) cnt'"
  using assms unfolding gens_inv_def claims_append by (meson UnE UnI1 order_trans)

lemma session_inv_mono:
  assumes "session_inv u log cnt i sess" and "\<And>pid. cnt pid \<le> cnt' pid"
  shows "session_inv u (log @ ms) cnt' i sess"
proof -
  have "ses_start sess \<le> length log" "ses_pos sess \<le> length log"
    using assms(1) by (auto simp: session_inv_def)
  then have "take (ses_start sess) (log @ ms) = take (ses_start sess) log" "forwarded sess (log @ ms) = forwarded sess log"
    by (simp_all add: forwarded_def)
  moreover have "hub_knows (forwarded sess log) cnt' (hs_hub (ses_hub sess))"
    using assms unfolding session_inv_def hub_knows_def by (meson order_trans)
  ultimately show ?thesis using assms(1) by (simp add: session_inv_def)
qed

text \<open>A thread that moves on without registering or unregistering.\<close>

definition keeps_gen :: "phase \<Rightarrow> phase \<Rightarrow> bool" where
  "keeps_gen ph ph' \<longleftrightarrow> (\<forall>s. ph \<noteq> Registered s \<and> ph' \<noteq> Registered s) \<and> (phase_gen ph' = None \<or> phase_gen ph' = phase_gen ph)"

lemma session_inv_go:
  assumes "session_inv u log cnt j sess" and "at_phase u t i pid ph" and "keeps_gen ph ph'"
  shows "session_inv (go u t i pid ph') log cnt j sess"
proof -
  have g: "phase_gen ph' = Some s \<Longrightarrow> phase_gen ph = Some s" "ph' \<noteq> Registered s" "ph \<noteq> Registered s" for s
    using assms(3) by (auto simp: keeps_gen_def)
  have "older_claims (go u t i pid ph') l j" if "older_claims u l j" for l
    using that assms(2) g(1) unfolding older_claims_def at_phase_go by metis
  moreover have "clients_latest (go u t i pid ph') j w" if "clients_latest u j w" for w :: "'a hub_state"
    using that at_phase_unique[OF assms(2)] g(3) unfolding clients_latest_def at_phase_go by metis
  moreover have "registered_or_old (go u t i pid ph') j h" if "registered_or_old u j h" for h
    using that g(2) unfolding registered_or_old_def at_phase_go by metis
  ultimately show ?thesis using assms(1) by (simp add: session_inv_def)
qed

lemma session_inv_new_thread:
  assumes "session_inv u log cnt j sess" and "cu_handlers u t = None"
  shows "session_inv (go u t i pid Acquired) log cnt j sess"
proof -
  have n: "\<not> at_phase u t i' pid' ph" for i' pid' ph
    using assms(2) by (simp add: at_phase_def)
  have "older_claims (go u t i pid Acquired) l j" if "older_claims u l j" for l
    using that unfolding older_claims_def at_phase_go by auto
  moreover have "clients_latest (go u t i pid Acquired) j w" if "clients_latest u j w" for w :: "'a hub_state"
    using that n unfolding clients_latest_def at_phase_go by metis
  moreover have "registered_or_old (go u t i pid Acquired) j h" if "registered_or_old u j h" for h
    using that unfolding registered_or_old_def at_phase_go by auto
  ultimately show ?thesis using assms(1) by (simp add: session_inv_def)
qed

text \<open>Threads that hold generations they held before.\<close>

lemma gens_inv_sub:
  assumes "gens_inv u log cnt"
    and p: "\<And>t i pid ph s. at_phase u' t i pid ph \<Longrightarrow> phase_gen ph = Some s \<Longrightarrow>
      \<exists>ph0. at_phase u t i pid ph0 \<and> phase_gen ph0 = Some s"
    and c: "\<And>t i pid s. at_phase u' t i pid (Claimed s) \<or> at_phase u' t i pid (Registered s) \<Longrightarrow> s \<in> claims pid log"
  shows "gens_inv u' log cnt"
  unfolding gens_inv_def
proof (intro conjI)
  show "\<forall>pid. \<forall>n\<in>claims pid log. n \<le> cnt pid" using assms(1) by (simp add: gens_inv_def)
next
  show "\<forall>t i pid ph s. at_phase u' t i pid ph \<longrightarrow> phase_gen ph = Some s \<longrightarrow> 1 \<le> s \<and> s \<le> cnt pid"
    using p assms(1) unfolding gens_inv_def by meson
next
  show "\<forall>t i pid s. at_phase u' t i pid (Claimed s) \<or> at_phase u' t i pid (Registered s) \<longrightarrow> s \<in> claims pid log"
    using c by blast
next
  show "\<forall>t t' i i' pid ph ph' s. at_phase u' t i pid ph \<longrightarrow> at_phase u' t' i' pid ph' \<longrightarrow>
      phase_gen ph = Some s \<longrightarrow> phase_gen ph' = Some s \<longrightarrow> t = t'"
    using p assms(1) unfolding gens_inv_def by meson
qed

lemma inv_cong:
  assumes "at_phase u' = at_phase u"
  shows "gens_inv u' log cnt = gens_inv u log cnt" and "session_inv u' log cnt j sess = session_inv u log cnt j sess"
  by (simp_all only: gens_inv_def session_inv_def older_claims_def clients_latest_def registered_or_old_def assms)

lemma gens_inv_claim:
  "gens_inv u log cnt \<Longrightarrow> at_phase u t i pid (Claimed s) \<or> at_phase u t i pid (Registered s) \<Longrightarrow> s \<in> claims pid log"
  unfolding gens_inv_def by blast

lemma gens_inv_go:
  assumes "gens_inv u log cnt" and "at_phase u t i pid ph"
    and "phase_gen ph' = None \<or> phase_gen ph' = phase_gen ph" and "\<And>s. ph' \<noteq> Registered s"
    and "\<And>s. ph' = Claimed s \<Longrightarrow> s \<in> claims pid log"
  shows "gens_inv (go u t i pid ph') log cnt"
proof (rule gens_inv_sub[OF assms(1)])
  show "\<exists>ph0. at_phase u t' i' pid' ph0 \<and> phase_gen ph0 = Some s"
    if "at_phase (go u t i pid ph') t' i' pid' ph''" "phase_gen ph'' = Some s" for t' i' pid' ph'' s
    using that assms(2,3) by (cases "t' = t") auto
  show "s \<in> claims pid' log"
    if "at_phase (go u t i pid ph') t' i' pid' (Claimed s) \<or> at_phase (go u t i pid ph') t' i' pid' (Registered s)"
    for t' i' pid' s
    using that gens_inv_claim[OF assms(1)] assms(4)[of s] assms(5)[of s] by (cases "t' = t") auto
qed

lemma gens_inv_new_thread:
  assumes "gens_inv u log cnt"
  shows "gens_inv (go u t i pid Acquired) log cnt"
proof (rule gens_inv_sub[OF assms])
  show "\<exists>ph0. at_phase u t' i' pid' ph0 \<and> phase_gen ph0 = Some s"
    if "at_phase (go u t i pid Acquired) t' i' pid' ph" "phase_gen ph = Some s" for t' i' pid' ph s
    using that by (cases "t' = t") auto
  show "s \<in> claims pid' log"
    if "at_phase (go u t i pid Acquired) t' i' pid' (Claimed s) \<or> at_phase (go u t i pid Acquired) t' i' pid' (Registered s)"
    for t' i' pid' s
    using that gens_inv_claim[OF assms] by (cases "t' = t") auto
qed

lemma gens_register:
  assumes "gens_inv u log cnt" and "at_phase u t i pid (Claimed seq)"
  shows "gens_inv (go u t i pid (Registered seq)) log cnt"
proof (rule gens_inv_sub[OF assms(1)])
  show "\<exists>ph0. at_phase u t' i' pid' ph0 \<and> phase_gen ph0 = Some s"
    if "at_phase (go u t i pid (Registered seq)) t' i' pid' ph" "phase_gen ph = Some s" for t' i' pid' ph s
    using that assms(2) by (cases "t' = t") (auto intro: exI[of _ "Claimed seq"])
  show "s \<in> claims pid' log"
    if "at_phase (go u t i pid (Registered seq)) t' i' pid' (Claimed s) \<or>
        at_phase (go u t i pid (Registered seq)) t' i' pid' (Registered s)" for t' i' pid' s
    using that gens_inv_claim[OF assms(1)] assms(2) by (cases "t' = t") auto
qed

text \<open>What a session needs of its hub: the maps, and the generations of the clients.\<close>

definition same_hub :: "'m hub_state \<Rightarrow> 'm hub_state \<Rightarrow> bool" where
  "same_hub w w' \<longleftrightarrow> hs_hub w' = hs_hub w \<and> (\<forall>c. cl_seq (hs_heap w' c) = cl_seq (hs_heap w c))"

lemma session_inv_same_hub:
  assumes "session_inv u log cnt i sess" and "same_hub (ses_hub sess) w"
  shows "session_inv u log cnt i (sess\<lparr>ses_hub := w\<rparr>)"
  using assms by (simp add: session_inv_def same_hub_def forwarded_def clients_latest_def)

lemma same_hub_refl [simp]: "same_hub w w"
  by (simp add: same_hub_def)

lemma same_hub_fold: "(\<And>x w. same_hub w (f x w)) \<Longrightarrow> same_hub w (fold f xs w)"
  by (induction xs arbitrary: w) (simp_all add: same_hub_def)

lemma same_hub_close: "same_hub w (hub_close c w)"
  by (simp add: same_hub_def hub_close_def client_Close_def)

lemma same_hub_send: "same_hub w (send_to msg c w)"
  by (simp add: same_hub_def send_to_def client_send_def)

lemma same_hub_ops [simp]:
  "same_hub w (Hub_CloseAll w)" "same_hub w (Hub_Broadcast marshal e w)" "same_hub w (Hub_BroadcastTo marshal pid e w)"
  by (auto simp: Hub_CloseAll_def Hub_Broadcast_def Hub_BroadcastTo_def same_hub_send
      intro!: same_hub_fold same_hub_close split: option.split)

section \<open>What the requests do\<close>

lemma set_expiry_frame [simp]: "rkeys (set_expiry k e db) = rkeys db" "rlog (set_expiry k e db) = rlog db"
  by (simp_all add: set_expiry_def)

lemma publish_log_frame [simp]: "rkeys (publish_log ch m db) = rkeys db"
  "rlog (publish_log ch m db) ch' = (if ch' = ch then rlog db ch @ [m] else rlog db ch')"
  by (simp_all add: publish_log_def)

lemma counter_field: "counters_ok db gid \<Longrightarrow>
    (case fmlookup (hash db (connectionsKey gid)) pid of None \<Rightarrow> counter db gid pid = 0
     | Some v \<Rightarrow> v = FText (itoa (counter db gid pid)))"
  by (auto simp: counters_ok_def counter_def int64_min_def split: option.splits dest!: spec[of _ pid])

lemma counter_max: "counters_ok db gid \<Longrightarrow> counter db gid pid \<le> int64_max"
  by (auto simp: counters_ok_def counter_def int64_min_def int64_max_def split: option.splits dest!: spec[of _ pid])

lemma counter_put:
  assumes "counters_ok db gid" and "0 \<le> n" and "n \<le> int64_max"
    and "db' = put (connectionsKey gid) (RHash (fmupd pid (FText (itoa n)) (hash db (connectionsKey gid)))) db"
  shows "counters_ok db' gid \<and> counter db' gid = (counter db gid)(pid := n)"
proof -
  let ?k = "connectionsKey gid" and ?h = "fmupd pid (FText (itoa n)) (hash db (connectionsKey gid))"
  have h: "hash db' ?k = ?h" and i: "is_hash db' ?k"
    by (simp_all add: assms(4) put_def hash_def is_hash_def)
  have "counter db' gid p = ((counter db gid)(pid := n)) p" for p
    using assms(2,3) by (simp add: counter_def h int64_min_def)
  moreover have "counters_ok db' gid"
    using assms(1-3) i unfolding counters_ok_def h by simp
  ultimately show ?thesis by auto
qed

context redis_server
begin

lemma next_generation_effect:
  assumes "pb_exec P = exec" and "0 < ttl" and "counters_ok (rs_db st) gid"
    and "next_generation P gid pid ttl st = (st', r)"
  shows "counters_ok (rs_db st') gid \<and> rlog (rs_db st') = rlog (rs_db st) \<and>
    (\<forall>p. counter (rs_db st) gid p \<le> counter (rs_db st') gid p) \<and>
    (\<forall>s. r = Inr s \<longrightarrow> s = counter (rs_db st) gid pid + 1 \<and>
       counter (rs_db st') gid = (counter (rs_db st) gid)(pid := s))"
proof -
  let ?k = "connectionsKey gid" and ?i = "counter (rs_db st) gid pid" and ?t = "UnixMilli (cn_now (pb_conn P) (rs_net st))"
  let ?db = "put ?k (RHash (fmupd pid (FText (itoa (?i + 1))) (hash (rs_db st) ?k))) (rs_db st)"
  have inc: "exec (HINCRBY ?k pid 1) ?t (rs_db st) =
      (if ?i + 1 \<le> int64_max then (?db, RInt (?i + 1)) else (rs_db st, RError))"
    using hincrby[where db = "rs_db st" and k = ?k and f = pid and i = ?i and n = 1 and t = ?t] counter_field[OF assms(3), of pid] counter_max[OF assms(3), of pid]
      counter_nonneg[OF assms(3), of pid] assms(3)
    by (simp add: counters_ok_def int64_min_def)
  have same: "counters_ok (set_expiry k e (rs_db st)) gid" "counter (set_expiry k e (rs_db st)) gid = counter (rs_db st) gid" for k e
    using counter_keys[of "set_expiry k e (rs_db st)" gid "rs_db st"] assms(3) by simp_all
  have new: "counters_ok (set_expiry k e ?db) gid \<and> counter (set_expiry k e ?db) gid = (counter (rs_db st) gid)(pid := ?i + 1)"
    if "?i + 1 \<le> int64_max" for k e
    using counter_put[OF assms(3), of "?i + 1" ?db pid] counter_keys[of "set_expiry k e ?db" gid ?db] that
      counter_nonneg[OF assms(3), of pid] by simp
  obtain n1 n2 where e1: "exec (EXPIRE ?k ttl) ?t ?db = (set_expiry ?k (?t + whole_seconds ttl) ?db, RInt n1)"
    and e2: "exec (EXPIRE ?k ttl) ?t (rs_db st) = (set_expiry ?k (?t + whole_seconds ttl) (rs_db st), RInt n2)"
    using expire[OF assms(2)] by blast
  have log: "rlog ?db = rlog (rs_db st)" by (simp add: put_def)
  show ?thesis
  proof (cases "?i + 1 \<le> int64_max")
    case True
    with assms(1,3,4) inc e1 new[OF True] log show ?thesis
      by (auto simp: next_generation_def pipelined_def request_def reply_error_def split: prod.splits delivery.splits)
  next
    case False
    with assms(1,3,4) inc e2 same show ?thesis
      by (auto simp: next_generation_def pipelined_def request_def reply_error_def split: prod.splits delivery.splits)
  qed
qed

lemma publish_msg_effect:
  assumes "pb_exec P = exec" and "publish_msg P ch msg st = (st', r)"
  shows "rkeys (rs_db st') = rkeys (rs_db st) \<and>
    (rs_db st' = rs_db st \<and> r \<noteq> Inr () \<or> rs_db st' = publish_log ch msg (rs_db st))"
proof -
  let ?t = "UnixMilli (cn_now (pb_conn P) (rs_net st))"
  obtain n where "exec (PUBLISH ch msg) ?t (rs_db st) = (publish_log ch msg (rs_db st), RInt n)"
    using publish by blast
  with assms show ?thesis
    by (auto simp: publish_msg_def request_def reply_error_def split: prod.splits delivery.splits)
qed

end

section \<open>Preservation\<close>

lemma hub_close_frame [simp]:
  "hs_hub (hub_close c w) = hs_hub w" "cl_seq (hs_heap (hub_close c w) d) = cl_seq (hs_heap w d)"
  by (simp_all add: hub_close_def client_Close_def)

lemma fold_close_seq [simp]:
  "hs_hub (fold hub_close cs w) = hs_hub w" "cl_seq (hs_heap (fold hub_close cs w) c) = cl_seq (hs_heap w c)"
proof -
  have "same_hub w (fold hub_close cs w)" by (rule same_hub_fold) (rule same_hub_close)
  then show "hs_hub (fold hub_close cs w) = hs_hub w" "cl_seq (hs_heap (fold hub_close cs w) c) = cl_seq (hs_heap w c)"
    by (simp_all add: same_hub_def)
qed

text \<open>A claim forwarded to the hub.\<close>

lemma claim_effect:
  assumes "w' = Hub_Claim p n w"
  shows "latest_of (hs_hub w') pid = (if pid = p then max n (latest_of (hs_hub w) pid) else latest_of (hs_hub w) pid) \<and>
    cl_seq (hs_heap w' c) = cl_seq (hs_heap w c) \<and>
    fmlookup (hb_clients (hs_hub w')) pid =
      (case fmlookup (hb_clients (hs_hub w)) pid of
         None \<Rightarrow> None | Some d \<Rightarrow> if pid = p \<and> cl_seq (hs_heap w d) < n then None else Some d)"
proof (cases "fmlookup (hb_clients (hs_hub w)) p")
  case None
  then show ?thesis
    by (simp add: assms Hub_Claim_def Claim_cs_def Let_def latest_of_upd split: option.split)
next
  case (Some d)
  show ?thesis
  proof (cases "cl_seq (hs_heap w d) < n")
    case True
    with Some show ?thesis
      by (simp add: assms Hub_Claim_def Claim_cs_def Let_def latest_of_upd split: option.split)
  next
    case False
    with Some show ?thesis
      by (simp add: assms Hub_Claim_def Claim_cs_def Let_def latest_of_upd split: option.split)
  qed
qed

lemma clients_latest_claim:
  assumes "clients_latest u i w" and "registered_or_old u i (hs_hub w)" and "w' = Hub_Claim p n w"
  shows "clients_latest u i w' \<and> registered_or_old u i (hs_hub w')"
proof -
  note e = claim_effect[OF assms(3)]
  have "clients_latest u i w'"
    unfolding clients_latest_def
  proof (intro allI impI)
    fix pid c assume c: "fmlookup (hb_clients (hs_hub w')) pid = Some c"
    then have d: "fmlookup (hb_clients (hs_hub w)) pid = Some c" "\<not> (pid = p \<and> cl_seq (hs_heap w c) < n)"
      using e[of pid c] by (simp_all split: option.splits if_splits)
    from d(1) assms(1) have old: "at_phase u c i pid (Registered (latest_of (hs_hub w) pid))"
        "cl_seq (hs_heap w c) = latest_of (hs_hub w) pid"
      by (auto simp: clients_latest_def)
    then have "latest_of (hs_hub w') pid = latest_of (hs_hub w) pid" using d(2) e[of pid c] by auto
    with old e[of pid c] show "at_phase u c i pid (Registered (latest_of (hs_hub w') pid)) \<and>
        cl_seq (hs_heap w' c) = latest_of (hs_hub w') pid" by simp
  qed
  moreover have "registered_or_old u i (hs_hub w')"
    unfolding registered_or_old_def
  proof (intro allI impI)
    fix t pid s assume t: "at_phase u t i pid (Registered s)"
    with assms(2) have "fmlookup (hb_clients (hs_hub w)) pid = Some t \<or> s < latest_of (hs_hub w) pid"
      by (simp add: registered_or_old_def)
    moreover have "s = latest_of (hs_hub w) pid \<and> cl_seq (hs_heap w t) = s"
      if "fmlookup (hb_clients (hs_hub w)) pid = Some t"
    proof -
      have c: "at_phase u t i pid (Registered (latest_of (hs_hub w) pid))" "cl_seq (hs_heap w t) = latest_of (hs_hub w) pid"
        using that assms(1) unfolding clients_latest_def by blast+
      from at_phase_unique[OF t c(1)] c(2) show ?thesis by simp
    qed
    ultimately show "fmlookup (hb_clients (hs_hub w')) pid = Some t \<or> s < latest_of (hs_hub w') pid"
      using e[of pid t] by (cases "pid = p") auto
  qed
  ultimately show ?thesis ..
qed

text \<open>A registration of a thread that has announced its generation.\<close>

lemma register_effect:
  assumes "Hub_Register pid t (alloc t (NewClient pid gid seq) w) = (w', ok)"
  shows "ok = (latest_of (hs_hub w) pid \<le> seq) \<and>
    (c \<noteq> t \<longrightarrow> cl_seq (hs_heap w' c) = cl_seq (hs_heap w c)) \<and> cl_seq (hs_heap w' t) = seq \<and>
    latest_of (hs_hub w') p = (if ok \<and> p = pid then seq else latest_of (hs_hub w) p) \<and>
    fmlookup (hb_clients (hs_hub w')) p = (if ok \<and> p = pid then Some t else fmlookup (hb_clients (hs_hub w)) p)"
proof -
  define w1 where "w1 = alloc t (NewClient pid gid seq) w"
  have w1: "hs_hub w1 = hs_hub w" "cl_seq (hs_heap w1 t) = seq" "c \<noteq> t \<Longrightarrow> cl_seq (hs_heap w1 c) = cl_seq (hs_heap w c)"
    by (simp_all add: w1_def alloc_def NewClient_def)
  show ?thesis
    using assms w1 unfolding w1_def[symmetric] Hub_Register_def
    by (cases "seq < latest_of (hs_hub w) pid") (auto simp: Register_cs_def Let_def latest_of_def split: option.splits)
qed

lemma session_register:
  assumes inv: "session_inv u log cnt i sess" and gens: "gens_inv u log cnt"
    and t: "at_phase u t i pid (Claimed seq)"
    and reg: "Hub_Register pid t (alloc t (NewClient pid gid seq) (ses_hub sess)) = (w, ok)"
  shows "session_inv (go u t i pid (if ok then Registered seq else Leaving)) log cnt i (sess\<lparr>ses_hub := w\<rparr>)"
proof -
  let ?ph = "if ok then Registered seq else Leaving" and ?h = "hs_hub (ses_hub sess)"
  note e = register_effect[OF reg]
  note parts = inv[unfolded session_inv_def]
  have nr: "\<not> at_phase u t i' pid' (Registered s)" for i' pid' s
    using at_phase_unique[OF t] by blast
  have "older_claims (go u t i pid ?ph) (take (ses_start sess) log) i"
    using parts t unfolding older_claims_def at_phase_go by (auto split: if_splits)
  moreover have "hub_knows (forwarded sess log) cnt (hs_hub w)"
  proof -
    have "seq \<le> cnt pid" using gens t unfolding gens_inv_def by (metis phase_gen.simps(3))
    moreover have "hub_knows (forwarded sess log) cnt ?h" using parts by blast
    ultimately show ?thesis using e unfolding hub_knows_def by (auto intro: order_trans)
  qed
  moreover have "clients_latest (go u t i pid ?ph) i w"
    unfolding clients_latest_def
  proof (intro allI impI)
    fix p c assume c: "fmlookup (hb_clients (hs_hub w)) p = Some c"
    show "at_phase (go u t i pid ?ph) c i p (Registered (latest_of (hs_hub w) p)) \<and>
        cl_seq (hs_heap w c) = latest_of (hs_hub w) p"
    proof (cases "ok \<and> p = pid")
      case True
      with c e show ?thesis by simp
    next
      case False
      with c e have old: "fmlookup (hb_clients ?h) p = Some c" by (auto split: if_splits)
      then have r: "at_phase u c i p (Registered (latest_of ?h p))" "cl_seq (hs_heap (ses_hub sess) c) = latest_of ?h p"
        using parts unfolding clients_latest_def by blast+
      with nr have "c \<noteq> t" by blast
      with r e[of c p] False show ?thesis by auto
    qed
  qed
  moreover have "registered_or_old (go u t i pid ?ph) i (hs_hub w)"
    unfolding registered_or_old_def
  proof (intro allI impI)
    fix t' p s assume a: "at_phase (go u t i pid ?ph) t' i p (Registered s)"
    show "fmlookup (hb_clients (hs_hub w)) p = Some t' \<or> s < latest_of (hs_hub w) p"
    proof (cases "t' = t")
      case True
      with a e show ?thesis by (auto split: if_splits)
    next
      case False
      with a have r: "at_phase u t' i p (Registered s)" by simp
      then have "fmlookup (hb_clients ?h) p = Some t' \<and> s = latest_of ?h p \<or> s < latest_of ?h p"
        using parts r at_phase_unique[OF r] unfolding registered_or_old_def clients_latest_def
        by (metis phase.inject(3))
      moreover have "s \<noteq> seq" if "p = pid"
        using that False r t gens unfolding gens_inv_def by (metis phase_gen.simps(3,4))
      ultimately show ?thesis using e by auto
    qed
  qed
  ultimately show ?thesis using parts by (simp add: session_inv_def forwarded_def)
qed

text \<open>An unregistration.\<close>

lemma session_unregister:
  assumes inv: "session_inv u log cnt i sess" and t: "at_phase u t i pid (Registered seq)"
  shows "session_inv (go u t i pid Leaving) log cnt i (sess\<lparr>ses_hub := Hub_Unregister pid t (ses_hub sess)\<rparr>)"
proof -
  let ?w = "ses_hub sess" and ?w' = "Hub_Unregister pid t (ses_hub sess)"
  have e: "latest_of (hs_hub ?w') p = latest_of (hs_hub ?w) p" "hs_heap ?w' = hs_heap ?w"
    "fmlookup (hb_clients (hs_hub ?w')) p = (if p = pid \<and> fmlookup (hb_clients (hs_hub ?w)) pid = Some t then None
       else fmlookup (hb_clients (hs_hub ?w)) p)" for p
    by (simp_all add: Hub_Unregister_def Let_def)
  note parts = inv[unfolded session_inv_def]
  have "older_claims (go u t i pid Leaving) (take (ses_start sess) log) i"
    using parts unfolding older_claims_def at_phase_go by (auto split: if_splits)
  moreover have "hub_knows (forwarded sess log) cnt (hs_hub ?w')"
    using parts e unfolding hub_knows_def by simp
  moreover have "clients_latest (go u t i pid Leaving) i ?w'"
    unfolding clients_latest_def
  proof (intro allI impI)
    fix p c assume c: "fmlookup (hb_clients (hs_hub ?w')) p = Some c"
    with e have old: "fmlookup (hb_clients (hs_hub ?w)) p = Some c" "\<not> (p = pid \<and> c = t)"
      by (auto split: if_splits)
    then have r: "at_phase u c i p (Registered (latest_of (hs_hub ?w) p))" "cl_seq (hs_heap ?w c) = latest_of (hs_hub ?w) p"
      using parts unfolding clients_latest_def by blast+
    with old(2) at_phase_unique[OF t] have "c \<noteq> t" by blast
    with r e show "at_phase (go u t i pid Leaving) c i p (Registered (latest_of (hs_hub ?w') p)) \<and>
        cl_seq (hs_heap ?w' c) = latest_of (hs_hub ?w') p" by simp
  qed
  moreover have "registered_or_old (go u t i pid Leaving) i (hs_hub ?w')"
    unfolding registered_or_old_def
  proof (intro allI impI)
    fix t' p s assume a: "at_phase (go u t i pid Leaving) t' i p (Registered s)"
    then have r: "t' \<noteq> t" "at_phase u t' i p (Registered s)" by (auto split: if_splits)
    then have "fmlookup (hb_clients (hs_hub ?w)) p = Some t' \<or> s < latest_of (hs_hub ?w) p"
      using parts unfolding registered_or_old_def by blast
    with r(1) e show "fmlookup (hb_clients (hs_hub ?w')) p = Some t' \<or> s < latest_of (hs_hub ?w') p" by auto
  qed
  ultimately show ?thesis using parts by (simp add: session_inv_def forwarded_def)
qed

lemma session_leaves_other:
  assumes inv: "session_inv u log cnt j sess" and t: "at_phase u t i pid ph" and "j \<noteq> i"
  shows "session_inv (go u t i pid ph') log cnt j sess"
proof -
  note parts = inv[unfolded session_inv_def]
  have "older_claims (go u t i pid ph') (take (ses_start sess) log) j"
    using parts assms(3) unfolding older_claims_def at_phase_go by (auto split: if_splits)
  moreover have "clients_latest (go u t i pid ph') j (ses_hub sess)"
    using parts at_phase_unique[OF t] assms(3) unfolding clients_latest_def at_phase_go by metis
  moreover have "registered_or_old (go u t i pid ph') j (hs_hub (ses_hub sess))"
    using parts assms(3) unfolding registered_or_old_def at_phase_go by (auto split: if_splits)
  ultimately show ?thesis using parts by (simp add: session_inv_def)
qed

lemma cluster_invI:
  assumes "counters_ok (rs_db (cu_st u)) gid" and "finite {t. cu_handlers u t \<noteq> None}"
    and "\<And>i. pb_exec (sst_pub (cu_insts u i)) = exec \<and> 0 < sst_claimTTL (cu_insts u i)"
    and "gens_inv u (rlog (rs_db (cu_st u)) (channel gid)) (counter (rs_db (cu_st u)) gid)"
    and "\<And>i. refs_ok (fmlookup (sst_sessions (cu_insts u i)) gid) (card (live u i))"
    and "\<And>i sess. fmlookup (sst_sessions (cu_insts u i)) gid = Some sess \<Longrightarrow>
        session_inv u (rlog (rs_db (cu_st u)) (channel gid)) (counter (rs_db (cu_st u)) gid) i sess"
  shows "cluster_inv exec gid u"
  using assms unfolding cluster_inv_def by blast

lemma cluster_invD:
  assumes "cluster_inv exec gid u"
  shows "counters_ok (rs_db (cu_st u)) gid" and "finite {t. cu_handlers u t \<noteq> None}"
    and "pb_exec (sst_pub (cu_insts u i)) = exec" and "0 < sst_claimTTL (cu_insts u i)"
    and "gens_inv u (rlog (rs_db (cu_st u)) (channel gid)) (counter (rs_db (cu_st u)) gid)"
    and "refs_ok (fmlookup (sst_sessions (cu_insts u i)) gid) (card (live u i))"
    and "fmlookup (sst_sessions (cu_insts u i)) gid = Some sess \<Longrightarrow>
        session_inv u (rlog (rs_db (cu_st u)) (channel gid)) (counter (rs_db (cu_st u)) gid) i sess"
  using assms unfolding cluster_inv_def by blast+

text \<open>A step that changes one instance's session and moves no thread.\<close>

lemma inv_with_inst:
  assumes "cluster_inv exec gid u" and "fmlookup (sst_sessions (cu_insts u i)) gid = Some sess"
    and "fmlookup (sst_sessions A) gid = Some sess'" and "ses_refs sess' = ses_refs sess"
    and "sst_pub A = sst_pub (cu_insts u i)" and "sst_claimTTL A = sst_claimTTL (cu_insts u i)"
    and "session_inv u (rlog (rs_db (cu_st u)) (channel gid)) (counter (rs_db (cu_st u)) gid) i sess'"
  shows "cluster_inv exec gid (with_inst u i A)"
proof (rule cluster_invI)
  note d = cluster_invD[OF assms(1)]
  show "refs_ok (fmlookup (sst_sessions (cu_insts (with_inst u i A) j)) gid) (card (live (with_inst u i A) j))" for j
    using d(6)[of j] d(6)[of i] assms(2-4) by simp
  show "session_inv (with_inst u i A) (rlog (rs_db (cu_st (with_inst u i A))) (channel gid))
      (counter (rs_db (cu_st (with_inst u i A))) gid) j s"
    if "fmlookup (sst_sessions (cu_insts (with_inst u i A) j)) gid = Some s" for j s
    using that d(7)[of j s] assms(3,7)
    by (auto simp: session_inv_def older_claims_def clients_latest_def registered_or_old_def split: if_splits)
  show "gens_inv (with_inst u i A) (rlog (rs_db (cu_st (with_inst u i A))) (channel gid))
      (counter (rs_db (cu_st (with_inst u i A))) gid)"
    using d(5) by (simp add: gens_inv_def)
qed (use cluster_invD[OF assms(1)] assms(5,6) in auto)

text \<open>A step that changes the database and moves no thread.\<close>

lemma inv_with_st:
  assumes "cluster_inv exec gid u" and "counters_ok (rs_db st) gid"
    and "rlog (rs_db st) (channel gid) = rlog (rs_db (cu_st u)) (channel gid) @ ms"
    and "\<And>pid. counter (rs_db (cu_st u)) gid pid \<le> counter (rs_db st) gid pid"
    and "\<And>pid n. n \<in> claims pid ms \<Longrightarrow> n \<le> counter (rs_db st) gid pid"
  shows "cluster_inv exec gid (with_st u st)"
proof (rule cluster_invI)
  note d = cluster_invD[OF assms(1)]
  show "gens_inv (with_st u st) (rlog (rs_db (cu_st (with_st u st))) (channel gid)) (counter (rs_db (cu_st (with_st u st))) gid)"
    using gens_inv_mono[OF d(5) assms(4,5)] assms(3) by (simp add: gens_inv_def)
  show "session_inv (with_st u st) (rlog (rs_db (cu_st (with_st u st))) (channel gid))
      (counter (rs_db (cu_st (with_st u st))) gid) j s"
    if "fmlookup (sst_sessions (cu_insts (with_st u st) j)) gid = Some s" for j s
  proof -
    from that have "fmlookup (sst_sessions (cu_insts u j)) gid = Some s" by simp
    from session_inv_mono[OF d(7)[OF this] assms(4)]
    have "session_inv u (rlog (rs_db st) (channel gid)) (counter (rs_db st) gid) j s" unfolding assms(3) .
    then show ?thesis
      by (simp add: session_inv_def older_claims_def clients_latest_def registered_or_old_def)
  qed
qed (use cluster_invD[OF assms(1)] assms(2) in auto)

text \<open>A thread that moves on, and is not gone yet.\<close>

lemma inv_go:
  assumes "cluster_inv exec gid u" and "at_phase u t i pid ph" and "ph \<noteq> Gone" and "ph' \<noteq> Gone" and "keeps_gen ph ph'"
    and "\<And>s. ph' = Claimed s \<Longrightarrow> s \<in> claims pid (rlog (rs_db (cu_st u)) (channel gid))"
  shows "cluster_inv exec gid (go u t i pid ph')"
proof (rule cluster_invI)
  note d = cluster_invD[OF assms(1)]
  show "finite {t'. cu_handlers (go u t i pid ph') t' \<noteq> None}"
    unfolding finite_go using d(2) .
  show "refs_ok (fmlookup (sst_sessions (cu_insts (go u t i pid ph') j)) gid) (card (live (go u t i pid ph') j))" for j
    using d(6) by (simp add: live_go_same[OF assms(2-4)])
  show "gens_inv (go u t i pid ph') (rlog (rs_db (cu_st (go u t i pid ph'))) (channel gid))
      (counter (rs_db (cu_st (go u t i pid ph'))) gid)"
    using gens_inv_go[OF d(5) assms(2) _ _ assms(6)] assms(5) by (simp add: keeps_gen_def)
  show "session_inv (go u t i pid ph') (rlog (rs_db (cu_st (go u t i pid ph'))) (channel gid))
      (counter (rs_db (cu_st (go u t i pid ph'))) gid) j s"
    if "fmlookup (sst_sessions (cu_insts (go u t i pid ph') j)) gid = Some s" for j s
    using that session_inv_go[OF d(7) assms(2,5)] by simp
qed (use cluster_invD[OF assms(1)] in auto)

lemma inv_go_with_st:
  assumes "cluster_inv exec gid u" and "counters_ok (rs_db st) gid"
    and "rlog (rs_db st) (channel gid) = rlog (rs_db (cu_st u)) (channel gid) @ ms"
    and "\<And>pid. counter (rs_db (cu_st u)) gid pid \<le> counter (rs_db st) gid pid"
    and "\<And>pid n. n \<in> claims pid ms \<Longrightarrow> n \<le> counter (rs_db st) gid pid"
    and "at_phase u t i pid ph" and "ph \<noteq> Gone" and "ph' \<noteq> Gone" and "keeps_gen ph ph'"
    and "\<And>s. ph' = Claimed s \<Longrightarrow> s \<in> claims pid ms"
  shows "cluster_inv exec gid (go (with_st u st) t i pid ph')"
  by (rule inv_go[OF inv_with_st[OF assms(1-5)] _ assms(7-9)]) (use assms(3,6,10) in auto)

context redis_server
begin

lemma inv_count:
  assumes inv: "cluster_inv exec gid u" and t: "at_phase u t i pid Acquired"
    and r: "next_generation (sst_pub (cu_insts u i)) gid pid (sst_claimTTL (cu_insts u i)) (cu_st u) = (st, Inr seq)"
  shows "cluster_inv exec gid (go (with_st u st) t i pid (Counted seq))"
proof (rule cluster_invI)
  note d = cluster_invD[OF inv]
  let ?log = "rlog (rs_db (cu_st u)) (channel gid)" and ?cnt = "counter (rs_db (cu_st u)) gid"
  let ?u' = "go (with_st u st) t i pid (Counted seq)"
  have e: "counters_ok (rs_db st) gid" "rlog (rs_db st) = rlog (rs_db (cu_st u))" "seq = ?cnt pid + 1"
    "counter (rs_db st) gid = ?cnt(pid := seq)"
    using next_generation_effect[OF d(3,4,1) r] by auto
  have le: "?cnt p \<le> counter (rs_db st) gid p" for p using e(3,4) by simp
  have t': "at_phase (with_st u st) t i pid Acquired" using t by simp
  show "counters_ok (rs_db (cu_st ?u')) gid" using e(1) by simp
  show "finite {t'. cu_handlers ?u' t' \<noteq> None}" unfolding finite_go using d(2) by simp
  show "refs_ok (fmlookup (sst_sessions (cu_insts ?u' j)) gid) (card (live ?u' j))" for j
    using d(6) by (simp add: live_go_same[OF t'])
  have old: "at_phase u t'' i'' p ph \<Longrightarrow> phase_gen ph = Some s \<Longrightarrow> 1 \<le> s \<and> s \<le> ?cnt p" for t'' i'' p ph s
    using d(5) unfolding gens_inv_def by blast
  show "gens_inv ?u' (rlog (rs_db (cu_st ?u')) (channel gid)) (counter (rs_db (cu_st ?u')) gid)"
    unfolding gens_inv_def
  proof (intro conjI)
    show "\<forall>p. \<forall>n\<in>claims p (rlog (rs_db (cu_st ?u')) (channel gid)). n \<le> counter (rs_db (cu_st ?u')) gid p"
      using d(5) le e(2) unfolding gens_inv_def by (auto intro: order_trans)
  next
    show "\<forall>t'' i'' p ph s. at_phase ?u' t'' i'' p ph \<longrightarrow> phase_gen ph = Some s \<longrightarrow>
        1 \<le> s \<and> s \<le> counter (rs_db (cu_st ?u')) gid p"
      using old e(3,4) counter_nonneg[OF d(1), of pid] le by (fastforce split: if_splits)
  next
    show "\<forall>t'' i'' p s. at_phase ?u' t'' i'' p (Claimed s) \<or> at_phase ?u' t'' i'' p (Registered s) \<longrightarrow>
        s \<in> claims p (rlog (rs_db (cu_st ?u')) (channel gid))"
      using d(5) e(2) unfolding gens_inv_def by (auto split: if_splits)
  next
    have new: "s \<noteq> seq" if "at_phase u t'' i'' pid ph" "phase_gen ph = Some s" for t'' i'' ph s
      using old[OF that] e(3) by simp
    show "\<forall>t1 t2 i1 i2 p ph1 ph2 s. at_phase ?u' t1 i1 p ph1 \<longrightarrow> at_phase ?u' t2 i2 p ph2 \<longrightarrow>
        phase_gen ph1 = Some s \<longrightarrow> phase_gen ph2 = Some s \<longrightarrow> t1 = t2"
    proof (intro allI impI)
      fix t1 t2 i1 i2 p ph1 ph2 s
      assume a: "at_phase ?u' t1 i1 p ph1" "at_phase ?u' t2 i2 p ph2" "phase_gen ph1 = Some s" "phase_gen ph2 = Some s"
      show "t1 = t2"
      proof (cases "t1 = t \<or> t2 = t")
        case True
        with a new show ?thesis by (auto split: if_splits)
      next
        case False
        with a have "at_phase u t1 i1 p ph1" "at_phase u t2 i2 p ph2" by simp_all
        with a(3,4) d(5) show ?thesis unfolding gens_inv_def by blast
      qed
    qed
  qed
  show "session_inv ?u' (rlog (rs_db (cu_st ?u')) (channel gid)) (counter (rs_db (cu_st ?u')) gid) j s"
    if s: "fmlookup (sst_sessions (cu_insts ?u' j)) gid = Some s" for j s
  proof -
    from s have s: "fmlookup (sst_sessions (cu_insts u j)) gid = Some s" by simp
    have m: "session_inv u (?log @ []) (counter (rs_db st) gid) j s" by (rule session_inv_mono[OF d(7)[OF s] le])
    note parts = m[unfolded session_inv_def append_Nil2]
    have "older_claims ?u' (take (ses_start s) ?log) j"
      unfolding older_claims_def
    proof (intro allI impI ballI)
      fix t'' p ph g n assume a: "at_phase ?u' t'' j p ph" "phase_gen ph = Some g" "n \<in> claims p (take (ses_start s) ?log)"
      show "n < g"
      proof (cases "t'' = t")
        case True
        with a have "p = pid" "g = seq" by auto
        moreover from a(3) claims_take have "n \<in> claims p ?log" by blast
        ultimately show ?thesis using d(5) e(3) unfolding gens_inv_def by fastforce
      next
        case False
        with a have "at_phase u t'' j p ph" by simp
        with a(2,3) parts show ?thesis unfolding older_claims_def by blast
      qed
    qed
    moreover have "clients_latest ?u' j (ses_hub s)"
      using parts at_phase_unique[OF t] unfolding clients_latest_def by (auto, blast+)
    moreover have "registered_or_old ?u' j (hs_hub (ses_hub s))"
      using parts unfolding registered_or_old_def by (auto split: if_splits)
    ultimately show ?thesis using parts e(2) by (simp add: session_inv_def)
  qed
qed (use cluster_invD[OF inv] in auto)

lemma inv_other_step:
  assumes inv: "cluster_inv exec gid u" and "other_traffic gid (rs_db (cu_st u)) (rs_db st)"
  shows "cluster_inv exec gid (with_st u st)"
proof -
  obtain ms where ms: "rlog (rs_db st) (channel gid) = rlog (rs_db (cu_st u)) (channel gid) @ ms" "\<forall>m \<in> set ms. pm_Claim m = None"
    and k: "rkeys (rs_db st) (connectionsKey gid) = rkeys (rs_db (cu_st u)) (connectionsKey gid)"
    using assms(2) by (auto simp: other_traffic_def)
  show ?thesis
    by (rule inv_with_st[OF inv _ ms(1)])
      (use counter_keys[OF k] cluster_invD(1)[OF inv] claims_none[OF ms(2)] in auto)
qed

end

text \<open>A step that changes one instance's session and the phase of one of its threads.\<close>

lemma inv_go_with_inst:
  assumes "cluster_inv exec gid u" and "at_phase u t i pid ph" and "ph \<noteq> Gone" and "ph' \<noteq> Gone"
    and "fmlookup (sst_sessions (cu_insts u i)) gid = Some sess"
    and "sess' = sess\<lparr>ses_hub := w\<rparr>" and "A = put_session gid sess' (cu_insts u i)"
    and "gens_inv (go u t i pid ph') (rlog (rs_db (cu_st u)) (channel gid)) (counter (rs_db (cu_st u)) gid)"
    and "session_inv (go u t i pid ph') (rlog (rs_db (cu_st u)) (channel gid)) (counter (rs_db (cu_st u)) gid) i sess'"
  shows "cluster_inv exec gid (go (with_inst u i A) t i pid ph')"
proof (rule cluster_invI)
  note d = cluster_invD[OF assms(1)]
  let ?u' = "go (with_inst u i A) t i pid ph'"
  have ph: "at_phase ?u' = at_phase (go u t i pid ph')" by (auto simp: fun_eq_iff)
  have t': "at_phase (with_inst u i A) t i pid ph" using assms(2) by simp
  show "finite {t'. cu_handlers ?u' t' \<noteq> None}" unfolding finite_go using d(2) by simp
  show "refs_ok (fmlookup (sst_sessions (cu_insts ?u' j)) gid) (card (live ?u' j))" for j
  proof -
    have "0 < card (live u i) \<and> ses_refs sess = int (card (live u i))" using d(6)[of i] assms(5) by simp
    then show ?thesis
      unfolding live_go_same[OF t' assms(3,4)] using d(6)[of j] by (simp add: assms(6,7))
  qed
  show "gens_inv ?u' (rlog (rs_db (cu_st ?u')) (channel gid)) (counter (rs_db (cu_st ?u')) gid)"
    using assms(8) by (simp add: inv_cong[OF ph])
  show "session_inv ?u' (rlog (rs_db (cu_st ?u')) (channel gid)) (counter (rs_db (cu_st ?u')) gid) j s"
    if s: "fmlookup (sst_sessions (cu_insts ?u' j)) gid = Some s" for j s
  proof (cases "j = i")
    case True
    with s assms(7) have "s = sess'" by simp
    with True assms(9) show ?thesis by (simp add: inv_cong[OF ph])
  next
    case False
    with s have "fmlookup (sst_sessions (cu_insts u j)) gid = Some s" by simp
    from session_leaves_other[OF d(7)[OF this] assms(2) False, of ph'] show ?thesis
      by (simp add: inv_cong[OF ph])
  qed
qed (use cluster_invD[OF assms(1)] assms(7) in auto)

lemma live_session:
  assumes "cluster_inv exec gid u" and "at_phase u t i pid ph" and "ph \<noteq> Gone"
  obtains sess where "fmlookup (sst_sessions (cu_insts u i)) gid = Some sess"
proof -
  have "card (live u i) \<noteq> 0"
    using at_phase_live[OF assms(2,3)] live_finite[OF cluster_invD(2)[OF assms(1)], of i]
    by (auto simp: card_eq_0_iff)
  with cluster_invD(6)[OF assms(1), of i] that show thesis
    by (cases "fmlookup (sst_sessions (cu_insts u i)) gid") auto
qed

lemma inv_register:
  assumes inv: "cluster_inv exec gid u" and t: "at_phase u t i pid (Claimed seq)"
    and s: "fmlookup (sst_sessions (cu_insts u i)) gid = Some sess"
    and r: "Hub_Register pid t (alloc t (NewClient pid gid seq) (ses_hub sess)) = (w, ok)"
  shows "cluster_inv exec gid (go (with_inst u i (put_session gid (sess\<lparr>ses_hub := w\<rparr>) (cu_insts u i))) t i pid
      (if ok then Registered seq else Leaving))"
proof -
  note d = cluster_invD[OF inv]
  have "gens_inv (go u t i pid (if ok then Registered seq else Leaving))
      (rlog (rs_db (cu_st u)) (channel gid)) (counter (rs_db (cu_st u)) gid)"
    using gens_register[OF d(5) t] gens_inv_go[OF d(5) t, of Leaving] by auto
  with inv_go_with_inst[OF inv t _ _ s refl refl] session_register[OF d(7)[OF s] d(5) t r] show ?thesis by auto
qed

lemma inv_unregister:
  assumes inv: "cluster_inv exec gid u" and t: "at_phase u t i pid (Registered seq)"
  shows "cluster_inv exec gid (go (with_inst u i (on_hub gid (Hub_Unregister pid t) (cu_insts u i))) t i pid Leaving)"
proof -
  note d = cluster_invD[OF inv]
  obtain sess where s: "fmlookup (sst_sessions (cu_insts u i)) gid = Some sess"
    using live_session[OF inv t] by blast
  let ?log = "rlog (rs_db (cu_st u)) (channel gid)" and ?cnt = "counter (rs_db (cu_st u)) gid"
  have "gens_inv (go u t i pid Leaving) ?log ?cnt"
    by (rule gens_inv_go[OF d(5) t]) simp_all
  with inv_go_with_inst[OF inv t _ _ s refl refl _ session_unregister[OF d(7)[OF s] t]] s show ?thesis
    by (simp add: on_hub_def)
qed

lemma inv_forward:
  assumes inv: "cluster_inv exec gid u"
  shows "cluster_inv exec gid (with_inst u i (deliver marshal gid (rs_db (cu_st u)) (cu_insts u i)))"
proof (cases "\<exists>sess. fmlookup (sst_sessions (cu_insts u i)) gid = Some sess \<and> ses_running sess \<and>
    ses_pos sess < length (rlog (rs_db (cu_st u)) (channel gid))")
  case False
  then have "deliver marshal gid (rs_db (cu_st u)) (cu_insts u i) = cu_insts u i"
    by (auto simp: deliver_def split: option.split)
  with inv show ?thesis by (simp add: with_inst_def)
next
  case True
  let ?log = "rlog (rs_db (cu_st u)) (channel gid)" and ?cnt = "counter (rs_db (cu_st u)) gid"
  from True obtain sess where s: "fmlookup (sst_sessions (cu_insts u i)) gid = Some sess"
    and run: "ses_running sess" "ses_pos sess < length ?log" by blast
  define m where "m = ?log ! ses_pos sess"
  define w where "w = dispatch marshal m (ses_hub sess)"
  define sess' where "sess' = sess\<lparr>ses_hub := w, ses_pos := ses_pos sess + 1\<rparr>"
  note d = cluster_invD[OF inv]
  note parts = d(7)[OF s, unfolded session_inv_def]
  have A: "deliver marshal gid (rs_db (cu_st u)) (cu_insts u i) = put_session gid sess' (cu_insts u i)"
    using s run by (simp add: deliver_def sess'_def w_def m_def Subscribe_loop_def)
  have fw: "forwarded sess' ?log = forwarded sess ?log @ [m]"
    using parts run(2) by (simp add: forwarded_def sess'_def m_def take_Suc_conv_app_nth)
  have "clients_latest u i w \<and> registered_or_old u i (hs_hub w) \<and> hub_knows (forwarded sess ?log @ [m]) ?cnt (hs_hub w)"
  proof (cases "pm_Claim m")
    case None
    then have "same_hub (ses_hub sess) w" by (simp add: w_def dispatch_def)
    with parts claims_none[of "[m]"] None show ?thesis
      by (simp add: clients_latest_def same_hub_def hub_knows_def)
  next
    case (Some c)
    then have w: "w = Hub_Claim (cm_PlayerID c) (cm_Seq c) (ses_hub sess)" by (simp add: w_def dispatch_def)
    have cm: "claims p [m] = (if cm_PlayerID c = p then {cm_Seq c} else {})" for p
      using Some by (auto simp: claims_def)
    have "cm_Seq c \<in> claims (cm_PlayerID c) ?log"
      using Some nth_mem[OF run(2)] by (auto simp: claims_def m_def)
    then have "cm_Seq c \<le> ?cnt (cm_PlayerID c)" using d(5) unfolding gens_inv_def by blast
    with parts have "hub_knows (forwarded sess ?log @ [m]) ?cnt (hs_hub w)"
      unfolding hub_knows_def by (auto simp: claim_effect[OF w, THEN conjunct1] cm le_max_iff_disj)
    with clients_latest_claim[OF _ _ w] parts show ?thesis by blast
  qed
  then have "session_inv u ?log ?cnt i sess'"
    using parts run(2) fw by (simp add: session_inv_def sess'_def)
  then show ?thesis
    unfolding A by (rule inv_with_inst[OF inv s, rotated 4]) (simp_all add: sess'_def)
qed

lemma inv_remove:
  assumes inv: "cluster_inv exec gid u"
  shows "cluster_inv exec gid (with_inst u i (Sessions_Remove gid (cu_insts u i)))"
proof (cases "fmlookup (sst_sessions (cu_insts u i)) gid")
  case None
  with inv show ?thesis by (simp add: Sessions_Remove_def on_hub_def with_inst_def)
next
  case (Some sess)
  show ?thesis
    by (rule inv_with_inst[OF inv Some, of _ "sess\<lparr>ses_hub := Hub_CloseAll (ses_hub sess)\<rparr>"])
      (use Some session_inv_same_hub[OF cluster_invD(7)[OF inv Some]] in \<open>simp_all add: Sessions_Remove_def on_hub_def\<close>)
qed


lemma inv_acquire:
  assumes inv: "cluster_inv exec gid u" and "cu_handlers u t = None"
    and "Acquire gid (cu_insts u i) (cu_st u) = (A, st, Inr ())"
  shows "cluster_inv exec gid (go (with_st (with_inst u i A) st) t i pid Acquired)"
proof -
  note d = cluster_invD[OF inv]
  let ?log = "rlog (rs_db (cu_st u)) (channel gid)" and ?cnt = "counter (rs_db (cu_st u)) gid"
  let ?u' = "go (with_st (with_inst u i A) st) t i pid Acquired"
  have db: "rs_db st = rs_db (cu_st u)"
    using assms(3) by (auto simp: Acquire_def Subscribe_def request_def split: option.splits prod.splits delivery.splits)
  have nt: "t \<notin> live u j" "\<not> at_phase u t j p ph" for j p ph
    using assms(2) by (simp_all add: live_def at_phase_def)
  have lv: "live ?u' j = (if j = i then insert t (live u j) else live u j)" for j
    using nt(1)[of j] unfolding live_go by auto
  have ph: "at_phase ?u' = at_phase (go u t i pid Acquired)" by (auto simp: fun_eq_iff)
  have fin: "finite (live u j)" for j by (rule live_finite[OF d(2)])
  obtain sess' where A: "A = put_session gid sess' (cu_insts u i)"
    and refs: "ses_refs sess' = int (card (live u i)) + 1" and inv': "session_inv u ?log ?cnt i sess'"
  proof (cases "fmlookup (sst_sessions (cu_insts u i)) gid")
    case (Some sess)
    with assms(3) d(6)[of i] session_inv_same_hub[OF d(7)[OF Some] same_hub_refl] that
    show thesis by (auto simp: Acquire_def session_inv_def forwarded_def)
  next
    case None
    with d(6)[of i] fin have "live u i = {}" by simp
    then have no: "phase_gen ph = None" if "at_phase u t' i p ph" for t' p ph
      using at_phase_live[OF that] by (cases ph) auto
    have "session_inv u ?log ?cnt i (new_session (length ?log))"
      using counter_nonneg[OF d(1)]
      by (auto dest: no simp: session_inv_def new_session_def older_claims_def hub_knows_def clients_latest_def
          registered_or_old_def forwarded_def new_hub_state_def NewHub_def latest_of_def)
    with None assms(3) that[of "new_session (length ?log)"] \<open>live u i = {}\<close> show thesis
      by (auto simp: Acquire_def Subscribe_def request_def new_session_def split: prod.splits delivery.splits)
  qed
  show ?thesis
  proof (rule cluster_invI)
    show "finite {t'. cu_handlers ?u' t' \<noteq> None}" unfolding finite_go using d(2) by simp
    show "refs_ok (fmlookup (sst_sessions (cu_insts ?u' j)) gid) (card (live ?u' j))" for j
      unfolding lv using d(6)[of j] A refs fin nt(1)[of i] by simp
    have "gens_inv (go u t i pid Acquired) ?log ?cnt"
      by (rule gens_inv_new_thread[OF d(5)])
    then show "gens_inv ?u' (rlog (rs_db (cu_st ?u')) (channel gid)) (counter (rs_db (cu_st ?u')) gid)"
      by (simp add: inv_cong[OF ph] db)
    show "session_inv ?u' (rlog (rs_db (cu_st ?u')) (channel gid)) (counter (rs_db (cu_st ?u')) gid) j s"
      if s: "fmlookup (sst_sessions (cu_insts ?u' j)) gid = Some s" for j s
    proof -
      have "session_inv u ?log ?cnt j s"
        using s inv' d(7)[of j s] A by (auto split: if_splits)
      from session_inv_new_thread[OF this assms(2)] show ?thesis
        by (simp add: inv_cong[OF ph] db)
    qed
  qed (use d A db in auto)
qed

lemma inv_acquire_fails:
  assumes inv: "cluster_inv exec gid u" and "Acquire gid (cu_insts u i) (cu_st u) = (A, st, Inl e)"
  shows "cluster_inv exec gid (with_st (with_inst u i A) st)"
proof -
  have A: "A = cu_insts u i" and db: "rs_db st = rs_db (cu_st u)"
    using assms(2) by (auto simp: Acquire_def Subscribe_def request_def split: option.splits prod.splits delivery.splits)
  have "cluster_inv exec gid (with_st u st)"
    by (rule inv_with_st[OF inv, of _ "[]"]) (use cluster_invD(1)[OF inv] db in auto)
  then show ?thesis by (simp add: A with_inst_def with_st_def)
qed

lemma inv_release:
  assumes inv: "cluster_inv exec gid u" and t: "at_phase u t i pid Leaving"
  shows "cluster_inv exec gid (go (with_inst u i (Release gid (cu_insts u i))) t i pid Gone)"
proof -
  note d = cluster_invD[OF inv]
  let ?log = "rlog (rs_db (cu_st u)) (channel gid)" and ?cnt = "counter (rs_db (cu_st u)) gid"
  let ?A = "Release gid (cu_insts u i)"
  let ?u' = "go (with_inst u i ?A) t i pid Gone"
  obtain sess where s: "fmlookup (sst_sessions (cu_insts u i)) gid = Some sess"
    using live_session[OF inv t] by blast
  have tl: "t \<in> live u i" using at_phase_live[OF t] by simp
  have fin: "finite (live u j)" for j by (rule live_finite[OF d(2)])
  have tn: "t \<notin> live u j" if "j \<noteq> i" for j using that t by (auto simp: live_def at_phase_def)
  have lv: "live ?u' j = (if j = i then live u i - {t} else live u j)" for j
    using tn[of j] unfolding live_go by auto
  have refs: "ses_refs sess = int (card (live u i))" "card (live u i - {t}) = card (live u i) - 1" "0 < card (live u i)"
    using d(6)[of i] s tl fin by (simp_all add: card_gt_0_iff)
  have ph: "at_phase ?u' = at_phase (go u t i pid Gone)" by (auto simp: fun_eq_iff)
  have k: "keeps_gen Leaving Gone" by (simp add: keeps_gen_def)
  show ?thesis
  proof (rule cluster_invI)
    show "finite {t'. cu_handlers ?u' t' \<noteq> None}" unfolding finite_go using d(2) by simp
    show "refs_ok (fmlookup (sst_sessions (cu_insts ?u' j)) gid) (card (live ?u' j))" for j
    proof (cases "j = i")
      case True
      have "card (live u i - {t}) = card (live u i) - 1" "0 < card (live u i)" by (fact refs)+
      then show ?thesis unfolding lv using True s refs(1)
        by (cases "card (live u i) = 1") (simp_all add: Release_def Let_def)
    next
      case False
      with d(6)[of j] show ?thesis unfolding lv by simp
    qed
    show "gens_inv ?u' (rlog (rs_db (cu_st ?u')) (channel gid)) (counter (rs_db (cu_st ?u')) gid)"
      using gens_inv_go[OF d(5) t, of Gone] by (simp add: inv_cong[OF ph])
    show "session_inv ?u' (rlog (rs_db (cu_st ?u')) (channel gid)) (counter (rs_db (cu_st ?u')) gid) j s'"
      if s': "fmlookup (sst_sessions (cu_insts ?u' j)) gid = Some s'" for j s'
    proof -
      obtain s0 where "fmlookup (sst_sessions (cu_insts u j)) gid = Some s0" "s' = s0 \<or> (\<exists>n. s' = s0\<lparr>ses_refs := n\<rparr>)"
        using s' s by (auto simp: Release_def Let_def split: if_splits)
      then have "session_inv u ?log ?cnt j s'"
        using d(7)[of j s0] by (auto simp: session_inv_def forwarded_def)
      from session_inv_go[OF this t k] show ?thesis
        by (simp add: inv_cong[OF ph])
    qed
    show "pb_exec (sst_pub (cu_insts ?u' j)) = exec \<and> 0 < sst_claimTTL (cu_insts ?u' j)" for j
      using d(3,4) s by (auto simp: Release_def Let_def)
  qed (use d in auto)
qed

section \<open>The invariant holds\<close>

context redis_server
begin

lemma inv_step:
  assumes "ws_step marshal gid u u'" and inv: "cluster_inv exec gid u"
  shows "cluster_inv exec gid u'"
  using assms(1)
proof cases
  case (count_fails t i pid st e)
  note e = next_generation_effect[OF cluster_invD(3,4,1)[OF inv] count_fails(3)]
  show ?thesis
    unfolding count_fails(1)
    by (rule inv_go_with_st[OF inv, of _ "[]", OF _ _ _ _ count_fails(2)]) (use e in \<open>auto simp: keeps_gen_def\<close>)
next
  case (announce t i pid seq st)
  note e = publish_msg_effect[OF cluster_invD(3)[OF inv] announce(3)]
  have k: "counter (rs_db st) gid = counter (rs_db (cu_st u)) gid" "counters_ok (rs_db st) gid"
    using counter_keys[of "rs_db st" gid "rs_db (cu_st u)"] e cluster_invD(1)[OF inv] by auto
  have "seq \<le> counter (rs_db (cu_st u)) gid pid"
    using cluster_invD(5)[OF inv] announce(2) unfolding gens_inv_def by (metis phase_gen.simps(2))
  then show ?thesis
    unfolding announce(1)
    by (intro inv_go_with_st[OF inv, of _ "[claim_msg pid seq]", OF _ _ _ _ announce(2)])
      (use e k in \<open>auto simp: keeps_gen_def split: if_splits\<close>)
next
  case (announce_fails t i pid seq st e)
  note e = publish_msg_effect[OF cluster_invD(3)[OF inv] announce_fails(3)]
  have k: "counter (rs_db st) gid = counter (rs_db (cu_st u)) gid" "counters_ok (rs_db st) gid"
    using counter_keys[of "rs_db st" gid "rs_db (cu_st u)"] e cluster_invD(1)[OF inv] by auto
  have "seq \<le> counter (rs_db (cu_st u)) gid pid"
    using cluster_invD(5)[OF inv] announce_fails(2) unfolding gens_inv_def by (metis phase_gen.simps(2))
  then show ?thesis
    unfolding announce_fails(1)
    by (intro inv_go_with_st[OF inv, of _ "if rs_db st = rs_db (cu_st u) then [] else [claim_msg pid seq]",
          OF _ _ _ _ announce_fails(2)])
      (use e k in \<open>auto simp: keeps_gen_def split: if_splits\<close>)
next
  case (upgrade_fails t i pid seq)
  show ?thesis
    unfolding upgrade_fails(1) by (rule inv_go[OF inv upgrade_fails(2)]) (simp_all add: keeps_gen_def)
next
  case acquire
  show ?thesis unfolding acquire(1) by (rule inv_acquire[OF inv acquire(2,3)])
next
  case acquire_fails
  show ?thesis unfolding acquire_fails(1) by (rule inv_acquire_fails[OF inv acquire_fails(2)])
next
  case count
  show ?thesis unfolding count(1) by (rule inv_count[OF inv count(2,3)])
next
  case register
  show ?thesis unfolding register(1) by (rule inv_register[OF inv register(2-4)])
next
  case unregister
  show ?thesis unfolding unregister(1) by (rule inv_unregister[OF inv unregister(2)])
next
  case release
  show ?thesis unfolding release(1) by (rule inv_release[OF inv release(2)])
next
  case forward
  show ?thesis unfolding forward by (rule inv_forward[OF inv])
next
  case remove
  show ?thesis unfolding remove by (rule inv_remove[OF inv])
next
  case other
  show ?thesis unfolding other(1) by (rule inv_other_step[OF inv other(2)])
qed

lemma inv_start:
  assumes "ws_start exec L ttl gid st u" and "0 < ttl"
  shows "cluster_inv exec gid u"
  using assms
  by (simp add: ws_start_def cluster_inv_def counters_ok_def is_hash_def hash_def newGameSessionStore_def NewPublisher_def
      gens_inv_def at_phase_def live_def counter_def)

lemma inv_reach:
  assumes "ws_reach marshal gid u0 u" and "ws_start exec L ttl gid st u0" and "0 < ttl"
  shows "cluster_inv exec gid u"
  using assms(1)
proof induction
  case ws_refl
  show ?case by (rule inv_start[OF assms(2,3)])
next
  case (ws_trans u u')
  then show ?case by (blast intro: inv_step)
qed

end

text \<open>What a session whose subscriber has caught up knows.\<close>

lemma caught_up:
  assumes "cluster_inv exec gid u" and "fmlookup (sst_sessions (cu_insts u i)) gid = Some sess"
    and "ses_pos sess = length (rlog (rs_db (cu_st u)) (channel gid))"
    and "fmlookup (hb_clients (hs_hub (ses_hub sess))) pid = Some c"
  shows "\<exists>s. at_phase u c i pid (Registered s) \<and> cl_seq (hs_heap (ses_hub sess) c) = s \<and>
    s \<in> claims pid (rlog (rs_db (cu_st u)) (channel gid)) \<and>
    (\<forall>n \<in> claims pid (rlog (rs_db (cu_st u)) (channel gid)). n \<le> s)"
proof -
  let ?log = "rlog (rs_db (cu_st u)) (channel gid)" and ?h = "hs_hub (ses_hub sess)"
  note parts = cluster_invD(7)[OF assms(1,2), unfolded session_inv_def]
  have c: "at_phase u c i pid (Registered (latest_of ?h pid))" "cl_seq (hs_heap (ses_hub sess) c) = latest_of ?h pid"
    using parts assms(4) unfolding clients_latest_def by blast+
  have "?log = take (ses_start sess) ?log @ forwarded sess ?log"
    using assms(3) by (simp add: forwarded_def)
  then have "claims pid ?log = claims pid (take (ses_start sess) ?log) \<union> claims pid (forwarded sess ?log)"
    using claims_append by metis
  moreover have "n < latest_of ?h pid" if "n \<in> claims pid (take (ses_start sess) ?log)" for n
    using that parts c(1) unfolding older_claims_def by (metis phase_gen.simps(4))
  moreover have "n \<le> latest_of ?h pid" if "n \<in> claims pid (forwarded sess ?log)" for n
    using that parts unfolding hub_knows_def by blast
  moreover have "latest_of ?h pid \<in> claims pid ?log"
    using gens_inv_claim[OF cluster_invD(5)[OF assms(1)]] c(1) by blast
  ultimately show ?thesis using c by (blast intro: less_imp_le)
qed

end
