(* ===== verification/Ws_Properties.thy ===== *)
theory Ws_Properties
  imports Ws_Cluster Redis_Memory
begin

text \<open>
  Properties of the WebSocket side: the reference counts of the sessions, the sweeper, and one live
  connection per player across instances. The runs for the witnesses are on \<open>Redis_Memory\<close>.
\<close>

section \<open>Sessions\<close>

definition sessions_run :: "(event option \<Rightarrow> 'm option) \<Rightarrow> session_op list \<Rightarrow> ('m, 'n) gameSessionStore \<Rightarrow> 'n rstate
    \<Rightarrow> ('m, 'n) gameSessionStore \<times> 'n rstate \<times> (string \<Rightarrow> nat)" where
  "sessions_run marshal ops A st = fold (session_step marshal) ops (A, st, \<lambda>gid. 0)"

lemma sessions_run_counted:
  assumes "counted A (\<lambda>gid. 0)" and "sessions_run marshal ops A st = (A', st', held)"
  shows "counted A' held"
  using assms(2)
proof (induction ops arbitrary: A' st' held rule: rev_induct)
  case Nil
  with assms(1) show ?case by (simp add: sessions_run_def)
next
  case (snoc op ops)
  obtain A1 st1 held1 where r: "sessions_run marshal ops A st = (A1, st1, held1)"
    by (cases "sessions_run marshal ops A st")
  from snoc.prems r have "session_step marshal op (A1, st1, held1) = (A', st', held)"
    by (simp add: sessions_run_def)
  from step_counted[OF snoc.IH[OF r] this] show ?case .
qed

text \<open>
  C19: the sessions of an instance are counted. After any calls of \<open>Acquire\<close>, \<open>Release\<close> (by handlers
  that hold a reference), \<open>Remove\<close> and any deliveries on a new session store, a game has a session
  exactly when some handler holds it, and its count is the number of those handlers.
\<close>
theorem sessions_counted:
  "case sessions_run marshal ops (newGameSessionStore exec L ttl) st of
     (A, st', held) \<Rightarrow>
       (case fmlookup (sst_sessions A) gid of
          None \<Rightarrow> held gid = 0
        | Some sess \<Rightarrow> 0 < held gid \<and> ses_refs sess = int (held gid))"
proof -
  obtain A st' held where r: "sessions_run marshal ops (newGameSessionStore exec L ttl) st = (A, st', held)"
    by (cases "sessions_run marshal ops (newGameSessionStore exec L ttl) st")
  have "counted (newGameSessionStore exec L ttl) (\<lambda>gid. 0)"
    by (simp add: counted_def newGameSessionStore_def)
  from sessions_run_counted[OF this r] have "refs_ok (fmlookup (sst_sessions A) gid) (held gid)"
    by (rule countedD)
  with r show ?thesis by (cases "fmlookup (sst_sessions A) gid") simp_all
qed

section \<open>The sweeper\<close>

lemma fold_hub_close:
  "hs_hub (fold hub_close cs w) = hs_hub w \<and>
   hs_heap (fold hub_close cs w) c = (if c \<in> set cs then client_Close (hs_heap w c) else hs_heap w c)"
  by (induction cs arbitrary: w) (auto simp: hub_close_def client_Close_def)

lemma in_hub_conns: "c \<in> set (hub_conns h) \<longleftrightarrow> (\<exists>pid. fmlookup (hb_clients h) pid = Some c)"
proof -
  have "set (hub_conns h) = {c. \<exists>pid \<in> fset (fmdom (hb_clients h)). fmlookup (hb_clients h) pid = Some c}"
    by (force simp: hub_conns_def List.map_filter_def)
  then show ?thesis by (auto intro: fmdomI)
qed

definition swept :: "'m gameSession \<Rightarrow> 'm gameSession \<Rightarrow> bool" where
  "swept sess sess' \<longleftrightarrow> sess' = sess\<lparr>ses_hub := ses_hub sess'\<rparr> \<and> hs_hub (ses_hub sess') = hs_hub (ses_hub sess) \<and>
     (\<forall>c. hs_heap (ses_hub sess') c =
        (if \<exists>pid. fmlookup (hb_clients (hs_hub (ses_hub sess))) pid = Some c
         then client_Close (hs_heap (ses_hub sess) c) else hs_heap (ses_hub sess) c))"

lemma swept_CloseAll: "swept sess (sess\<lparr>ses_hub := Hub_CloseAll (ses_hub sess)\<rparr>)"
  using fold_hub_close[of "hub_conns (hs_hub (ses_hub sess))" "ses_hub sess"]
  by (simp add: swept_def Hub_CloseAll_def in_hub_conns)

text \<open>What the sweeper leaves of the session of a game, which is \<open>gone\<close> or not.\<close>

definition swept_if :: "bool \<Rightarrow> 'm gameSession option \<Rightarrow> 'm gameSession option \<Rightarrow> bool" where
  "swept_if gone s s' \<longleftrightarrow> (case s of
      None \<Rightarrow> s' = None
    | Some sess \<Rightarrow> if gone then (\<exists>sess'. s' = Some sess' \<and> swept sess sess') else s' = Some sess)"

lemma swept_if_refl: "swept_if False s s"
  by (simp add: swept_if_def split: option.split)

lemma Remove_lookup:
  "fmlookup (sst_sessions (Sessions_Remove gid A)) gid' =
     (if gid' = gid then map_option (\<lambda>sess. sess\<lparr>ses_hub := Hub_CloseAll (ses_hub sess)\<rparr>) (fmlookup (sst_sessions A) gid)
      else fmlookup (sst_sessions A) gid')"
  by (simp add: Sessions_Remove_def on_hub_def split: option.split)

context state_store
begin

lemma sweep_loop_closes:
  assumes "ob_inv V st" and "ob_up V st" and "distinct ids" and "sweep_loop S ids A st = (A', st')"
  shows "ob_inv V st' \<and> ob_up V st' \<and> unchanged V st st' \<and>
    (\<forall>gid. swept_if (gid \<in> set ids \<and> ob_view V st gid = None) (fmlookup (sst_sessions A) gid) (fmlookup (sst_sessions A') gid))"
  using assms
proof (induction ids arbitrary: A st)
  case Nil
  then show ?case by (simp add: unchanged_def swept_if_refl)
next
  case (Cons gid ids)
  obtain st1 b where e: "ss_Exists S gid st = (st1, b)" by (cases "ss_Exists S gid st")
  from Exists[OF Cons.prems(1) e] Cons.prems(2)
  have b: "b = Inr (ob_view V st gid \<noteq> None)" and inv: "ob_inv V st1" "ob_up V st1" "unchanged V st st1"
    by (auto simp: call_ok_def)
  have v: "ob_view V st1 = ob_view V st" using inv(3) by (simp add: unchanged_def)
  define A1 where "A1 = (if ob_view V st gid = None then Sessions_Remove gid A else A)"
  have loop: "sweep_loop S ids A1 st1 = (A', st')"
    using Cons.prems(4) by (simp add: Manager_Exists_def e b A1_def)
  have d: "distinct ids" "gid \<notin> set ids" using Cons.prems(3) by simp_all
  note IH = Cons.IH[OF inv(1,2) d(1) loop]
  have "swept_if (g \<in> set (gid # ids) \<and> ob_view V st g = None) (fmlookup (sst_sessions A) g) (fmlookup (sst_sessions A') g)" for g
  proof -
    have ih: "swept_if (g \<in> set ids \<and> ob_view V st g = None) (fmlookup (sst_sessions A1) g) (fmlookup (sst_sessions A') g)"
      using IH v by simp
    show ?thesis
    proof (cases "g = gid \<and> ob_view V st gid = None")
      case True
      with ih d(2) show ?thesis
        by (cases "fmlookup (sst_sessions A) gid") (simp_all add: A1_def Remove_lookup swept_if_def swept_CloseAll)
    next
      case False
      then have "fmlookup (sst_sessions A1) g = fmlookup (sst_sessions A) g" by (auto simp: A1_def Remove_lookup)
      moreover from False have "(g \<in> set (gid # ids) \<and> ob_view V st g = None) = (g \<in> set ids \<and> ob_view V st g = None)"
        by auto
      ultimately show ?thesis using ih by simp
    qed
  qed
  with IH inv show ?case by (auto simp: unchanged_def)
qed

end

text \<open>
  C20: the sweeper. On a store that is up, one sweep closes every registered connection of exactly
  the games that no longer exist, and leaves the other sessions, and the games, as they were. (The
  clients then leave the hub by themselves, as their pumps return.)
\<close>
theorem redis_sweep:
  assumes "redis_store R up" and "db_ok (rs_db st)" and "up (rs_net st)"
    and "sweep (gameStateStore R) A st = (A', st')"
  shows "db_view (rs_db st') = db_view (rs_db st) \<and>
    (\<forall>gid. swept_if (db_view (rs_db st) gid = None) (fmlookup (sst_sessions A) gid) (fmlookup (sst_sessions A') gid))"
proof -
  have S: "state_store (gameStateStore R) (observer up)" by (rule redis_store.is_state_store[OF assms(1)])
  have "distinct (GameIDs A)" by (simp add: GameIDs_def)
  from state_store.sweep_loop_closes[OF S _ _ this assms(4)[unfolded sweep_def]] assms(2,3)
  have u: "unchanged (observer up) st st'"
    and s: "swept_if (gid \<in> set (GameIDs A) \<and> ob_view (observer up) st gid = None)
      (fmlookup (sst_sessions A) gid) (fmlookup (sst_sessions A') gid)" for gid
    by simp_all
  have "swept_if (db_view (rs_db st) gid = None) (fmlookup (sst_sessions A) gid) (fmlookup (sst_sessions A') gid)" for gid
    using s[of gid] by (cases "fmlookup (sst_sessions A) gid") (auto simp: swept_if_def GameIDs_def fmlookup_iff_dom)
  with u show ?thesis by (simp add: unchanged_def)
qed

text \<open>An empty database, and an instance that still has a player of an expired game connected.\<close>

definition ex_sessions :: "(nat, mem_net) gameSessionStore" where
  "ex_sessions = put_session ''g'' (new_session 0\<lparr>ses_hub := fst (Hub_Register ''p'' 0 (new_hub_state ex_heap))\<rparr>)
     (newGameSessionStore mem_exec mem_conn 1)"

theorem redis_sweep_witness:
  "\<exists>sess. fmlookup (sst_sessions (fst (sweep (gameStateStore mem_R) ex_sessions mem_empty))) ''g'' = Some sess \<and>
     cl_closed (hs_heap (ses_hub sess) 0)"
proof -
  obtain A' st' where r: "sweep (gameStateStore mem_R) ex_sessions mem_empty = (A', st')"
    by (cases "sweep (gameStateStore mem_R) ex_sessions mem_empty")
  have "db_ok (rs_db mem_empty)" "mem_up (rs_net mem_empty)"
    by (simp_all add: mem_empty_def db_ok_empty mem_up_def mem_net0_def)
  from redis_sweep[OF mem.redis_store_axioms this r]
  have s: "swept_if (db_view (rs_db mem_empty) ''g'' = None) (fmlookup (sst_sessions ex_sessions) ''g'') (fmlookup (sst_sessions A') ''g'')"
    by blast
  have v: "db_view (rs_db mem_empty) ''g'' = None" by (simp add: mem_empty_def db_view_def hash_def Let_def)
  have x: "\<exists>sess. fmlookup (sst_sessions ex_sessions) ''g'' = Some sess \<and> fmlookup (hb_clients (hs_hub (ses_hub sess))) ''p'' = Some 0"
    by (simp add: ex_sessions_def Hub_Register_def Register_cs_def new_hub_state_def NewHub_def latest_of_def ex_heap_def NewClient_def Let_def)
  from s v x r show ?thesis by (auto simp: swept_if_def swept_def client_Close_def)
qed

section \<open>One connection per player\<close>

lemma claims_finite: "finite (claims pid msgs)"
proof -
  have "claims pid msgs \<subseteq> (\<lambda>m. cm_Seq (the (pm_Claim m))) ` set msgs"
  proof
    fix n assume "n \<in> claims pid msgs"
    then obtain c m where "n = cm_Seq c" "m \<in> set msgs" "pm_Claim m = Some c" unfolding claims_def by blast
    then show "n \<in> (\<lambda>m. cm_Seq (the (pm_Claim m))) ` set msgs" by (intro rev_image_eqI[of m]) simp_all
  qed
  then show ?thesis by (rule finite_subset) simp
qed



subsection \<open>A run\<close>

text \<open>One thread's way to its registration, when no request fails, and a delivery.\<close>

definition connect :: "string \<Rightarrow> nat \<Rightarrow> nat \<Rightarrow> string \<Rightarrow> ('m, 'n) cluster \<Rightarrow> ('m, 'n) cluster option" where
  "connect gid t i pid u =
     (case Acquire gid (cu_insts u i) (cu_st u) of
        (A, st, Inr _) \<Rightarrow>
          (let u1 = go (with_st (with_inst u i A) st) t i pid Acquired in
           case next_generation (sst_pub (cu_insts u1 i)) gid pid (sst_claimTTL (cu_insts u1 i)) (cu_st u1) of
             (st, Inr seq) \<Rightarrow>
               (let u2 = go (with_st u1 st) t i pid (Counted seq) in
                case publish_msg (sst_pub (cu_insts u2 i)) (channel gid) (claim_msg pid seq) (cu_st u2) of
                  (st, Inr _) \<Rightarrow>
                    (let u3 = go (with_st u2 st) t i pid (Claimed seq) in
                     case fmlookup (sst_sessions (cu_insts u3 i)) gid of
                       Some sess \<Rightarrow>
                         (case Hub_Register pid t (alloc t (NewClient pid gid seq) (ses_hub sess)) of (w, ok) \<Rightarrow>
                            Some (go (with_inst u3 i (put_session gid (sess\<lparr>ses_hub := w\<rparr>) (cu_insts u3 i))) t i pid
                                     (if ok then Registered seq else Leaving)))
                     | None \<Rightarrow> None)
                | _ \<Rightarrow> None)
           | _ \<Rightarrow> None)
      | _ \<Rightarrow> None)"

lemma at_phase_go_here: "at_phase (go u t i pid ph) t i pid ph"
  by simp

lemma connect_reach:
  assumes "connect gid t i pid u = Some u'" and "cu_handlers u t = None" and "ws_reach marshal gid u0 u"
  shows "ws_reach marshal gid u0 u'"
proof -
  obtain A st where 1: "Acquire gid (cu_insts u i) (cu_st u) = (A, st, Inr ())"
    using assms(1) by (auto simp: connect_def split: prod.splits sum.splits)
  define u1 where "u1 = go (with_st (with_inst u i A) st) t i pid Acquired"
  obtain st1 seq where 2: "next_generation (sst_pub (cu_insts u1 i)) gid pid (sst_claimTTL (cu_insts u1 i)) (cu_st u1) = (st1, Inr seq)"
    using assms(1) 1 by (auto simp: connect_def Let_def u1_def split: prod.splits sum.splits)
  define u2 where "u2 = go (with_st u1 st1) t i pid (Counted seq)"
  obtain st2 where 3: "publish_msg (sst_pub (cu_insts u2 i)) (channel gid) (claim_msg pid seq) (cu_st u2) = (st2, Inr ())"
    using assms(1) 1 2[unfolded u1_def] by (auto simp: connect_def Let_def u1_def u2_def split: prod.splits sum.splits)
  define u3 where "u3 = go (with_st u2 st2) t i pid (Claimed seq)"
  obtain sess w ok where 4: "fmlookup (sst_sessions (cu_insts u3 i)) gid = Some sess"
    "Hub_Register pid t (alloc t (NewClient pid gid seq) (ses_hub sess)) = (w, ok)"
    and u': "u' = go (with_inst u3 i (put_session gid (sess\<lparr>ses_hub := w\<rparr>) (cu_insts u3 i))) t i pid
          (if ok then Registered seq else Leaving)"
    using assms(1) unfolding connect_def 1 prod.case sum.case Let_def u1_def[symmetric] 2 u2_def[symmetric] 3 u3_def[symmetric]
    by (auto split: option.splits prod.splits)
  have "ws_step marshal gid u u1" unfolding u1_def by (rule ws_step.acquire[OF assms(2) 1])
  moreover have "ws_step marshal gid u1 u2"
    unfolding u2_def by (rule ws_step.count[OF _ 2]) (simp add: u1_def at_phase_go_here)
  moreover have "ws_step marshal gid u2 u3"
    unfolding u3_def by (rule ws_step.announce[OF _ 3]) (simp add: u2_def at_phase_go_here)
  moreover have "ws_step marshal gid u3 u'"
    unfolding u' by (rule ws_step.register[OF _ 4]) (simp add: u3_def at_phase_go_here)
  ultimately show ?thesis using assms(3) by (meson ws_reach.ws_trans)
qed

text \<open>A player connects on instance 1, whose subscriber then forwards the claim.\<close>

definition ex_cluster :: "(nat, mem_net) cluster" where
  "ex_cluster = \<lparr>cu_st = mem_empty, cu_insts = (\<lambda>i. newGameSessionStore mem_exec mem_conn 7200000000000), cu_handlers = (\<lambda>t. None)\<rparr>"

definition ex_marshal :: "event option \<Rightarrow> nat option" where
  "ex_marshal e = Some 0"

definition ex_connected :: "(nat, mem_net) cluster" where
  "ex_connected = the (connect ''g'' 0 1 ''p'' ex_cluster)"

definition ex_forwarded :: "(nat, mem_net) cluster" where
  "ex_forwarded = with_inst ex_connected 1
     (deliver ex_marshal ''g'' (rs_db (cu_st ex_connected)) (cu_insts ex_connected 1))"

lemma ex_start: "ws_start mem_exec mem_conn 7200000000000 ''g'' mem_empty ex_cluster"
  by (simp add: ws_start_def ex_cluster_def mem_empty_def)

lemma ex_reach: "ws_reach ex_marshal ''g'' ex_cluster ex_connected"
proof -
  have "connect ''g'' 0 1 ''p'' ex_cluster \<noteq> None" by code_simp
  then have "connect ''g'' 0 1 ''p'' ex_cluster = Some ex_connected" by (simp add: ex_connected_def)
  then show ?thesis by (rule connect_reach) (simp_all add: ex_cluster_def ws_reach.ws_refl)
qed

lemma mem_server: "redis_server mem_exec"
  using mem.redis_server_axioms by (simp add: mem_R_def NewGameStateStore_def)

lemma ex_forwarded_session:
  "case fmlookup (sst_sessions (cu_insts ex_forwarded 1)) ''g'' of None \<Rightarrow> False | Some sess \<Rightarrow>
     ses_pos sess = length (rlog (rs_db (cu_st ex_forwarded)) (channel ''g'')) \<and>
     fmlookup (hb_clients (hs_hub (ses_hub sess))) ''p'' = Some 0"
  by code_simp


lemma ex_connected_phase:
  "cu_handlers ex_connected 0 = Some \<lparr>wh_inst = 1, wh_player = ''p'', wh_phase = Registered 1\<rparr>"
  "fmlookup (hash (rs_db (cu_st ex_connected)) (connectionsKey ''g'')) ''p'' = Some (FText (itoa 1))"
  by code_simp+

lemma ex_connected_counter: "counter (rs_db (cu_st ex_connected)) ''g'' ''p'' = 1"
  by (simp add: counter_def ex_connected_phase(2) int64_min_def int64_max_def)


section \<open>An expired counter\<close>

text \<open>
  C23: the newest connection does not win once the counters have expired. Their key lives for
  \<open>claimTTL\<close> after the last claim of the game, while a connection may stay longer: then the next
  \<open>ClaimConnection\<close> starts again at generation 1, and a hub that knows a later generation of the
  player refuses and closes the new connection, and keeps the old one.
\<close>
theorem expired_counter_refuses:
  assumes "redis_server (pb_exec P)" and "0 < ttl" and "rkeys (rs_db st) (connectionsKey gid) = None"
    and "Publisher_ClaimConnection P gid pid ttl st = (st', Inr seq)"
    and "1 < latest_of (hs_hub w) pid"
    and "Hub_Register pid c (alloc c (NewClient pid gid seq) w) = (w', ok)"
  shows "seq = 1 \<and> \<not> ok \<and> cl_closed (hs_heap w' c) \<and> hs_hub w' = hs_hub w"
proof -
  have k: "counters_ok (rs_db st) gid" "counter (rs_db st) gid pid = 0"
    using assms(3) by (simp_all add: counters_ok_def counter_def is_hash_def hash_def)
  obtain st1 where n: "next_generation P gid pid ttl st = (st1, Inr seq)"
    using assms(4) by (auto simp: Publisher_ClaimConnection_def split: and_then_splits)
  have "seq = 1"
    using redis_server.next_generation_effect[OF assms(1) refl assms(2) k(1) n] k(2) by simp
  with assms(5,6) show ?thesis
    by (auto simp: Hub_Register_def Register_cs_def alloc_def NewClient_def hub_close_def client_Close_def Let_def split: if_splits)
qed

definition ex_late_hub :: "nat hub_state" where
  "ex_late_hub = fst (Hub_Register ''p'' 1 (new_hub_state ex_heap))"

theorem expired_counter_refuses_witness:
  "\<not> snd (Hub_Register ''p'' 5 (alloc 5 (NewClient ''p'' ''g'' 1) ex_late_hub))"
proof -
  let ?P = "NewPublisher mem_exec mem_conn :: mem_net Publisher"
  have c: "snd (Publisher_ClaimConnection ?P ''g'' ''p'' 1000000000 mem_empty) = Inr 1" by code_simp
  then obtain st' where c: "Publisher_ClaimConnection ?P ''g'' ''p'' 1000000000 mem_empty = (st', Inr 1)"
    by (cases "Publisher_ClaimConnection ?P ''g'' ''p'' 1000000000 mem_empty") simp
  obtain w' ok where r: "Hub_Register ''p'' 5 (alloc 5 (NewClient ''p'' ''g'' 1) ex_late_hub) = (w', ok)"
    by (cases "Hub_Register ''p'' 5 (alloc 5 (NewClient ''p'' ''g'' 1) ex_late_hub)")
  have "redis_server (pb_exec ?P)" using mem_server by (simp add: NewPublisher_def)
  moreover have "1 < latest_of (hs_hub ex_late_hub) ''p''"
    by (simp add: ex_late_hub_def Hub_Register_def Register_cs_def new_hub_state_def NewHub_def latest_of_def ex_heap_def NewClient_def Let_def)
  ultimately have "\<not> ok"
    using expired_counter_refuses[OF _ _ _ c _ r] by (simp add: mem_empty_def)
  with r show ?thesis by simp
qed

end
