(* ===== verification/Http.thy ===== *)
theory Http
  imports Game_Engine
begin

text \<open>
  Requests and responses as the handlers see them: \<open>writeJSON\<close>, \<open>writeError\<close> and \<open>writeErrorCode\<close> of
  \<open>internal/handler/health.go\<close> over a datatype of JSON values, and the parts of Go's \<open>strings\<close> and
  \<open>unicode/utf8\<close> packages that the program uses on its UTF-8 texts (lists of bytes).

  A request body is what \<open>encoding/json\<close> decodes from it: \<open>None\<close> stands for a decoding error.
\<close>

section \<open>JSON\<close>

datatype json = JNull | JBool bool | JInt int | JStr string | JTime time | JArr "json list" | JObj "(string \<times> json) list"

text \<open>The keys that occur anywhere in a value.\<close>

fun json_keys :: "json \<Rightarrow> string set" where
  "json_keys (JArr js) = (\<Union>j \<in> set js. json_keys j)"
| "json_keys (JObj kvs) = (\<Union>kv \<in> set kvs. insert (fst kv) (json_keys (snd kv)))"
| "json_keys _ = {}"

record response =
  rp_status :: int
  rp_body :: "json option"

definition writeJSON :: "int \<Rightarrow> json \<Rightarrow> response" where
  "writeJSON status v = \<lparr>rp_status = status, rp_body = Some v\<rparr>"

definition writeError :: "int \<Rightarrow> string \<Rightarrow> response" where
  "writeError status msg = writeJSON status (JObj [(''error'', JStr msg)])"

definition writeErrorCode :: "int \<Rightarrow> string \<Rightarrow> string \<Rightarrow> response" where
  "writeErrorCode status code msg = writeJSON status (JObj [(''error'', JStr msg), (''code'', JStr code)])"

text \<open>\<open>w.WriteHeader(http.StatusNoContent)\<close>.\<close>

definition noContent :: response where
  "noContent = \<lparr>rp_status = 204, rp_body = None\<rparr>"

lemma rp_simps [simp]:
  "rp_status (writeJSON st v) = st" "rp_body (writeJSON st v) = Some v"
  "rp_status (writeError st msg) = st" "rp_body (writeError st msg) = Some (JObj [(''error'', JStr msg)])"
  "rp_status (writeErrorCode st code msg) = st"
  "rp_body (writeErrorCode st code msg) = Some (JObj [(''error'', JStr msg), (''code'', JStr code)])"
  "rp_status noContent = 204" "rp_body noContent = None"
  by (simp_all add: writeJSON_def writeError_def writeErrorCode_def noContent_def)

section \<open>Handlers\<close>

text \<open>
  A handler runs over a state and answers once. A step that may write an error response and end
  the request returns \<open>response + 'a\<close>; \<open>fail_with\<close> is \<open>if err != nil { write...; return }\<close> after a
  call, and \<open>answered\<close> is the response of the whole handler, from whichever return.
\<close>

definition fail_with :: "('e \<Rightarrow> response) \<Rightarrow> 's \<times> ('e + 'a) \<Rightarrow> 's \<times> (response + 'a)" where
  "fail_with f m = (fst m, map_sum f id (snd m))"

definition answered :: "'s \<times> (response + response) \<Rightarrow> 's \<times> response" where
  "answered m = (fst m, case snd m of Inl r \<Rightarrow> r | Inr r \<Rightarrow> r)"

text \<open>A check that does not touch the state.\<close>

definition require :: "bool \<Rightarrow> response \<Rightarrow> 's \<Rightarrow> ('s \<Rightarrow> 's \<times> (response + 'a)) \<Rightarrow> 's \<times> (response + 'a)" where
  "require ok r st k = (if ok then k st else (st, Inl r))"

lemma fail_with_simps [simp]:
  "fail_with f (st, Inl e) = (st, Inl (f e))" "fail_with f (st, Inr x) = (st, Inr x)" "fst (fail_with f m) = fst m"
  by (simp_all add: fail_with_def)

lemma answered_simps [simp]: "answered (st, Inl r) = (st, r)" "answered (st, Inr r) = (st, r)" "fst (answered m) = fst m"
  by (simp_all add: answered_def)

lemma fail_with_Inr [simp]: "fail_with f m = (st, Inr x) \<longleftrightarrow> m = (st, Inr x)"
  by (cases m, cases "snd m") auto

lemma fail_with_Inl: "fail_with f m = (st, Inl r) \<longleftrightarrow> (\<exists>e. m = (st, Inl e) \<and> r = f e)"
  by (cases m, cases "snd m") auto

section \<open>Texts\<close>

text \<open>The UTF-8 encodings of the white space characters of \<open>unicode.IsSpace\<close>.\<close>

definition space_encodings :: "string list" where
  "space_encodings = map (map char_of)
     ([[0x09], [0x0A], [0x0B], [0x0C], [0x0D], [0x20], [0xC2, 0x85], [0xC2, 0xA0], [0xE1, 0x9A, 0x80]]
      @ map (\<lambda>b. [0xE2, 0x80, b]) [0x80, 0x81, 0x82, 0x83, 0x84, 0x85, 0x86, 0x87, 0x88, 0x89, 0x8A, 0xA8, 0xA9, 0xAF]
      @ [[0xE2, 0x81, 0x9F], [0xE3, 0x80, 0x80]] :: nat list list)"

text \<open>Remove any of the given texts from the front, as often as possible; all are non-empty.\<close>

fun strip_one :: "string list \<Rightarrow> string \<Rightarrow> string option" where
  "strip_one [] s = None"
| "strip_one (e # es) s = (if e \<noteq> [] \<and> take (length e) s = e then Some (drop (length e) s) else strip_one es s)"

lemma strip_one_split: "strip_one es s = Some s' \<Longrightarrow> \<exists>e. e \<noteq> [] \<and> s = e @ s'"
proof (induction es s rule: strip_one.induct)
  case (2 e es s)
  show ?case
  proof (cases "e \<noteq> [] \<and> take (length e) s = e")
    case True
    then have "s = e @ s'" using 2(2) append_take_drop_id[of "length e" s] by simp
    then show ?thesis using True by blast
  qed (use 2 in auto)
qed simp

lemma strip_one_shorter: "strip_one es s = Some s' \<Longrightarrow> length s' < length s"
  by (drule strip_one_split) auto

function strip_front :: "string list \<Rightarrow> string \<Rightarrow> string" where
  "strip_front es s = (case strip_one es s of None \<Rightarrow> s | Some s' \<Rightarrow> strip_front es s')"
  by auto
termination
  by (relation "measure (\<lambda>(es, s). length s)") (auto dest: strip_one_shorter)

declare strip_front.simps [simp del]

definition TrimSpace :: "string \<Rightarrow> string" where
  "TrimSpace s = (let front = strip_front space_encodings s
                  in rev (strip_front (map rev space_encodings) (rev front)))"

definition TrimRight :: "string \<Rightarrow> char \<Rightarrow> string" where
  "TrimRight s c = rev (dropWhile (\<lambda>x. x = c) (rev s))"

text \<open>\<open>strings.Split\<close> on a single character.\<close>

fun Split :: "string \<Rightarrow> char \<Rightarrow> string list" where
  "Split [] sep = [[]]"
| "Split (c # cs) sep =
     (if c = sep then [] # Split cs sep
      else (case Split cs sep of p # ps \<Rightarrow> (c # p) # ps | [] \<Rightarrow> [[c]]))"

text \<open>\<open>utf8.RuneCountInString\<close> of a valid text: the bytes that start a character.\<close>

definition RuneCount :: "string \<Rightarrow> nat" where
  "RuneCount s = length (filter (\<lambda>c. (of_char c :: nat) div 64 \<noteq> 2) s)"

lemma strip_front_suffix: "\<exists>p. s = p @ strip_front es s"
proof (induction es s rule: strip_front.induct)
  case (1 es s)
  show ?case
  proof (cases "strip_one es s")
    case None
    then show ?thesis by (simp add: strip_front.simps)
  next
    case (Some s')
    then obtain q where q: "s = q @ s'" using strip_one_split by blast
    from 1[OF Some] obtain p where p: "s' = p @ strip_front es s'" ..
    have "strip_front es s = strip_front es s'" by (subst strip_front.simps) (simp add: Some)
    then have "s = (q @ p) @ strip_front es s" using q p by simp
    then show ?thesis ..
  qed
qed

lemma strip_front_none: "strip_one es (strip_front es s) = None"
proof (induction es s rule: strip_front.induct)
  case (1 es s)
  then show ?case by (subst strip_front.simps) (auto split: option.splits)
qed

lemma Split_nonempty [simp]: "Split s sep \<noteq> []"
  by (induction s sep rule: Split.induct) (auto split: list.splits)

lemma Split_parts: "p \<in> set (Split s sep) \<Longrightarrow> sep \<notin> set p"
  by (induction s sep arbitrary: p rule: Split.induct) (fastforce split: if_splits list.splits)+

lemma strip_one_None: "strip_one es s = None \<longleftrightarrow> (\<forall>e \<in> set es. e \<noteq> [] \<longrightarrow> take (length e) s \<noteq> e)"
  by (induction es s rule: strip_one.induct) auto

lemma strip_front_id: "strip_one es s = None \<Longrightarrow> strip_front es s = s"
  by (simp add: strip_front.simps)

lemma strip_one_None_prefix:
  assumes "strip_one es (p @ q) = None"
  shows "strip_one es p = None"
  unfolding strip_one_None
proof (intro ballI impI notI)
  fix e assume e: "e \<in> set es" "e \<noteq> []" "take (length e) p = e"
  then have "length e \<le> length p" by (metis length_take min.cobounded1)
  with e(3) have "take (length e) (p @ q) = e" by simp
  with assms e(1,2) show False unfolding strip_one_None by blast
qed

lemma TrimSpace_idem [simp]: "TrimSpace (TrimSpace s) = TrimSpace s"
proof -
  define f where "f = strip_front space_encodings s"
  define b where "b = strip_front (map rev space_encodings) (rev f)"
  have t: "TrimSpace s = rev b" by (simp add: TrimSpace_def f_def b_def Let_def)
  obtain p where "rev f = p @ b" using strip_front_suffix[of "rev f"] unfolding b_def by blast
  then have "f = rev b @ rev p" by (metis rev_append rev_rev_ident)
  then have "strip_one space_encodings (rev b @ rev p) = None"
    using strip_front_none[of space_encodings s] f_def by simp
  then have "strip_front space_encodings (rev b) = rev b"
    by (rule strip_front_id[OF strip_one_None_prefix])
  moreover have "strip_front (map rev space_encodings) b = b"
    using strip_front_none[of "map rev space_encodings" "rev f"] by (intro strip_front_id) (simp add: b_def)
  ultimately show ?thesis by (simp add: t) (simp add: TrimSpace_def Let_def)
qed

end
