(* ===== verification/Catalog_Store.thy ===== *)
theory Catalog_Store
  imports Http
begin

text \<open>
  The catalog's storage interface, \<open>internal/store/store.go\<close>: the records with their JSON form, the
  interfaces as records of operations over an unspecified type of stores, and the contract that the
  comments of the file promise, as specifications over the rows that a client can read.

  The rows are a \<open>catalog\<close>: finite maps keyed by ID. A question row has no theme reference
  (\<open>qr_Theme\<close> is \<open>None\<close>); reads fill it from the theme that \<open>qr_ThemeID\<close> names (\<open>with_theme\<close>).
\<close>

section \<open>Errors and records\<close>

text \<open>\<open>ErrDB\<close> stands for every other error: of the driver, of the server, of the connection.\<close>

datatype store_error = ErrNotFound | ErrConflict | ErrDB

definition ActorTypeAdmin :: string where "ActorTypeAdmin = ''admin''"
definition ActorTypeUser :: string where "ActorTypeUser = ''user''"
definition ListVisibilityPublic :: string where "ListVisibilityPublic = ''public''"
definition ListVisibilityPrivate :: string where "ListVisibilityPrivate = ''private''"

record GameRecord =
  gr_ID :: string
  gr_OwnerID :: string
  gr_QuestionListID :: string
  gr_Status :: string
  gr_CreatedAt :: time
  gr_UpdatedAt :: time

record PlayerRecord =
  pr_ID :: string
  pr_GameID :: string
  pr_Name :: string
  pr_Lives :: int
  pr_Active :: bool
  pr_CreatedAt :: time

record QuestionListRecord =
  ql_ID :: string
  ql_Name :: string
  ql_Description :: string
  ql_Visibility :: string
  ql_OwnerType :: string
  ql_OwnerID :: string
  ql_CreatedAt :: time
  ql_UpdatedAt :: time

definition ThemeScopeGlobal :: string where "ThemeScopeGlobal = ''global''"
definition ThemeScopeList :: string where "ThemeScopeList = ''list''"

record ThemeRecord =
  th_ID :: string
  th_Scope :: string
  th_QuestionListID :: string
  th_Name :: string
  th_Description :: string
  th_CreatedAt :: time
  th_UpdatedAt :: time

record ThemeRef =
  tref_ID :: string
  tref_Name :: string
  tref_Scope :: string

record OptionRecord =
  or_ID :: string
  or_Text :: string

record QuestionRecord =
  qr_ID :: string
  qr_QuestionListID :: string
  qr_Text :: string
  qr_Options :: "OptionRecord list"
  qr_CorrectOptionID :: string
  qr_OrderIndex :: int
  qr_ThemeID :: string
  qr_Theme :: "ThemeRef option"

section \<open>JSON forms\<close>

definition QuestionListRecord_json :: "QuestionListRecord \<Rightarrow> json" where
  "QuestionListRecord_json l = JObj
     [(''id'', JStr (ql_ID l)), (''name'', JStr (ql_Name l)), (''description'', JStr (ql_Description l)),
      (''visibility'', JStr (ql_Visibility l)), (''owner_type'', JStr (ql_OwnerType l)), (''owner_id'', JStr (ql_OwnerID l)),
      (''created_at'', JTime (ql_CreatedAt l)), (''updated_at'', JTime (ql_UpdatedAt l))]"

definition ThemeRef_json :: "ThemeRef \<Rightarrow> json" where
  "ThemeRef_json t = JObj [(''id'', JStr (tref_ID t)), (''name'', JStr (tref_Name t)), (''scope'', JStr (tref_Scope t))]"

definition OptionRecord_json :: "OptionRecord \<Rightarrow> json" where
  "OptionRecord_json opt = JObj [(''id'', JStr (or_ID opt)), (''text'', JStr (or_Text opt))]"

definition QuestionRecord_json :: "QuestionRecord \<Rightarrow> json" where
  "QuestionRecord_json q = JObj
     ([(''id'', JStr (qr_ID q)), (''question_list_id'', JStr (qr_QuestionListID q)), (''text'', JStr (qr_Text q)),
       (''options'', JArr (map OptionRecord_json (qr_Options q)))]
      @ (if qr_CorrectOptionID q = '''' then [] else [(''correct_option_id'', JStr (qr_CorrectOptionID q))])
      @ [(''order_index'', JInt (qr_OrderIndex q)),
         (''theme'', case qr_Theme q of None \<Rightarrow> JNull | Some t \<Rightarrow> ThemeRef_json t)])"

definition ThemeRecord_json :: "ThemeRecord \<Rightarrow> json" where
  "ThemeRecord_json t = JObj
     ([(''id'', JStr (th_ID t)), (''scope'', JStr (th_Scope t))]
      @ (if th_QuestionListID t = '''' then [] else [(''question_list_id'', JStr (th_QuestionListID t))])
      @ [(''name'', JStr (th_Name t)), (''description'', JStr (th_Description t)),
         (''created_at'', JTime (th_CreatedAt t)), (''updated_at'', JTime (th_UpdatedAt t))])"

section \<open>The interfaces\<close>

type_synonym ('d, 'a) db_op = "'d \<Rightarrow> 'd \<times> (store_error + 'a)"

record 'd GameStore =
  gs_CreateGame :: "GameRecord \<Rightarrow> ('d, unit) db_op"
  gs_GetGame :: "string \<Rightarrow> ('d, GameRecord) db_op"
  gs_UpdateGameStatus :: "string \<Rightarrow> string \<Rightarrow> ('d, unit) db_op"

record 'd PlayerStore =
  ps_CreatePlayer :: "PlayerRecord \<Rightarrow> ('d, unit) db_op"
  ps_GetPlayer :: "string \<Rightarrow> ('d, PlayerRecord) db_op"
  ps_ListPlayers :: "string \<Rightarrow> ('d, PlayerRecord list) db_op"
  ps_UpdatePlayerLives :: "string \<Rightarrow> int \<Rightarrow> bool \<Rightarrow> ('d, unit) db_op"

record 'd QuestionListStore =
  qs_CreateQuestionList :: "QuestionListRecord \<Rightarrow> ('d, unit) db_op"
  qs_GetQuestionList :: "string \<Rightarrow> ('d, QuestionListRecord) db_op"
  qs_UpdateQuestionList :: "QuestionListRecord \<Rightarrow> ('d, unit) db_op"
  qs_DeleteQuestionList :: "string \<Rightarrow> ('d, unit) db_op"
  qs_ListPublicQuestionLists :: "('d, QuestionListRecord list) db_op"
  qs_ListPrivateQuestionLists :: "string \<Rightarrow> ('d, QuestionListRecord list) db_op"
  qs_CreateQuestion :: "QuestionRecord \<Rightarrow> ('d, unit) db_op"
  qs_GetQuestion :: "string \<Rightarrow> ('d, QuestionRecord) db_op"
  qs_UpdateQuestion :: "QuestionRecord \<Rightarrow> ('d, unit) db_op"
  qs_DeleteQuestion :: "string \<Rightarrow> ('d, unit) db_op"
  qs_ReorderQuestions :: "string \<Rightarrow> string list \<Rightarrow> ('d, unit) db_op"
  qs_ListQuestions :: "string \<Rightarrow> ('d, QuestionRecord list) db_op"

record 'd ThemeStore =
  ts_CreateTheme :: "ThemeRecord \<Rightarrow> ('d, unit) db_op"
  ts_GetTheme :: "string \<Rightarrow> ('d, ThemeRecord) db_op"
  ts_ListGlobalThemes :: "('d, ThemeRecord list) db_op"
  ts_ListQuestionListThemes :: "string \<Rightarrow> ('d, ThemeRecord list) db_op"
  ts_UpdateTheme :: "ThemeRecord \<Rightarrow> ('d, unit) db_op"
  ts_DeleteTheme :: "string \<Rightarrow> ('d, unit) db_op"

section \<open>The rows a client can read\<close>

record catalog =
  c_lists :: "(string, QuestionListRecord) fmap"
  c_questions :: "(string, QuestionRecord) fmap"
  c_themes :: "(string, ThemeRecord) fmap"

definition theme_ref :: "ThemeRecord \<Rightarrow> ThemeRef" where
  "theme_ref t = \<lparr>tref_ID = th_ID t, tref_Name = th_Name t, tref_Scope = th_Scope t\<rparr>"

definition with_theme :: "catalog \<Rightarrow> QuestionRecord \<Rightarrow> QuestionRecord" where
  "with_theme c q = q\<lparr>qr_Theme := (if qr_ThemeID q = '''' then None
                                else map_option theme_ref (fmlookup (c_themes c) (qr_ThemeID q)))\<rparr>"

text \<open>
  The questions of a list, each once and in the order of their \<open>order_index\<close>: the order of equal
  indices is open.
\<close>

definition in_order :: "catalog \<Rightarrow> string \<Rightarrow> string list \<Rightarrow> bool" where
  "in_order c lid ids \<longleftrightarrow> distinct ids \<and>
     set ids = {i. \<exists>q. fmlookup (c_questions c) i = Some q \<and> qr_QuestionListID q = lid} \<and>
     sorted (map (\<lambda>i. qr_OrderIndex (the (fmlookup (c_questions c) i))) ids)"

definition no_theme :: "(string \<Rightarrow> bool) \<Rightarrow> catalog \<Rightarrow> catalog" where
  "no_theme gone c = c\<lparr>
     c_themes := fmfilter (\<lambda>i. \<not> gone i) (c_themes c),
     c_questions := fmmap (\<lambda>q. if gone (qr_ThemeID q) then q\<lparr>qr_ThemeID := ''''\<rparr> else q) (c_questions c)\<rparr>"

definition drop_list :: "string \<Rightarrow> catalog \<Rightarrow> catalog" where
  "drop_list lid c =
     no_theme (\<lambda>i. case fmlookup (c_themes c) i of None \<Rightarrow> False | Some t \<Rightarrow> th_QuestionListID t = lid)
       (c\<lparr>c_lists := fmdrop lid (c_lists c),
          c_questions := fmfilter (\<lambda>i. qr_QuestionListID (the (fmlookup (c_questions c) i)) \<noteq> lid) (c_questions c)\<rparr>)"

text \<open>Give the questions the positions they have in a list of IDs; the others keep theirs.\<close>

fun index_of :: "string list \<Rightarrow> string \<Rightarrow> int option" where
  "index_of [] i = None"
| "index_of (x # xs) i = (if x = i then Some 0 else map_option ((+) 1) (index_of xs i))"

lemma index_of_None: "index_of ids i = None \<longleftrightarrow> i \<notin> set ids"
  by (induction ids i rule: index_of.induct) auto

lemma index_of_nth: "distinct ids \<Longrightarrow> k < length ids \<Longrightarrow> index_of ids (ids ! k) = Some (int k)"
proof (induction ids arbitrary: k)
  case (Cons x ids)
  then show ?case by (cases k) auto
qed simp

lemma index_of_Some:
  assumes "index_of ids i = Some n"
  obtains k where "n = int k" and "k < length ids" and "ids ! k = i"
  using assms
proof (induction ids arbitrary: n thesis)
  case (Cons x ids)
  show ?case
  proof (cases "x = i")
    case True
    then show ?thesis using Cons.prems by (auto intro: Cons.prems(1)[of 0])
  next
    case False
    with Cons.prems(2) obtain m where m: "index_of ids i = Some m" "n = 1 + m" by auto
    from Cons.IH[OF _ m(1)] obtain k where "m = int k" "k < length ids" "ids ! k = i" by blast
    then show ?thesis using m(2) Cons.prems(1)[of "Suc k"] by simp
  qed
qed simp

definition positioned :: "string \<Rightarrow> string list \<Rightarrow> catalog \<Rightarrow> catalog" where
  "positioned lid ids c = c\<lparr>c_questions := fmmap_keys (\<lambda>i q.
     case index_of ids i of Some n \<Rightarrow> (if qr_QuestionListID q = lid then q\<lparr>qr_OrderIndex := n\<rparr> else q) | None \<Rightarrow> q)
     (c_questions c)\<rparr>"

section \<open>The contract\<close>

type_synonym 'a spec = "catalog \<Rightarrow> catalog \<Rightarrow> store_error + 'a \<Rightarrow> bool"

definition reads :: "(catalog \<Rightarrow> store_error + 'a \<Rightarrow> bool) \<Rightarrow> 'a spec" where
  "reads P c c' r \<longleftrightarrow> c' = c \<and> P c r"

definition writes :: "(catalog \<Rightarrow> catalog) \<Rightarrow> unit spec" where
  "writes f c c' r \<longleftrightarrow> c' = f c \<and> r = Inr ()"

definition refuses :: "store_error \<Rightarrow> 'a spec" where
  "refuses e c c' r \<longleftrightarrow> c' = c \<and> r = Inl e"

definition set_list :: "QuestionListRecord \<Rightarrow> catalog \<Rightarrow> catalog" where
  "set_list l c = c\<lparr>c_lists := fmupd (ql_ID l) l (c_lists c)\<rparr>"

definition set_question :: "QuestionRecord \<Rightarrow> catalog \<Rightarrow> catalog" where
  "set_question q c = c\<lparr>c_questions := fmupd (qr_ID q) (q\<lparr>qr_Theme := None\<rparr>) (c_questions c)\<rparr>"

text \<open>The scope of a theme follows from its list.\<close>

definition scope_of :: "string \<Rightarrow> string" where
  "scope_of lid = (if lid = '''' then ThemeScopeGlobal else ThemeScopeList)"

definition set_theme :: "ThemeRecord \<Rightarrow> catalog \<Rightarrow> catalog" where
  "set_theme t c = c\<lparr>c_themes := fmupd (th_ID t) t (c_themes c)\<rparr>"

text \<open>Names are compared by a case folding \<open>lower\<close> of the store; times are kept with a precision \<open>prec\<close>.\<close>

definition name_taken :: "(string \<Rightarrow> string) \<Rightarrow> catalog \<Rightarrow> string \<Rightarrow> string \<Rightarrow> string \<Rightarrow> bool" where
  "name_taken lower c lid name tid \<longleftrightarrow>
     (\<exists>t \<in> fmran' (c_themes c). th_ID t \<noteq> tid \<and> th_QuestionListID t = lid \<and> lower (th_Name t) = lower name)"

definition create_list_spec :: "(time \<Rightarrow> time) \<Rightarrow> QuestionListRecord \<Rightarrow> unit spec" where
  "create_list_spec prec l c c' r =
     (if ql_ID l |\<in>| fmdom (c_lists c) then c' = c \<and> (\<exists>e. r = Inl e)
      else writes (set_list (l\<lparr>ql_CreatedAt := prec (ql_CreatedAt l), ql_UpdatedAt := prec (ql_UpdatedAt l)\<rparr>)) c c' r)"

definition get_list_spec :: "string \<Rightarrow> QuestionListRecord spec" where
  "get_list_spec lid = reads (\<lambda>c r. case fmlookup (c_lists c) lid of Some l \<Rightarrow> r = Inr l | None \<Rightarrow> \<exists>e. r = Inl e)"

definition update_list_spec :: "(time \<Rightarrow> time) \<Rightarrow> QuestionListRecord \<Rightarrow> unit spec" where
  "update_list_spec prec l c c' r = (case fmlookup (c_lists c) (ql_ID l) of
       None \<Rightarrow> refuses ErrNotFound c c' r
     | Some l0 \<Rightarrow> writes (set_list (l0\<lparr>ql_Name := ql_Name l, ql_Description := ql_Description l,
                                      ql_UpdatedAt := prec (ql_UpdatedAt l)\<rparr>)) c c' r)"

definition delete_list_spec :: "string \<Rightarrow> unit spec" where
  "delete_list_spec lid c c' r = (case fmlookup (c_lists c) lid of
       None \<Rightarrow> refuses ErrNotFound c c' r
     | Some _ \<Rightarrow> writes (drop_list lid) c c' r)"

definition lists_spec :: "(QuestionListRecord \<Rightarrow> bool) \<Rightarrow> QuestionListRecord list spec" where
  "lists_spec P = reads (\<lambda>c r. \<exists>ls. r = Inr ls \<and> distinct (map ql_ID ls) \<and>
     set ls = {l. l \<in> fmran' (c_lists c) \<and> P l} \<and> sorted_wrt (\<lambda>a b. ql_CreatedAt b \<le> ql_CreatedAt a) ls)"

definition create_question_spec :: "QuestionRecord \<Rightarrow> unit spec" where
  "create_question_spec q c c' r =
     (if qr_ID q |\<in>| fmdom (c_questions c) then c' = c \<and> (\<exists>e. r = Inl e) else writes (set_question q) c c' r)"

definition get_question_spec :: "string \<Rightarrow> QuestionRecord spec" where
  "get_question_spec qid = reads (\<lambda>c r. case fmlookup (c_questions c) qid of
     Some q \<Rightarrow> r = Inr (with_theme c q) | None \<Rightarrow> r = Inl ErrNotFound)"

definition update_question_spec :: "QuestionRecord \<Rightarrow> unit spec" where
  "update_question_spec q c c' r = (case fmlookup (c_questions c) (qr_ID q) of
       None \<Rightarrow> refuses ErrNotFound c c' r
     | Some q0 \<Rightarrow> writes (set_question (q0\<lparr>qr_Text := qr_Text q, qr_Options := qr_Options q,
                                          qr_CorrectOptionID := qr_CorrectOptionID q, qr_ThemeID := qr_ThemeID q\<rparr>)) c c' r)"

definition drop_question :: "string \<Rightarrow> catalog \<Rightarrow> catalog" where
  "drop_question qid c = c\<lparr>c_questions := fmdrop qid (c_questions c)\<rparr>"

definition delete_question_spec :: "string \<Rightarrow> unit spec" where
  "delete_question_spec qid c c' r = (case fmlookup (c_questions c) qid of
       None \<Rightarrow> refuses ErrNotFound c c' r
     | Some q \<Rightarrow> (\<exists>ids. in_order (drop_question qid c) (qr_QuestionListID q) ids \<and>
                     writes (\<lambda>c. positioned (qr_QuestionListID q) ids (drop_question qid c)) c c' r))"

definition reorder_spec :: "string \<Rightarrow> string list \<Rightarrow> unit spec" where
  "reorder_spec lid ids = writes (positioned lid ids)"

definition list_questions_spec :: "string \<Rightarrow> QuestionRecord list spec" where
  "list_questions_spec lid = reads (\<lambda>c r. \<exists>ids. in_order c lid ids \<and>
     r = Inr (map (\<lambda>i. with_theme c (the (fmlookup (c_questions c) i))) ids))"

definition create_theme_spec :: "(time \<Rightarrow> time) \<Rightarrow> (string \<Rightarrow> string) \<Rightarrow> ThemeRecord \<Rightarrow> unit spec" where
  "create_theme_spec prec lower t c c' r =
     (if th_ID t |\<in>| fmdom (c_themes c) \<or> name_taken lower c (th_QuestionListID t) (th_Name t) (th_ID t)
      then refuses ErrConflict c c' r
      else writes (set_theme (t\<lparr>th_Scope := scope_of (th_QuestionListID t),
                                th_CreatedAt := prec (th_CreatedAt t), th_UpdatedAt := prec (th_UpdatedAt t)\<rparr>)) c c' r)"

definition get_theme_spec :: "string \<Rightarrow> ThemeRecord spec" where
  "get_theme_spec tid = reads (\<lambda>c r. case fmlookup (c_themes c) tid of Some t \<Rightarrow> r = Inr t | None \<Rightarrow> r = Inl ErrNotFound)"

definition themes_spec :: "string \<Rightarrow> ThemeRecord list spec" where
  "themes_spec lid = reads (\<lambda>c r. \<exists>ts. r = Inr ts \<and> distinct (map th_ID ts) \<and>
     set ts = {t. t \<in> fmran' (c_themes c) \<and> th_QuestionListID t = lid})"

definition update_theme_spec :: "(time \<Rightarrow> time) \<Rightarrow> (string \<Rightarrow> string) \<Rightarrow> ThemeRecord \<Rightarrow> unit spec" where
  "update_theme_spec prec lower t c c' r = (case fmlookup (c_themes c) (th_ID t) of
       None \<Rightarrow> refuses ErrNotFound c c' r
     | Some t0 \<Rightarrow> (if name_taken lower c (th_QuestionListID t0) (th_Name t) (th_ID t) then refuses ErrConflict c c' r
          else writes (set_theme (t0\<lparr>th_Name := th_Name t, th_Description := th_Description t,
                                     th_UpdatedAt := prec (th_UpdatedAt t)\<rparr>)) c c' r))"

definition delete_theme_spec :: "string \<Rightarrow> unit spec" where
  "delete_theme_spec tid c c' r = (case fmlookup (c_themes c) tid of
       None \<Rightarrow> refuses ErrNotFound c c' r
     | Some _ \<Rightarrow> writes (no_theme (\<lambda>i. i = tid)) c c' r)"

text \<open>
  A call obeys its specification, or fails with \<open>ErrDB\<close>: before it had an effect, or after its
  effect, the reply lost. On a store that is up, a call that the store can serve (\<open>pre\<close>) does not
  fail with \<open>ErrDB\<close>, and the store stays up.
\<close>

definition obeys :: "('d \<Rightarrow> bool) \<Rightarrow> ('d \<Rightarrow> catalog) \<Rightarrow> 'a spec \<Rightarrow> 'd \<Rightarrow> 'd \<times> (store_error + 'a) \<Rightarrow> bool" where
  "obeys ok cat sp st out \<longleftrightarrow> (ok st \<longrightarrow> ok (fst out) \<and>
     (sp (cat st) (cat (fst out)) (snd out) \<or>
      snd out = Inl ErrDB \<and> (cat (fst out) = cat st \<or> (\<exists>r. sp (cat st) (cat (fst out)) r))))"

definition serves :: "('d \<Rightarrow> bool) \<Rightarrow> bool \<Rightarrow> 'd \<Rightarrow> 'd \<times> (store_error + 'a) \<Rightarrow> bool" where
  "serves up pre st out \<longleftrightarrow> (up st \<longrightarrow> up (fst out) \<and> (pre \<longrightarrow> snd out \<noteq> Inl ErrDB))"

definition question_texts :: "QuestionRecord \<Rightarrow> string list" where
  "question_texts q = [qr_ID q, qr_QuestionListID q, qr_Text q, qr_CorrectOptionID q, qr_ThemeID q]
     @ concat (map (\<lambda>opt. [or_ID opt, or_Text opt]) (qr_Options q))"

definition theme_exists :: "catalog \<Rightarrow> string \<Rightarrow> bool" where
  "theme_exists c tid \<longleftrightarrow> tid = '''' \<or> tid |\<in>| fmdom (c_themes c)"

text \<open>What the rows always are: stored under their ID, with references to rows that exist.\<close>

definition rows_ok :: "catalog \<Rightarrow> bool" where
  "rows_ok c \<longleftrightarrow>
     (\<forall>i l. fmlookup (c_lists c) i = Some l \<longrightarrow> ql_ID l = i) \<and>
     (\<forall>i q. fmlookup (c_questions c) i = Some q \<longrightarrow> qr_ID q = i \<and> qr_Theme q = None \<and>
        qr_QuestionListID q |\<in>| fmdom (c_lists c) \<and> theme_exists c (qr_ThemeID q)) \<and>
     (\<forall>i t. fmlookup (c_themes c) i = Some t \<longrightarrow> th_ID t = i \<and> th_Scope t = scope_of (th_QuestionListID t) \<and>
        (th_QuestionListID t = '''' \<or> th_QuestionListID t |\<in>| fmdom (c_lists c)))"

locale catalog_store =
  fixes Q :: "'d QuestionListStore" and T :: "'d ThemeStore" and cat :: "'d \<Rightarrow> catalog"
    and prec :: "time \<Rightarrow> time" and lower :: "string \<Rightarrow> string" and text_ok :: "string \<Rightarrow> bool" and ok up :: "'d \<Rightarrow> bool"
  assumes rows: "ok st \<Longrightarrow> rows_ok (cat st)" and up_ok: "up st \<Longrightarrow> ok st"
    and create_list: "obeys ok cat (create_list_spec prec l) st (qs_CreateQuestionList Q l st)"
      "serves up (ql_ID l |\<notin>| fmdom (c_lists (cat st)) \<and>
          list_all text_ok [ql_ID l, ql_Name l, ql_Description l, ql_OwnerID l] \<and>
          ql_Visibility l \<in> {ListVisibilityPublic, ListVisibilityPrivate} \<and>
          ql_OwnerType l \<in> {ActorTypeAdmin, ActorTypeUser}) st (qs_CreateQuestionList Q l st)"
    and get_list: "obeys ok cat (get_list_spec lid) st (qs_GetQuestionList Q lid st)"
      "serves up (lid |\<in>| fmdom (c_lists (cat st)) \<and> text_ok lid) st (qs_GetQuestionList Q lid st)"
    and update_list: "obeys ok cat (update_list_spec prec l) st (qs_UpdateQuestionList Q l st)"
      "serves up (list_all text_ok [ql_ID l, ql_Name l, ql_Description l]) st (qs_UpdateQuestionList Q l st)"
    and delete_list: "lid \<noteq> '''' \<Longrightarrow> obeys ok cat (delete_list_spec lid) st (qs_DeleteQuestionList Q lid st)"
      "lid \<noteq> '''' \<Longrightarrow> serves up (text_ok lid) st (qs_DeleteQuestionList Q lid st)"
    and public_lists: "obeys ok cat (lists_spec (\<lambda>l. ql_Visibility l = ListVisibilityPublic)) st (qs_ListPublicQuestionLists Q st)"
      "serves up True st (qs_ListPublicQuestionLists Q st)"
    and private_lists: "obeys ok cat (lists_spec (\<lambda>l. ql_Visibility l = ListVisibilityPrivate \<and> ql_OwnerID l = oid)) st
          (qs_ListPrivateQuestionLists Q oid st)"
      "serves up (text_ok oid) st (qs_ListPrivateQuestionLists Q oid st)"
    and create_question: "obeys ok cat (create_question_spec q) st (qs_CreateQuestion Q q st)"
      "serves up (qr_ID q |\<notin>| fmdom (c_questions (cat st)) \<and> qr_QuestionListID q |\<in>| fmdom (c_lists (cat st)) \<and>
          theme_exists (cat st) (qr_ThemeID q) \<and> list_all text_ok (question_texts q) \<and>
          - (2 ^ 31) \<le> qr_OrderIndex q \<and> qr_OrderIndex q < 2 ^ 31) st (qs_CreateQuestion Q q st)"
    and get_question: "obeys ok cat (get_question_spec qid) st (qs_GetQuestion Q qid st)"
      "serves up (text_ok qid) st (qs_GetQuestion Q qid st)"
    and update_question: "obeys ok cat (update_question_spec q) st (qs_UpdateQuestion Q q st)"
      "serves up (list_all text_ok (question_texts q) \<and> theme_exists (cat st) (qr_ThemeID q)) st (qs_UpdateQuestion Q q st)"
    and delete_question: "obeys ok cat (delete_question_spec qid) st (qs_DeleteQuestion Q qid st)"
      "serves up (text_ok qid) st (qs_DeleteQuestion Q qid st)"
    and reorder: "distinct ids \<Longrightarrow> obeys ok cat (reorder_spec lid ids) st (qs_ReorderQuestions Q lid ids st)"
      "distinct ids \<Longrightarrow> serves up (list_all text_ok (lid # ids)) st (qs_ReorderQuestions Q lid ids st)"
    and list_questions: "obeys ok cat (list_questions_spec lid) st (qs_ListQuestions Q lid st)"
      "serves up (text_ok lid) st (qs_ListQuestions Q lid st)"
    and create_theme: "obeys ok cat (create_theme_spec prec lower t) st (ts_CreateTheme T t st)"
      "serves up ((th_QuestionListID t = '''' \<or> th_QuestionListID t |\<in>| fmdom (c_lists (cat st))) \<and>
          list_all text_ok [th_ID t, th_QuestionListID t, th_Name t, th_Description t]) st (ts_CreateTheme T t st)"
    and get_theme: "obeys ok cat (get_theme_spec tid) st (ts_GetTheme T tid st)"
      "serves up (text_ok tid) st (ts_GetTheme T tid st)"
    and global_themes: "obeys ok cat (themes_spec '''') st (ts_ListGlobalThemes T st)"
      "serves up True st (ts_ListGlobalThemes T st)"
    and list_themes: "lid \<noteq> '''' \<Longrightarrow> obeys ok cat (themes_spec lid) st (ts_ListQuestionListThemes T lid st)"
      "lid \<noteq> '''' \<Longrightarrow> serves up (text_ok lid) st (ts_ListQuestionListThemes T lid st)"
    and update_theme: "obeys ok cat (update_theme_spec prec lower t) st (ts_UpdateTheme T t st)"
      "serves up (list_all text_ok [th_ID t, th_Name t, th_Description t]) st (ts_UpdateTheme T t st)"
    and delete_theme: "obeys ok cat (delete_theme_spec tid) st (ts_DeleteTheme T tid st)"
      "serves up (text_ok tid) st (ts_DeleteTheme T tid st)"

end
