(* ===== verification/Auth.thy ===== *)
theory Auth
  imports Catalog_Store
begin

text \<open>
  Authentication: \<open>internal/auth/\<close> and \<open>internal/handler/auth.go\<close>, and what the handlers make of the
  actor (\<open>internal/handler/actor.go\<close>).

  The JWT library, the OpenID provider and its client, and the source of random bytes are not part
  of the repository. A token library (\<open>tokens\<close>) signs claims with a secret and gives back the
  claims of a token it accepts at some time; the locale \<open>jwt\<close> states what the code relies on.
  Claims are texts by name with an expiry; \<open>encoding/json\<close> leaves a field without claim empty.
\<close>

section \<open>Actors\<close>

record Actor =
  ac_Sub :: string
  ac_Name :: string
  ac_Email :: string
  ac_ActorType :: string

record devActor =
  da_Type :: string
  da_ID :: string

definition canReadList :: "devActor \<Rightarrow> QuestionListRecord \<Rightarrow> bool" where
  "canReadList a l \<longleftrightarrow> ql_Visibility l \<noteq> ListVisibilityPrivate \<or> ql_OwnerID l = da_ID a"

definition canEditList :: "devActor \<Rightarrow> QuestionListRecord \<Rightarrow> bool" where
  "canEditList a l \<longleftrightarrow> (if ql_Visibility l = ListVisibilityPublic then da_Type a = ActorTypeAdmin else ql_OwnerID l = da_ID a)"

text \<open>The argument is the actor of the request's context.\<close>

definition extractActor :: "Actor option \<Rightarrow> devActor" where
  "extractActor ctx = (case ctx of
       None \<Rightarrow> \<lparr>da_Type = ActorTypeUser, da_ID = ''anonymous''\<rparr>
     | Some a \<Rightarrow> \<lparr>da_Type = ac_ActorType a, da_ID = ac_Sub a\<rparr>)"

section \<open>Tokens\<close>

definition SessionCookie :: string where "SessionCookie = ''quizz_session''"
definition StateCookie :: string where "StateCookie = ''oauth2_state''"
definition sessionTTL :: int where "sessionTTL = 24 * 3600 * 1000000000"

record claims =
  cl_fields :: "(string \<times> string) list"
  cl_exp :: "int option"
  cl_iat :: "int option"

definition claim :: "claims \<Rightarrow> string \<Rightarrow> string" where
  "claim c f = (case map_of (cl_fields c) f of None \<Rightarrow> '''' | Some v \<Rightarrow> v)"

record 'k tokens =
  tk_sign :: "'k \<Rightarrow> claims \<Rightarrow> string"
  tk_parse :: "'k \<Rightarrow> time \<Rightarrow> string \<Rightarrow> claims option"

text \<open>\<open>jwt.NewNumericDate\<close> keeps whole seconds; a token is accepted before its expiry only.\<close>

definition numeric_date :: "time \<Rightarrow> int" where
  "numeric_date t = t div 1000000000"

definition expired :: "time \<Rightarrow> claims \<Rightarrow> bool" where
  "expired now c \<longleftrightarrow> (case cl_exp c of None \<Rightarrow> False | Some e \<Rightarrow> 1000000000 * e \<le> now)"

text \<open>
  A token that was signed with a secret is accepted with that secret until it expires, and gives the
  claims that were signed; \<open>plain\<close> are the texts that JSON carries unchanged (valid UTF-8).
\<close>

locale jwt =
  fixes J :: "'k tokens" and plain :: "string \<Rightarrow> bool"
  assumes parse_sign: "list_all (\<lambda>(f, v). plain v) (cl_fields c) \<Longrightarrow>
      tk_parse J key now (tk_sign J key c) = (if expired now c then None else Some c)"

definition session_claims :: "time \<Rightarrow> Actor \<Rightarrow> claims" where
  "session_claims now a = \<lparr>cl_fields = [(''sub'', ac_Sub a), (''name'', ac_Name a), (''email'', ac_Email a),
       (''actor_type'', ac_ActorType a)],
     cl_exp = Some (numeric_date (now + sessionTTL)), cl_iat = Some (numeric_date now)\<rparr>"

definition NewSessionToken :: "'k tokens \<Rightarrow> 'k \<Rightarrow> time \<Rightarrow> Actor \<Rightarrow> string" where
  "NewSessionToken J secret now a = tk_sign J secret (session_claims now a)"

definition ParseSessionToken :: "'k tokens \<Rightarrow> 'k \<Rightarrow> time \<Rightarrow> string \<Rightarrow> Actor option" where
  "ParseSessionToken J secret now tok = (case tk_parse J secret now tok of
       None \<Rightarrow> None
     | Some c \<Rightarrow> Some \<lparr>ac_Sub = claim c ''sub'', ac_Name = claim c ''name'', ac_Email = claim c ''email'',
         ac_ActorType = claim c ''actor_type''\<rparr>)"

definition state_claims :: "time \<Rightarrow> string \<Rightarrow> string \<Rightarrow> claims" where
  "state_claims now state nonce = \<lparr>cl_fields = [(''state'', state), (''nonce'', nonce)],
     cl_exp = Some (numeric_date (now + 10 * 60 * 1000000000)), cl_iat = None\<rparr>"

definition NewStateToken :: "'k tokens \<Rightarrow> 'k \<Rightarrow> time \<Rightarrow> string \<Rightarrow> string \<Rightarrow> string" where
  "NewStateToken J secret now state nonce = tk_sign J secret (state_claims now state nonce)"

definition ParseStateToken :: "'k tokens \<Rightarrow> 'k \<Rightarrow> time \<Rightarrow> string \<Rightarrow> (string \<times> string) option" where
  "ParseStateToken J secret now tok = (case tk_parse J secret now tok of
       None \<Rightarrow> None
     | Some c \<Rightarrow> Some (claim c ''state'', claim c ''nonce''))"

section \<open>Requests, cookies, replies\<close>

text \<open>Headers, query parameters and cookies; an absent one reads as the empty text.\<close>

record http_request =
  rq_headers :: "(string \<times> string) list"
  rq_query :: "(string \<times> string) list"
  rq_cookies :: "(string \<times> string) list"
  rq_now :: time

definition param :: "(string \<times> string) list \<Rightarrow> string \<Rightarrow> string" where
  "param kvs k = (case map_of kvs k of None \<Rightarrow> '''' | Some v \<Rightarrow> v)"

record cookie =
  ck_Name :: string
  ck_Value :: string
  ck_Path :: string
  ck_HttpOnly :: bool
  ck_Lax :: bool
  ck_Secure :: bool
  ck_MaxAge :: int

datatype reply = Answer response "cookie list" | Redirect string "cookie list"

definition SetSessionCookie :: "string \<Rightarrow> bool \<Rightarrow> cookie" where
  "SetSessionCookie token secure = \<lparr>ck_Name = SessionCookie, ck_Value = token, ck_Path = ''/'', ck_HttpOnly = True,
     ck_Lax = True, ck_Secure = secure, ck_MaxAge = sessionTTL div 1000000000\<rparr>"

definition ClearSessionCookie :: cookie where
  "ClearSessionCookie = \<lparr>ck_Name = SessionCookie, ck_Value = '''', ck_Path = ''/'', ck_HttpOnly = True,
     ck_Lax = False, ck_Secure = False, ck_MaxAge = -1\<rparr>"

section \<open>The middleware\<close>

definition actorFromDebugHeaders :: "http_request \<Rightarrow> Actor" where
  "actorFromDebugHeaders r = (let
       t0 = param (rq_headers r) ''X-Debug-Actor-Type'';
       i0 = param (rq_headers r) ''X-Debug-Actor-Id'';
       t1 = (if t0 = '''' then param (rq_query r) ''debugActorType'' else t0);
       i1 = (if i0 = '''' then param (rq_query r) ''debugActorId'' else i0);
       t2 = (if t1 \<noteq> ActorTypeAdmin \<and> t1 \<noteq> ActorTypeUser then ActorTypeUser else t1);
       i2 = (if i1 = '''' then ''anonymous'' else i1)
     in \<lparr>ac_Sub = i2, ac_Name = i2, ac_Email = '''', ac_ActorType = t2\<rparr>)"

definition unauthorized :: "string \<Rightarrow> response" where
  "unauthorized msg = writeJSON 401 (JObj [(''error'', JStr msg)])"

text \<open>The refusal, or the actor that the next handler finds in its context.\<close>

definition Middleware :: "'k tokens \<Rightarrow> 'k \<Rightarrow> bool \<Rightarrow> http_request \<Rightarrow> response + Actor" where
  "Middleware J secret oidcEnabled r =
     (if \<not> oidcEnabled then Inr (actorFromDebugHeaders r)
      else (case map_of (rq_cookies r) SessionCookie of
          None \<Rightarrow> Inl (unauthorized ''unauthenticated'')
        | Some tok \<Rightarrow> (case ParseSessionToken J secret (rq_now r) tok of
            None \<Rightarrow> Inl (unauthorized ''invalid session'')
          | Some a \<Rightarrow> Inr a)))"

section \<open>The OpenID provider\<close>

record id_token =
  idt_Subject :: string
  idt_Nonce :: string
  idt_Claims :: "(string \<times> json) list option"

text \<open>
  \<open>op_exchange\<close> gives the token's \<open>id_token\<close> field, if the exchange works and if it is a text;
  \<open>op_verify\<close> the verified token; \<open>op_auth_url\<close> the login page for a state and a nonce.
\<close>

record OIDCProvider =
  op_auth_url :: "string \<Rightarrow> string \<Rightarrow> string"
  op_exchange :: "string \<Rightarrow> string option option"
  op_verify :: "string \<Rightarrow> id_token option"
  op_roleClaim :: string
  op_adminRole :: string

definition text_claim :: "(string \<times> json) list \<Rightarrow> string \<Rightarrow> string" where
  "text_claim cs f = (case map_of cs f of Some (JStr s) \<Rightarrow> s | _ \<Rightarrow> '''')"

definition actorTypeFromClaims :: "OIDCProvider \<Rightarrow> (string \<times> json) list \<Rightarrow> string" where
  "actorTypeFromClaims p cs =
     (if op_roleClaim p = '''' \<or> op_adminRole p = '''' then ActorTypeUser
      else (case map_of cs (op_roleClaim p) of
          Some (JStr role) \<Rightarrow> (if role = op_adminRole p then ActorTypeAdmin else ActorTypeUser)
        | Some (JArr roles) \<Rightarrow> (if JStr (op_adminRole p) \<in> set roles then ActorTypeAdmin else ActorTypeUser)
        | _ \<Rightarrow> ActorTypeUser))"

definition Exchange :: "OIDCProvider \<Rightarrow> string \<Rightarrow> string \<Rightarrow> Actor option" where
  "Exchange p code nonce = (case op_exchange p code of
       Some (Some raw) \<Rightarrow> (case op_verify p raw of
           Some tok \<Rightarrow> (if idt_Nonce tok \<noteq> nonce then None
             else map_option (\<lambda>cs. \<lparr>ac_Sub = idt_Subject tok, ac_Name = text_claim cs ''name'',
                 ac_Email = text_claim cs ''email'', ac_ActorType = actorTypeFromClaims p cs\<rparr>) (idt_Claims tok))
         | None \<Rightarrow> None)
     | _ \<Rightarrow> None)"

section \<open>The handlers\<close>

record 'k AuthHandler =
  ah_provider :: OIDCProvider
  ah_sessionSecret :: 'k
  ah_frontendURL :: string
  ah_oidcEnabled :: bool
  ah_secureCookies :: bool

definition refuse :: "int \<Rightarrow> string \<Rightarrow> reply" where
  "refuse status msg = Answer (writeError status msg) []"

text \<open>The arguments \<open>state\<close> and \<open>nonce\<close> are the two random strings, \<open>None\<close> if there are no random bytes.\<close>

definition Login :: "'k tokens \<Rightarrow> 'k AuthHandler \<Rightarrow> string option \<Rightarrow> string option \<Rightarrow> http_request \<Rightarrow> reply" where
  "Login J h state nonce r =
     (if \<not> ah_oidcEnabled h then refuse 404 ''OIDC not enabled''
      else (case state of None \<Rightarrow> refuse 500 ''failed to generate state''
        | Some s \<Rightarrow> (case nonce of None \<Rightarrow> refuse 500 ''failed to generate nonce''
          | Some n \<Rightarrow> Redirect (op_auth_url (ah_provider h) s n)
              [\<lparr>ck_Name = StateCookie, ck_Value = NewStateToken J (ah_sessionSecret h) (rq_now r) s n, ck_Path = ''/auth'',
                ck_HttpOnly = True, ck_Lax = True, ck_Secure = ah_secureCookies h, ck_MaxAge = 600\<rparr>])))"

definition ClearStateCookie :: cookie where
  "ClearStateCookie = \<lparr>ck_Name = StateCookie, ck_Value = '''', ck_Path = ''/auth'', ck_HttpOnly = False,
     ck_Lax = False, ck_Secure = False, ck_MaxAge = -1\<rparr>"

definition Callback :: "'k tokens \<Rightarrow> 'k AuthHandler \<Rightarrow> http_request \<Rightarrow> reply" where
  "Callback J h r =
     (if \<not> ah_oidcEnabled h then refuse 404 ''OIDC not enabled''
      else (case map_of (rq_cookies r) StateCookie of None \<Rightarrow> refuse 400 ''missing state cookie''
        | Some tok \<Rightarrow> (case ParseStateToken J (ah_sessionSecret h) (rq_now r) tok of
            None \<Rightarrow> refuse 400 ''invalid or expired state''
          | Some (savedState, savedNonce) \<Rightarrow>
              (if param (rq_query r) ''state'' \<noteq> savedState then refuse 400 ''state mismatch''
               else (case Exchange (ah_provider h) (param (rq_query r) ''code'') savedNonce of
                   None \<Rightarrow> Answer (writeError 400 ''authentication failed'') [ClearStateCookie]
                 | Some a \<Rightarrow> Redirect (ah_frontendURL h)
                     [ClearStateCookie,
                      SetSessionCookie (NewSessionToken J (ah_sessionSecret h) (rq_now r) a) (ah_secureCookies h)])))))"

definition Logout :: reply where
  "Logout = Answer (writeJSON 200 (JObj [(''status'', JStr ''logged out'')])) [ClearSessionCookie]"

definition Me :: "'k AuthHandler \<Rightarrow> Actor option \<Rightarrow> response" where
  "Me h ctx = (case ctx of
       None \<Rightarrow> writeError 401 ''unauthenticated''
     | Some a \<Rightarrow> writeJSON 200 (JObj [(''sub'', JStr (ac_Sub a)), (''name'', JStr (ac_Name a)), (''email'', JStr (ac_Email a)),
         (''actor_type'', JStr (ac_ActorType a)), (''oidc_enabled'', JBool (ah_oidcEnabled h))]))"

end
