(* ===== verification/Question_Lists.thy ===== *)
theory Question_Lists
  imports Auth
begin

text \<open>
  The question list handlers, \<open>internal/handler/question_list.go\<close>, over any catalog store. A handler
  takes the context of its request (the actor that the middleware found, the clock, the UUIDs that
  the request draws, in order), the parameters of its route, its decoded body (\<open>None\<close> if decoding
  fails) and the store, and returns the store and the response. The logger is left out.
\<close>

record ctx =
  cx_Actor :: "Actor option"
  cx_now :: time
  cx_uuid :: "nat \<Rightarrow> string"

record 'd QuestionListHandler =
  qh_store :: "'d QuestionListStore"
  qh_themes :: "'d ThemeStore"

section \<open>Lists\<close>

text \<open>The body: name, description, visibility.\<close>

definition QL_Create :: "'d QuestionListHandler \<Rightarrow> ctx \<Rightarrow> (string \<times> string \<times> string) option \<Rightarrow> 'd \<Rightarrow> 'd \<times> response" where
  "QL_Create h cx body st = (let a = extractActor (cx_Actor cx) in case body of
       None \<Rightarrow> (st, writeError 400 ''name is required'')
     | Some (name, description, visibility) \<Rightarrow>
         if name = '''' then (st, writeError 400 ''name is required'')
         else if visibility \<noteq> ''public'' \<and> visibility \<noteq> ''private''
         then (st, writeError 400 (''visibility must be 'public' or 'private'' @ [CHR 0x27]))
         else if visibility = ''public'' \<and> da_Type a \<noteq> ActorTypeAdmin
         then (st, writeError 403 ''only admins can create public question lists'')
         else if visibility = ''private'' \<and> da_Type a \<noteq> ActorTypeUser
         then (st, writeError 403 ''only users can create private question lists'')
         else let
             ownerID = (if visibility = ''private'' then da_ID a else '''');
             r = \<lparr>ql_ID = cx_uuid cx 0, ql_Name = name, ql_Description = description, ql_Visibility = visibility,
                  ql_OwnerType = da_Type a, ql_OwnerID = ownerID, ql_CreatedAt = cx_now cx, ql_UpdatedAt = cx_now cx\<rparr>
           in answered (and_then
             (fail_with (\<lambda>e. writeError 500 ''failed to create question list'') (qs_CreateQuestionList (qh_store h) r st))
             (\<lambda>st u. (st, Inr (writeJSON 201 (QuestionListRecord_json r))))))"

definition lists_json :: "QuestionListRecord list \<Rightarrow> json" where
  "lists_json ls = JArr (map QuestionListRecord_json ls)"

definition QL_ListPublic :: "'d QuestionListHandler \<Rightarrow> 'd \<Rightarrow> 'd \<times> response" where
  "QL_ListPublic h st = answered (and_then
     (fail_with (\<lambda>e. writeError 500 ''failed to list question lists'') (qs_ListPublicQuestionLists (qh_store h) st))
     (\<lambda>st ls. (st, Inr (writeJSON 200 (lists_json ls)))))"

definition QL_ListPrivate :: "'d QuestionListHandler \<Rightarrow> ctx \<Rightarrow> 'd \<Rightarrow> 'd \<times> response" where
  "QL_ListPrivate h cx st = (let a = extractActor (cx_Actor cx) in
     if da_Type a \<noteq> ActorTypeUser then (st, writeError 403 ''only users can access private question lists'')
     else answered (and_then
       (fail_with (\<lambda>e. writeError 500 ''failed to list question lists'') (qs_ListPrivateQuestionLists (qh_store h) (da_ID a) st))
       (\<lambda>st ls. (st, Inr (writeJSON 200 (lists_json ls))))))"

definition loadReadableList :: "'d QuestionListHandler \<Rightarrow> ctx \<Rightarrow> string \<Rightarrow> 'd \<Rightarrow> 'd \<times> (response + QuestionListRecord)" where
  "loadReadableList h cx lid st = and_then
     (fail_with (\<lambda>e. writeError 404 ''question list not found'') (qs_GetQuestionList (qh_store h) lid st))
     (\<lambda>st l. require (canReadList (extractActor (cx_Actor cx)) l) (writeError 403 ''access denied'') st (\<lambda>st. (st, Inr l)))"

definition QL_Get :: "'d QuestionListHandler \<Rightarrow> ctx \<Rightarrow> string \<Rightarrow> 'd \<Rightarrow> 'd \<times> response" where
  "QL_Get h cx lid st = answered (and_then (loadReadableList h cx lid st)
     (\<lambda>st l. (st, Inr (writeJSON 200 (QuestionListRecord_json l)))))"

section \<open>Reading questions\<close>

definition matchesTheme :: "QuestionRecord \<Rightarrow> string \<Rightarrow> bool" where
  "matchesTheme q want = (if want = ''none'' then qr_ThemeID q = '''' else qr_ThemeID q = want)"

fun shown_questions :: "string option \<Rightarrow> bool \<Rightarrow> QuestionRecord list \<Rightarrow> QuestionRecord list" where
  "shown_questions want editor [] = []"
| "shown_questions want editor (q # qs) =
     (if (case want of None \<Rightarrow> False | Some f \<Rightarrow> \<not> matchesTheme q f) then shown_questions want editor qs
      else (if editor then q else q\<lparr>qr_CorrectOptionID := ''''\<rparr>) # shown_questions want editor qs)"

definition questions_json :: "QuestionRecord list \<Rightarrow> json" where
  "questions_json qs = JArr (map QuestionRecord_json qs)"

definition QL_ListQuestions :: "'d QuestionListHandler \<Rightarrow> ctx \<Rightarrow> string \<Rightarrow> string option \<Rightarrow> 'd \<Rightarrow> 'd \<times> response" where
  "QL_ListQuestions h cx lid themeFilter st = answered (and_then (loadReadableList h cx lid st) (\<lambda>st l. and_then
     (fail_with (\<lambda>e. writeError 500 ''failed to list questions'') (qs_ListQuestions (qh_store h) lid st))
     (\<lambda>st qs. (st, Inr (writeJSON 200
        (questions_json (shown_questions themeFilter (canEditList (extractActor (cx_Actor cx)) l) qs)))))))"

section \<open>Checking a question\<close>

record questionRequest =
  qq_Text :: string
  qq_Options :: "(string \<times> string) list"
  qq_CorrectOptionID :: string
  qq_ThemeID :: string

text \<open>The loop over the options: the IDs seen, the number of UUIDs drawn, the options so far.\<close>

fun decode_options :: "(nat \<Rightarrow> string) \<Rightarrow> (string \<times> string) list \<Rightarrow> string list \<Rightarrow> nat \<Rightarrow> (OptionRecord list \<times> string list \<times> nat) option" where
  "decode_options uuid [] seen n = Some ([], seen, n)"
| "decode_options uuid ((oid, txt) # os) seen n =
     (let (i, n') = (if oid = '''' then (uuid n, n + 1) else (oid, n)) in
      if i \<in> set seen then None
      else map_option (\<lambda>(opts, seen', n''). (\<lparr>or_ID = i, or_Text = txt\<rparr> # opts, seen', n'')) (decode_options uuid os (i # seen) n'))"

definition decodeQuestion :: "(nat \<Rightarrow> string) \<Rightarrow> questionRequest option \<Rightarrow> response + questionRequest \<times> OptionRecord list \<times> nat" where
  "decodeQuestion uuid body = (case body of
       None \<Rightarrow> Inl (writeError 400 ''invalid request'')
     | Some req \<Rightarrow>
         if qq_Text req = '''' \<or> length (qq_Options req) < 2 \<or> qq_CorrectOptionID req = ''''
         then Inl (writeError 400 ''text, at least 2 options and correct_option_id are required'')
         else (case decode_options uuid (qq_Options req) [] 0 of
             None \<Rightarrow> Inl (writeError 400 ''option ids must be unique'')
           | Some (opts, seen, n) \<Rightarrow>
               if qq_CorrectOptionID req \<notin> set seen
               then Inl (writeError 400 ''correct_option_id must match one of the options'')
               else Inr (req, opts, n)))"

definition checkTheme :: "'d QuestionListHandler \<Rightarrow> string \<Rightarrow> string \<Rightarrow> 'd \<Rightarrow> 'd \<times> (response + unit)" where
  "checkTheme h themeID listID st =
     (if themeID = '''' then (st, Inr ())
      else and_then
        (fail_with (\<lambda>e. if e = ErrNotFound then writeErrorCode 400 ''theme_not_found'' ''theme not found''
                        else writeError 500 ''failed to check theme'') (ts_GetTheme (qh_themes h) themeID st))
        (\<lambda>st t. if th_QuestionListID t \<noteq> '''' \<and> th_QuestionListID t \<noteq> listID
                then (st, Inl (writeErrorCode 400 ''theme_from_another_list'' ''theme belongs to another question list''))
                else (st, Inr ())))"

definition loadEditableList :: "'d QuestionListHandler \<Rightarrow> ctx \<Rightarrow> string \<Rightarrow> 'd \<Rightarrow> 'd \<times> (response + QuestionListRecord)" where
  "loadEditableList h cx lid st = and_then
     (fail_with (\<lambda>e. writeError 404 ''question list not found'') (qs_GetQuestionList (qh_store h) lid st))
     (\<lambda>st l. if \<not> canEditList (extractActor (cx_Actor cx)) l
             then (st, Inl (writeError 403 (if ql_Visibility l = ListVisibilityPublic
                              then ''only admins can edit public lists'' else ''access denied'')))
             else (st, Inr l))"

section \<open>Writing questions\<close>

definition QL_AddQuestion :: "'d QuestionListHandler \<Rightarrow> ctx \<Rightarrow> string \<Rightarrow> questionRequest option \<Rightarrow> 'd \<Rightarrow> 'd \<times> response" where
  "QL_AddQuestion h cx lid body st = answered (and_then (loadEditableList h cx lid st) (\<lambda>st l.
     case decodeQuestion (cx_uuid cx) body of
       Inl r \<Rightarrow> (st, Inl r)
     | Inr (req, opts, n) \<Rightarrow> and_then (checkTheme h (qq_ThemeID req) (ql_ID l) st) (\<lambda>st u. and_then
         (fail_with (\<lambda>e. writeError 500 ''failed to add question'') (qs_ListQuestions (qh_store h) (ql_ID l) st))
         (\<lambda>st existing.
           let q = \<lparr>qr_ID = cx_uuid cx n, qr_QuestionListID = ql_ID l, qr_Text = qq_Text req, qr_Options = opts,
                    qr_CorrectOptionID = qq_CorrectOptionID req, qr_OrderIndex = int (length existing),
                    qr_ThemeID = qq_ThemeID req, qr_Theme = None\<rparr>
           in and_then
             (fail_with (\<lambda>e. writeError 500 ''failed to create question'') (qs_CreateQuestion (qh_store h) q st))
             (\<lambda>st u. (st, Inr (writeJSON 201 (JObj [(''question_id'', JStr (qr_ID q))]))))))))"

text \<open>Load a question of the list: UpdateQuestion and DeleteQuestion start alike.\<close>

definition loadQuestion :: "'d QuestionListHandler \<Rightarrow> string \<Rightarrow> string \<Rightarrow> 'd \<Rightarrow> 'd \<times> (response + QuestionRecord)" where
  "loadQuestion h listID qid st = and_then
     (fail_with (\<lambda>e. if e = ErrNotFound then writeError 404 ''question not found'' else writeError 500 ''failed to load question'')
       (qs_GetQuestion (qh_store h) qid st))
     (\<lambda>st q. if qr_QuestionListID q \<noteq> listID then (st, Inl (writeError 404 ''question not found'')) else (st, Inr q))"

definition QL_UpdateQuestion :: "'d QuestionListHandler \<Rightarrow> ctx \<Rightarrow> string \<Rightarrow> string \<Rightarrow> questionRequest option \<Rightarrow> 'd \<Rightarrow> 'd \<times> response" where
  "QL_UpdateQuestion h cx lid qid body st = answered (and_then (loadEditableList h cx lid st) (\<lambda>st l.
     and_then (loadQuestion h (ql_ID l) qid st) (\<lambda>st existing.
     case decodeQuestion (cx_uuid cx) body of
       Inl r \<Rightarrow> (st, Inl r)
     | Inr (req, opts, n) \<Rightarrow> and_then (checkTheme h (qq_ThemeID req) (ql_ID l) st) (\<lambda>st u.
         let q = existing\<lparr>qr_Text := qq_Text req, qr_Options := opts, qr_CorrectOptionID := qq_CorrectOptionID req,
                          qr_ThemeID := qq_ThemeID req\<rparr>
         in and_then
           (fail_with (\<lambda>e. writeError 500 ''failed to update question'') (qs_UpdateQuestion (qh_store h) q st)) (\<lambda>st u. and_then
           (fail_with (\<lambda>e. writeError 500 ''failed to load question'') (qs_GetQuestion (qh_store h) (qr_ID q) st))
           (\<lambda>st updated. (st, Inr (writeJSON 200 (QuestionRecord_json updated)))))))))"

text \<open>The body: name, description.\<close>

definition QL_UpdateList :: "'d QuestionListHandler \<Rightarrow> ctx \<Rightarrow> string \<Rightarrow> (string \<times> string) option \<Rightarrow> 'd \<Rightarrow> 'd \<times> response" where
  "QL_UpdateList h cx lid body st = answered (and_then (loadEditableList h cx lid st) (\<lambda>st l. case body of
       None \<Rightarrow> (st, Inl (writeError 400 ''name is required''))
     | Some (name, description) \<Rightarrow>
         if TrimSpace name = '''' then (st, Inl (writeError 400 ''name is required''))
         else let l' = l\<lparr>ql_Name := TrimSpace name, ql_Description := description, ql_UpdatedAt := cx_now cx\<rparr>
           in and_then
             (fail_with (\<lambda>e. writeError 500 ''failed to update question list'') (qs_UpdateQuestionList (qh_store h) l' st))
             (\<lambda>st u. (st, Inr (writeJSON 200 (QuestionListRecord_json l'))))))"

definition QL_DeleteList :: "'d QuestionListHandler \<Rightarrow> ctx \<Rightarrow> string \<Rightarrow> 'd \<Rightarrow> 'd \<times> response" where
  "QL_DeleteList h cx lid st = answered (and_then (loadEditableList h cx lid st) (\<lambda>st l. and_then
     (fail_with (\<lambda>e. writeError 500 ''failed to delete question list'') (qs_DeleteQuestionList (qh_store h) (ql_ID l) st))
     (\<lambda>st u. (st, Inr noContent))))"

definition QL_DeleteQuestion :: "'d QuestionListHandler \<Rightarrow> ctx \<Rightarrow> string \<Rightarrow> string \<Rightarrow> 'd \<Rightarrow> 'd \<times> response" where
  "QL_DeleteQuestion h cx lid qid st = answered (and_then (loadEditableList h cx lid st) (\<lambda>st l.
     and_then (loadQuestion h (ql_ID l) qid st) (\<lambda>st q. and_then
     (fail_with (\<lambda>e. writeError 500 ''failed to delete question'') (qs_DeleteQuestion (qh_store h) (qr_ID q) st))
     (\<lambda>st u. (st, Inr noContent)))))"

section \<open>Reordering\<close>

text \<open>The second loop: \<open>remaining\<close> is the set of question IDs not named yet.\<close>

fun names_remaining :: "string list \<Rightarrow> string list \<Rightarrow> bool" where
  "names_remaining [] remaining = True"
| "names_remaining (i # ids) remaining = (if i \<notin> set remaining then False else names_remaining ids (removeAll i remaining))"

definition isPermutation :: "string list \<Rightarrow> QuestionRecord list \<Rightarrow> bool" where
  "isPermutation ids qs = (if length ids \<noteq> length qs then False else names_remaining ids (map qr_ID qs))"

definition QL_ReorderQuestions :: "'d QuestionListHandler \<Rightarrow> ctx \<Rightarrow> string \<Rightarrow> string list option \<Rightarrow> 'd \<Rightarrow> 'd \<times> response" where
  "QL_ReorderQuestions h cx lid body st = answered (and_then (loadEditableList h cx lid st) (\<lambda>st l. case body of
       None \<Rightarrow> (st, Inl (writeError 400 ''invalid request''))
     | Some ids \<Rightarrow> and_then
         (fail_with (\<lambda>e. writeError 500 ''failed to reorder questions'') (qs_ListQuestions (qh_store h) (ql_ID l) st)) (\<lambda>st existing.
         if \<not> isPermutation ids existing
         then (st, Inl (writeErrorCode 400 ''invalid_order'' ''question_ids must list every question of the list exactly once''))
         else and_then
           (fail_with (\<lambda>e. writeError 500 ''failed to reorder questions'') (qs_ReorderQuestions (qh_store h) (ql_ID l) ids st)) (\<lambda>st u. and_then
           (fail_with (\<lambda>e. writeError 500 ''failed to list questions'') (qs_ListQuestions (qh_store h) (ql_ID l) st))
           (\<lambda>st qs. (st, Inr (writeJSON 200 (questions_json qs))))))))"

end
