(* ===== verification/Themes.thy ===== *)
theory Themes
  imports Question_Lists
begin

text \<open>
  The theme handlers, \<open>internal/handler/theme.go\<close>: global themes, which admins manage, and the custom
  themes of a question list, which its editors manage. An empty list ID is the global scope.
\<close>

definition maxThemeNameLen :: nat where "maxThemeNameLen = 100"

record 'd ThemeHandler =
  hh_themes :: "'d ThemeStore"
  hh_lists :: "'d QuestionListStore"

record themeRequest =
  tq_Name :: string
  tq_Description :: string

definition decodeThemeRequest :: "themeRequest option \<Rightarrow> response + themeRequest" where
  "decodeThemeRequest body = (case body of
       None \<Rightarrow> Inl (writeError 400 ''invalid request'')
     | Some req0 \<Rightarrow> let req = req0\<lparr>tq_Name := TrimSpace (tq_Name req0)\<rparr> in
         if tq_Name req = '''' \<or> maxThemeNameLen < RuneCount (tq_Name req)
         then Inl (writeError 400 ''name is required (at most 100 characters)'') else Inr req)"

definition writeStoreError :: "string \<Rightarrow> store_error \<Rightarrow> response" where
  "writeStoreError op e = (case e of
       ErrConflict \<Rightarrow> writeErrorCode 409 ''theme_name_taken'' ''a theme with this name already exists''
     | ErrNotFound \<Rightarrow> writeError 404 ''theme not found''
     | ErrDB \<Rightarrow> writeError 500 (''failed to '' @ op))"

definition themes_json :: "ThemeRecord list \<Rightarrow> json" where
  "themes_json ts = JArr (map ThemeRecord_json ts)"

definition writeThemes :: "ThemeRecord list \<Rightarrow> response" where
  "writeThemes ts = writeJSON 200 (themes_json ts)"

definition requireAdmin :: "ctx \<Rightarrow> 'd \<Rightarrow> 'd \<times> (response + unit)" where
  "requireAdmin cx st = (if da_Type (extractActor (cx_Actor cx)) \<noteq> ActorTypeAdmin
     then (st, Inl (writeError 403 ''only admins can manage global themes'')) else (st, Inr ()))"

definition loadList :: "'d ThemeHandler \<Rightarrow> ctx \<Rightarrow> string \<Rightarrow> bool \<Rightarrow> 'd \<Rightarrow> 'd \<times> (response + QuestionListRecord)" where
  "loadList h cx lid edit st = and_then
     (fail_with (\<lambda>e. writeError 404 ''question list not found'') (qs_GetQuestionList (hh_lists h) lid st))
     (\<lambda>st l. let a = extractActor (cx_Actor cx) in
        if \<not> canReadList a l \<or> edit \<and> \<not> canEditList a l then (st, Inl (writeError 403 ''access denied'')) else (st, Inr l))"

section \<open>Operations shared by both scopes\<close>

definition loadTheme :: "'d ThemeHandler \<Rightarrow> string \<Rightarrow> string \<Rightarrow> 'd \<Rightarrow> 'd \<times> (response + ThemeRecord)" where
  "loadTheme h listID tid st = and_then
     (fail_with (\<lambda>e. if e = ErrNotFound then writeError 404 ''theme not found'' else writeError 500 ''failed to load theme'')
       (ts_GetTheme (hh_themes h) tid st))
     (\<lambda>st t. if th_QuestionListID t \<noteq> listID then (st, Inl (writeError 404 ''theme not found'')) else (st, Inr t))"

definition theme_create :: "'d ThemeHandler \<Rightarrow> ctx \<Rightarrow> themeRequest option \<Rightarrow> string \<Rightarrow> 'd \<Rightarrow> 'd \<times> (response + response)" where
  "theme_create h cx body listID st = (case decodeThemeRequest body of
       Inl r \<Rightarrow> (st, Inl r)
     | Inr req \<Rightarrow> let
         t0 = \<lparr>th_ID = cx_uuid cx 0, th_Scope = ThemeScopeGlobal, th_QuestionListID = listID, th_Name = tq_Name req,
               th_Description = tq_Description req, th_CreatedAt = cx_now cx, th_UpdatedAt = cx_now cx\<rparr>;
         t = (if listID \<noteq> '''' then t0\<lparr>th_Scope := ThemeScopeList\<rparr> else t0)
       in and_then (fail_with (writeStoreError ''create theme'') (ts_CreateTheme (hh_themes h) t st))
            (\<lambda>st u. (st, Inr (writeJSON 201 (ThemeRecord_json t)))))"

definition theme_update :: "'d ThemeHandler \<Rightarrow> ctx \<Rightarrow> string \<Rightarrow> themeRequest option \<Rightarrow> string \<Rightarrow> 'd \<Rightarrow> 'd \<times> (response + response)" where
  "theme_update h cx tid body listID st = and_then (loadTheme h listID tid st) (\<lambda>st t0. case decodeThemeRequest body of
       Inl r \<Rightarrow> (st, Inl r)
     | Inr req \<Rightarrow> let t = t0\<lparr>th_Name := tq_Name req, th_Description := tq_Description req, th_UpdatedAt := cx_now cx\<rparr>
       in and_then (fail_with (writeStoreError ''update theme'') (ts_UpdateTheme (hh_themes h) t st))
            (\<lambda>st u. (st, Inr (writeJSON 200 (ThemeRecord_json t)))))"

definition theme_delete :: "'d ThemeHandler \<Rightarrow> string \<Rightarrow> string \<Rightarrow> 'd \<Rightarrow> 'd \<times> (response + response)" where
  "theme_delete h tid listID st = and_then (loadTheme h listID tid st) (\<lambda>st t. and_then
     (fail_with (writeStoreError ''delete theme'') (ts_DeleteTheme (hh_themes h) (th_ID t) st))
     (\<lambda>st u. (st, Inr noContent)))"

section \<open>Global themes\<close>

definition TH_ListGlobal :: "'d ThemeHandler \<Rightarrow> 'd \<Rightarrow> 'd \<times> response" where
  "TH_ListGlobal h st = answered (and_then
     (fail_with (\<lambda>e. writeError 500 ''failed to list themes'') (ts_ListGlobalThemes (hh_themes h) st))
     (\<lambda>st ts. (st, Inr (writeThemes ts))))"

definition TH_GetGlobal :: "'d ThemeHandler \<Rightarrow> string \<Rightarrow> 'd \<Rightarrow> 'd \<times> response" where
  "TH_GetGlobal h tid st = answered (and_then (loadTheme h '''' tid st) (\<lambda>st t. (st, Inr (writeJSON 200 (ThemeRecord_json t)))))"

definition TH_CreateGlobal :: "'d ThemeHandler \<Rightarrow> ctx \<Rightarrow> themeRequest option \<Rightarrow> 'd \<Rightarrow> 'd \<times> response" where
  "TH_CreateGlobal h cx body st = answered (and_then (requireAdmin cx st) (\<lambda>st u. theme_create h cx body '''' st))"

definition TH_UpdateGlobal :: "'d ThemeHandler \<Rightarrow> ctx \<Rightarrow> string \<Rightarrow> themeRequest option \<Rightarrow> 'd \<Rightarrow> 'd \<times> response" where
  "TH_UpdateGlobal h cx tid body st = answered (and_then (requireAdmin cx st) (\<lambda>st u. theme_update h cx tid body '''' st))"

definition TH_DeleteGlobal :: "'d ThemeHandler \<Rightarrow> ctx \<Rightarrow> string \<Rightarrow> 'd \<Rightarrow> 'd \<times> response" where
  "TH_DeleteGlobal h cx tid st = answered (and_then (requireAdmin cx st) (\<lambda>st u. theme_delete h tid '''' st))"

section \<open>The custom themes of a list\<close>

definition TH_ListForList :: "'d ThemeHandler \<Rightarrow> ctx \<Rightarrow> string \<Rightarrow> 'd \<Rightarrow> 'd \<times> response" where
  "TH_ListForList h cx lid st = answered (and_then (loadList h cx lid False st) (\<lambda>st l. and_then
     (fail_with (\<lambda>e. writeError 500 ''failed to list themes'') (ts_ListQuestionListThemes (hh_themes h) (ql_ID l) st))
     (\<lambda>st ts. (st, Inr (writeThemes ts)))))"

definition TH_GetForList :: "'d ThemeHandler \<Rightarrow> ctx \<Rightarrow> string \<Rightarrow> string \<Rightarrow> 'd \<Rightarrow> 'd \<times> response" where
  "TH_GetForList h cx lid tid st = answered (and_then (loadList h cx lid False st) (\<lambda>st l.
     and_then (loadTheme h (ql_ID l) tid st) (\<lambda>st t. (st, Inr (writeJSON 200 (ThemeRecord_json t))))))"

definition TH_CreateForList :: "'d ThemeHandler \<Rightarrow> ctx \<Rightarrow> string \<Rightarrow> themeRequest option \<Rightarrow> 'd \<Rightarrow> 'd \<times> response" where
  "TH_CreateForList h cx lid body st =
     answered (and_then (loadList h cx lid True st) (\<lambda>st l. theme_create h cx body (ql_ID l) st))"

definition TH_UpdateForList :: "'d ThemeHandler \<Rightarrow> ctx \<Rightarrow> string \<Rightarrow> string \<Rightarrow> themeRequest option \<Rightarrow> 'd \<Rightarrow> 'd \<times> response" where
  "TH_UpdateForList h cx lid tid body st =
     answered (and_then (loadList h cx lid True st) (\<lambda>st l. theme_update h cx tid body (ql_ID l) st))"

definition TH_DeleteForList :: "'d ThemeHandler \<Rightarrow> ctx \<Rightarrow> string \<Rightarrow> string \<Rightarrow> 'd \<Rightarrow> 'd \<times> response" where
  "TH_DeleteForList h cx lid tid st =
     answered (and_then (loadList h cx lid True st) (\<lambda>st l. theme_delete h tid (ql_ID l) st))"

end
