(* ===== verification/Catalog_Routes.thy ===== *)
theory Catalog_Routes
  imports Themes
begin

text \<open>
  The routes of the catalog (\<open>internal/app/app.go\<close>) over one store, the permitted changes of the
  catalog (\<open>catalog_step\<close>), and its invariant. In every store with the contract of \<open>Catalog_Store\<close>
  a request makes one permitted change or none, whatever fails.
\<close>

section \<open>Routes\<close>

datatype catalog_request =
    CreateList "(string \<times> string \<times> string) option" | ListPublic | ListPrivate | GetList string
  | ListQuestions string "string option" | AddQuestion string "questionRequest option"
  | UpdateList string "(string \<times> string) option" | DeleteList string
  | ReorderQuestions string "string list option"
  | UpdateQuestion string string "questionRequest option" | DeleteQuestion string string
  | ListForList string | CreateForList string "themeRequest option" | GetForList string string
  | UpdateForList string string "themeRequest option" | DeleteForList string string
  | ListGlobal | CreateGlobal "themeRequest option" | GetGlobal string
  | UpdateGlobal string "themeRequest option" | DeleteGlobal string

text \<open>The list that a route names.\<close>

fun named_list :: "catalog_request \<Rightarrow> string option" where
  "named_list (GetList l) = Some l"
| "named_list (ListQuestions l f) = Some l"
| "named_list (AddQuestion l b) = Some l"
| "named_list (UpdateList l b) = Some l"
| "named_list (DeleteList l) = Some l"
| "named_list (ReorderQuestions l b) = Some l"
| "named_list (UpdateQuestion l q b) = Some l"
| "named_list (DeleteQuestion l q) = Some l"
| "named_list (ListForList l) = Some l"
| "named_list (CreateForList l b) = Some l"
| "named_list (GetForList l t) = Some l"
| "named_list (UpdateForList l t b) = Some l"
| "named_list (DeleteForList l t) = Some l"
| "named_list _ = None"

fun serve_catalog :: "'d QuestionListHandler \<Rightarrow> 'd ThemeHandler \<Rightarrow> ctx \<Rightarrow> catalog_request \<Rightarrow> 'd \<Rightarrow> 'd \<times> response" where
  "serve_catalog qlH themeH cx (CreateList b) = QL_Create qlH cx b"
| "serve_catalog qlH themeH cx ListPublic = QL_ListPublic qlH"
| "serve_catalog qlH themeH cx ListPrivate = QL_ListPrivate qlH cx"
| "serve_catalog qlH themeH cx (GetList l) = QL_Get qlH cx l"
| "serve_catalog qlH themeH cx (ListQuestions l f) = QL_ListQuestions qlH cx l f"
| "serve_catalog qlH themeH cx (AddQuestion l b) = QL_AddQuestion qlH cx l b"
| "serve_catalog qlH themeH cx (UpdateList l b) = QL_UpdateList qlH cx l b"
| "serve_catalog qlH themeH cx (DeleteList l) = QL_DeleteList qlH cx l"
| "serve_catalog qlH themeH cx (ReorderQuestions l b) = QL_ReorderQuestions qlH cx l b"
| "serve_catalog qlH themeH cx (UpdateQuestion l q b) = QL_UpdateQuestion qlH cx l q b"
| "serve_catalog qlH themeH cx (DeleteQuestion l q) = QL_DeleteQuestion qlH cx l q"
| "serve_catalog qlH themeH cx (ListForList l) = TH_ListForList themeH cx l"
| "serve_catalog qlH themeH cx (CreateForList l b) = TH_CreateForList themeH cx l b"
| "serve_catalog qlH themeH cx (GetForList l t) = TH_GetForList themeH cx l t"
| "serve_catalog qlH themeH cx (UpdateForList l t b) = TH_UpdateForList themeH cx l t b"
| "serve_catalog qlH themeH cx (DeleteForList l t) = TH_DeleteForList themeH cx l t"
| "serve_catalog qlH themeH cx ListGlobal = TH_ListGlobal themeH"
| "serve_catalog qlH themeH cx (CreateGlobal b) = TH_CreateGlobal themeH cx b"
| "serve_catalog qlH themeH cx (GetGlobal t) = TH_GetGlobal themeH t"
| "serve_catalog qlH themeH cx (UpdateGlobal t b) = TH_UpdateGlobal themeH cx t b"
| "serve_catalog qlH themeH cx (DeleteGlobal t) = TH_DeleteGlobal themeH cx t"

definition qlHandler :: "'d QuestionListStore \<Rightarrow> 'd ThemeStore \<Rightarrow> 'd QuestionListHandler" where
  "qlHandler Q T = \<lparr>qh_store = Q, qh_themes = T\<rparr>"

definition themeHandler :: "'d QuestionListStore \<Rightarrow> 'd ThemeStore \<Rightarrow> 'd ThemeHandler" where
  "themeHandler Q T = \<lparr>hh_themes = T, hh_lists = Q\<rparr>"

fun serve_all :: "'d QuestionListStore \<Rightarrow> 'd ThemeStore \<Rightarrow> (ctx \<times> catalog_request) list \<Rightarrow> 'd \<Rightarrow> 'd" where
  "serve_all Q T [] st = st"
| "serve_all Q T ((cx, req) # reqs) st = serve_all Q T reqs (fst (serve_catalog (qlHandler Q T) (themeHandler Q T) cx req st))"

section \<open>Permitted changes\<close>

text \<open>Who may edit a list: an admin a public one, its owner any other.\<close>

definition editable :: "devActor \<Rightarrow> catalog \<Rightarrow> string \<Rightarrow> bool" where
  "editable a c lid \<longleftrightarrow> (\<exists>l. fmlookup (c_lists c) lid = Some l \<and>
     (ql_Visibility l = ListVisibilityPublic \<and> da_Type a = ActorTypeAdmin \<or>
      ql_Visibility l \<noteq> ListVisibilityPublic \<and> ql_OwnerID l = da_ID a))"

lemma editable_iff: "editable a c lid \<longleftrightarrow> (case fmlookup (c_lists c) lid of None \<Rightarrow> False | Some l \<Rightarrow> canEditList a l)"
  by (auto simp: editable_def canEditList_def split: option.splits)

definition list_ok :: "QuestionListRecord \<Rightarrow> bool" where
  "list_ok l \<longleftrightarrow> ql_Name l \<noteq> '''' \<and>
     (ql_Visibility l = ListVisibilityPublic \<and> ql_OwnerType l = ActorTypeAdmin \<and> ql_OwnerID l = '''' \<or>
      ql_Visibility l = ListVisibilityPrivate \<and> ql_OwnerType l = ActorTypeUser)"

definition options_ok :: "OptionRecord list \<Rightarrow> string \<Rightarrow> bool" where
  "options_ok opts correct \<longleftrightarrow> 2 \<le> length opts \<and> distinct (map or_ID opts) \<and> '''' \<noteq> correct \<and> correct \<in> or_ID ` set opts"

definition question_ok :: "QuestionRecord \<Rightarrow> bool" where
  "question_ok q \<longleftrightarrow> qr_Text q \<noteq> '''' \<and> options_ok (qr_Options q) (qr_CorrectOptionID q)"

text \<open>A theme that the questions of a list may have: none, a global one, or one of the list.\<close>

definition theme_usable :: "catalog \<Rightarrow> string \<Rightarrow> string \<Rightarrow> bool" where
  "theme_usable c lid tid \<longleftrightarrow> tid = '''' \<or>
     (\<exists>t. fmlookup (c_themes c) tid = Some t \<and> th_QuestionListID t \<in> {'''', lid})"

definition theme_ok :: "ThemeRecord \<Rightarrow> bool" where
  "theme_ok t \<longleftrightarrow> th_Name t \<noteq> '''' \<and> RuneCount (th_Name t) \<le> maxThemeNameLen \<and> TrimSpace (th_Name t) = th_Name t"

definition may_edit_scope :: "devActor \<Rightarrow> catalog \<Rightarrow> string \<Rightarrow> bool" where
  "may_edit_scope a c lid \<longleftrightarrow> (if lid = '''' then da_Type a = ActorTypeAdmin else editable a c lid)"

inductive catalog_step :: "(string \<Rightarrow> string) \<Rightarrow> devActor \<Rightarrow> catalog \<Rightarrow> catalog \<Rightarrow> bool" for lower a where
  no_change: "catalog_step lower a c c"
| new_list: "ql_ID l |\<notin>| fmdom (c_lists c) \<Longrightarrow> list_ok l \<Longrightarrow> ql_OwnerType l = da_Type a \<Longrightarrow>
    ql_OwnerID l \<in> {'''', da_ID a} \<Longrightarrow> catalog_step lower a c (set_list l c)"
| edit_list: "fmlookup (c_lists c) lid = Some l \<Longrightarrow> canEditList a l \<Longrightarrow> ql_ID l = lid \<Longrightarrow> name \<noteq> '''' \<Longrightarrow>
    catalog_step lower a c (set_list (l\<lparr>ql_Name := name, ql_Description := description, ql_UpdatedAt := t\<rparr>) c)"
| remove_list: "editable a c lid \<Longrightarrow> lid \<noteq> '''' \<Longrightarrow> catalog_step lower a c (drop_list lid c)"
| new_question: "qr_ID q |\<notin>| fmdom (c_questions c) \<Longrightarrow> editable a c (qr_QuestionListID q) \<Longrightarrow> question_ok q \<Longrightarrow>
    in_order c (qr_QuestionListID q) ids \<Longrightarrow> qr_OrderIndex q = int (length ids) \<Longrightarrow>
    theme_usable c (qr_QuestionListID q) (qr_ThemeID q) \<Longrightarrow> catalog_step lower a c (set_question q c)"
| edit_question: "fmlookup (c_questions c) qid = Some q0 \<Longrightarrow> editable a c (qr_QuestionListID q0) \<Longrightarrow>
    qr_ID q = qid \<Longrightarrow> qr_QuestionListID q = qr_QuestionListID q0 \<Longrightarrow> qr_OrderIndex q = qr_OrderIndex q0 \<Longrightarrow>
    question_ok q \<Longrightarrow> theme_usable c (qr_QuestionListID q) (qr_ThemeID q) \<Longrightarrow> catalog_step lower a c (set_question q c)"
| remove_question: "fmlookup (c_questions c) qid = Some q \<Longrightarrow> editable a c (qr_QuestionListID q) \<Longrightarrow>
    in_order (drop_question qid c) (qr_QuestionListID q) ids \<Longrightarrow>
    catalog_step lower a c (positioned (qr_QuestionListID q) ids (drop_question qid c))"
| reorder: "editable a c lid \<Longrightarrow> in_order c lid old \<Longrightarrow> mset ids = mset old \<Longrightarrow> catalog_step lower a c (positioned lid ids c)"
| new_theme: "th_ID t |\<notin>| fmdom (c_themes c) \<Longrightarrow> may_edit_scope a c (th_QuestionListID t) \<Longrightarrow> theme_ok t \<Longrightarrow>
    th_Scope t = scope_of (th_QuestionListID t) \<Longrightarrow>
    \<not> name_taken lower c (th_QuestionListID t) (th_Name t) (th_ID t) \<Longrightarrow> catalog_step lower a c (set_theme t c)"
| edit_theme: "fmlookup (c_themes c) tid = Some t0 \<Longrightarrow> may_edit_scope a c (th_QuestionListID t0) \<Longrightarrow> theme_ok t \<Longrightarrow>
    th_ID t = tid \<Longrightarrow> th_QuestionListID t = th_QuestionListID t0 \<Longrightarrow> th_Scope t = th_Scope t0 \<Longrightarrow>
    \<not> name_taken lower c (th_QuestionListID t) (th_Name t) (th_ID t) \<Longrightarrow> catalog_step lower a c (set_theme t c)"
| remove_theme: "fmlookup (c_themes c) tid = Some t \<Longrightarrow> may_edit_scope a c (th_QuestionListID t) \<Longrightarrow>
    catalog_step lower a c (no_theme (\<lambda>i. i = tid) c)"

end
