(* ===== verification/Catalog_Steps.thy ===== *)
theory Catalog_Steps
  imports Catalog_Routes
begin

text \<open>
  Every request to the catalog makes a permitted change or none, whatever the store's calls do, and
  shows the correct option of questions only to actors who may edit their list.
\<close>

section \<open>Responses\<close>

definition discloses :: "response \<Rightarrow> bool" where
  "discloses r \<longleftrightarrow> (case rp_body r of None \<Rightarrow> False | Some j \<Rightarrow> ''correct_option_id'' \<in> json_keys j)"

lemma discloses_simps [simp]:
  "\<not> discloses (writeError status msg)" "\<not> discloses (writeErrorCode status code msg)" "\<not> discloses noContent"
  "discloses (writeJSON status j) \<longleftrightarrow> ''correct_option_id'' \<in> json_keys j"
  by (simp_all add: discloses_def)

lemma json_keys_records [simp]:
  "''correct_option_id'' \<notin> json_keys (QuestionListRecord_json l)" "''correct_option_id'' \<notin> json_keys (ThemeRecord_json t)"
  "''correct_option_id'' \<notin> json_keys (lists_json ls)" "''correct_option_id'' \<notin> json_keys (themes_json ts)"
  by (auto simp: QuestionListRecord_json_def ThemeRecord_json_def lists_json_def themes_json_def)

lemma json_keys_question [simp]:
  "''correct_option_id'' \<in> json_keys (QuestionRecord_json q) \<longleftrightarrow> qr_CorrectOptionID q \<noteq> ''''"
  by (auto simp: QuestionRecord_json_def OptionRecord_json_def ThemeRef_json_def split: option.splits)

lemma shown_questions_hidden: "q \<in> set (shown_questions want False qs) \<Longrightarrow> qr_CorrectOptionID q = ''''"
  by (induction qs) (auto split: if_splits)

lemma questions_json_hidden: "''correct_option_id'' \<notin> json_keys (questions_json (shown_questions want False qs))"
  by (auto simp: questions_json_def dest: shown_questions_hidden)

section \<open>What a handler leaves\<close>

text \<open>
  \<open>good\<close>: after a handler, from its outcome so far, the catalog has changed from \<open>c\<close> as the actor may
  change it, and the response shows correct options only if the actor may edit the named list.
\<close>

definition good :: "('d \<Rightarrow> bool) \<Rightarrow> ('d \<Rightarrow> catalog) \<Rightarrow> (string \<Rightarrow> string) \<Rightarrow> devActor \<Rightarrow> catalog \<Rightarrow> string option \<Rightarrow> 'd \<times> (response + response) \<Rightarrow> bool" where
  "good ok cat lower a c lid out \<longleftrightarrow> ok (fst out) \<and> catalog_step lower a c (cat (fst out)) \<and>
     (discloses (snd (answered out)) \<longrightarrow> (case lid of None \<Rightarrow> False | Some i \<Rightarrow> editable a c i))"

context catalog_store begin

abbreviation fine where "fine \<equiv> good ok cat lower"

lemma good_same [simp]:
  "ok st \<Longrightarrow> cat st = c \<Longrightarrow> \<not> discloses r \<Longrightarrow> fine a c lid (st, Inl r)"
  "ok st \<Longrightarrow> cat st = c \<Longrightarrow> \<not> discloses r \<Longrightarrow> fine a c lid (st, Inr r)"
  by (auto simp: good_def catalog_step.no_change)

text \<open>A read, then the rest of the handler.\<close>

lemma seq_read:
  assumes "obeys ok cat (reads P) st m" and st: "ok st" "cat st = c"
    and "\<And>e. \<not> discloses (f e)"
    and "\<And>st1 x. ok st1 \<Longrightarrow> cat st1 = c \<Longrightarrow> P c (Inr x) \<Longrightarrow> fine a c lid (k st1 x)"
  shows "fine a c lid (and_then (fail_with f m) k)"
proof -
  obtain st1 r where m: "m = (st1, r)" by fastforce
  have s1: "ok st1" "cat st1 = c" using assms(1) st by (auto simp: m obeys_def reads_def)
  show ?thesis
  proof (cases r)
    case (Inl e)
    then show ?thesis using s1 assms(4) by (simp add: m)
  next
    case (Inr x)
    then have "P c r" using assms(1) st by (auto simp: m obeys_def reads_def)
    then show ?thesis using s1 assms(5) by (simp add: m Inr)
  qed
qed

text \<open>A write, then an answer or a reread.\<close>

lemma seq_write:
  assumes "obeys ok cat sp st m" and st: "ok st" "cat st = c"
    and step: "\<And>c' r. sp c c' r \<Longrightarrow> catalog_step lower a c c'"
    and "\<And>e. \<not> discloses (f e)"
    and "\<And>st1 x. ok st1 \<Longrightarrow> catalog_step lower a c (cat st1) \<Longrightarrow> fine a c lid (k st1 x)"
  shows "fine a c lid (and_then (fail_with f m) k)"
proof -
  obtain st1 r where m: "m = (st1, r)" by fastforce
  have s1: "ok st1" "catalog_step lower a c (cat st1)"
    using assms(1) st step by (auto simp: m obeys_def intro: catalog_step.no_change)
  show ?thesis
    using s1 assms(5,6) by (cases r) (auto simp: m good_def)
qed

lemma good_answer:
  "ok st \<Longrightarrow> catalog_step lower a c (cat st) \<Longrightarrow> \<not> discloses r \<Longrightarrow> fine a c lid (st, Inr r)"
  by (simp add: good_def)

lemma good_editor:
  "ok st \<Longrightarrow> catalog_step lower a c (cat st) \<Longrightarrow> editable a c i \<Longrightarrow> fine a c (Some i) (st, Inr r)"
  by (simp add: good_def)

text \<open>A reread after a write.\<close>

lemma seq_reread:
  assumes "obeys ok cat (reads P) st m" and "ok st" "catalog_step lower a c (cat st)" and "editable a c i"
    and "\<And>e. \<not> discloses (f e)"
  shows "fine a c (Some i) (and_then (fail_with f m) (\<lambda>st x. (st, Inr (g x))))"
proof -
  obtain st1 r where m: "m = (st1, r)" by fastforce
  have s1: "ok st1" "catalog_step lower a c (cat st1)"
    using assms(1,2,3) by (auto simp: m obeys_def reads_def)
  show ?thesis using s1 assms(4,5) by (cases r) (auto simp: m good_def)
qed

lemma lookup_list_ID: "ok st \<Longrightarrow> cat st = c \<Longrightarrow> fmlookup (c_lists c) i = Some l \<Longrightarrow> ql_ID l = i"
  using rows[of st] by (auto simp: rows_ok_def)

lemma seq_editable:
  assumes "ok st" "cat st = c"
    and "\<And>st1 l. ok st1 \<Longrightarrow> cat st1 = c \<Longrightarrow> fmlookup (c_lists c) i = Some l \<Longrightarrow> ql_ID l = i \<Longrightarrow>
      canEditList (extractActor (cx_Actor cx)) l \<Longrightarrow> editable (extractActor (cx_Actor cx)) c i \<Longrightarrow>
      fine a c lid (k st1 l)"
  shows "fine a c lid (and_then (loadEditableList (qlHandler Q T) cx i st) k)"
proof -
  obtain st1 r where m: "qs_GetQuestionList Q i st = (st1, r)" by fastforce
  have s1: "ok st1" "cat st1 = c" and r: "\<And>l. r = Inr l \<Longrightarrow> fmlookup (c_lists c) i = Some l"
    using get_list(1)[of i st] assms(1,2) by (auto simp: m obeys_def get_list_spec_def reads_def split: option.splits)
  show ?thesis
  proof (cases r)
    case (Inr l)
    then show ?thesis using s1 r lookup_list_ID[OF s1 r] assms(3)[OF s1, of l]
      by (auto simp: m loadEditableList_def qlHandler_def editable_iff)
  qed (use s1 in \<open>simp add: m loadEditableList_def qlHandler_def\<close>)
qed

lemma seq_readable:
  assumes "ok st" "cat st = c"
    and "\<And>st1 l. ok st1 \<Longrightarrow> cat st1 = c \<Longrightarrow> fmlookup (c_lists c) i = Some l \<Longrightarrow> fine a c lid (k st1 l)"
  shows "fine a c lid (and_then (loadReadableList (qlHandler Q T) cx i st) k)"
proof -
  obtain st1 r where m: "qs_GetQuestionList Q i st = (st1, r)" by fastforce
  have s1: "ok st1" "cat st1 = c" and r: "\<And>l. r = Inr l \<Longrightarrow> fmlookup (c_lists c) i = Some l"
    using get_list(1)[of i st] assms(1,2) by (auto simp: m obeys_def get_list_spec_def reads_def split: option.splits)
  show ?thesis
    using s1 r assms(3)[OF s1] by (cases r) (auto simp: m loadReadableList_def qlHandler_def require_def)
qed

lemma seq_loadList:
  assumes "ok st" "cat st = c"
    and "\<And>st1 l. ok st1 \<Longrightarrow> cat st1 = c \<Longrightarrow> fmlookup (c_lists c) i = Some l \<Longrightarrow> ql_ID l = i \<Longrightarrow>
      (edit \<Longrightarrow> editable (extractActor (cx_Actor cx)) c i) \<Longrightarrow> fine a c lid (k st1 l)"
  shows "fine a c lid (and_then (loadList (themeHandler Q T) cx i edit st) k)"
proof -
  obtain st1 r where m: "qs_GetQuestionList Q i st = (st1, r)" by fastforce
  have s1: "ok st1" "cat st1 = c" and r: "\<And>l. r = Inr l \<Longrightarrow> fmlookup (c_lists c) i = Some l"
    using get_list(1)[of i st] assms(1,2) by (auto simp: m obeys_def get_list_spec_def reads_def split: option.splits)
  show ?thesis
  proof (cases r)
    case (Inr l)
    then show ?thesis using s1 r lookup_list_ID[OF s1 r] assms(3)[OF s1, of l]
      by (auto simp: m loadList_def themeHandler_def editable_iff Let_def)
  qed (use s1 in \<open>simp add: m loadList_def themeHandler_def\<close>)
qed

end

section \<open>Decoded bodies\<close>

lemma decode_options_props:
  assumes "decode_options uuid os seen n = Some (opts, seen', n')"
  shows "length opts = length os \<and> distinct (map or_ID opts) \<and> set (map or_ID opts) \<inter> set seen = {} \<and>
     set seen' = set seen \<union> set (map or_ID opts)"
  using assms
proof (induction uuid os seen n arbitrary: opts n' rule: decode_options.induct)
  case (2 uuid oid label os seen n)
  define i where "i = (if oid = '''' then uuid n else oid)"
  define k where "k = (if oid = '''' then n + 1 else n)"
  have split: "(if oid = '''' then (uuid n, n + 1) else (oid, n)) = (i, k)" by (simp add: i_def k_def)
  from 2(2) obtain opts1 where new: "i \<notin> set seen" and d: "decode_options uuid os (i # seen) k = Some (opts1, seen', n')"
    and opts: "opts = \<lparr>or_ID = i, or_Text = label\<rparr> # opts1"
    by (auto simp: split split: if_splits)
  from 2(1)[OF split[symmetric] refl new d] new show ?case by (auto simp: opts)
qed auto

lemma decodeQuestion_ok:
  assumes "decodeQuestion uuid body = Inr (req, opts, n)"
  shows "qq_Text req \<noteq> ''''" and "options_ok opts (qq_CorrectOptionID req)"
proof -
  from assms obtain seen where d: "decode_options uuid (qq_Options req) [] 0 = Some (opts, seen, n)"
    and "qq_Text req \<noteq> ''''" "2 \<le> length (qq_Options req)" "qq_CorrectOptionID req \<noteq> ''''" "qq_CorrectOptionID req \<in> set seen"
    by (auto simp: decodeQuestion_def split: option.splits if_splits prod.splits)
  then show "qq_Text req \<noteq> ''''" and "options_ok opts (qq_CorrectOptionID req)"
    using decode_options_props[OF d] by (auto simp: options_ok_def)
qed

lemma decodeQuestion_error: "decodeQuestion uuid body = Inl r \<Longrightarrow> \<not> discloses r"
  by (auto simp: decodeQuestion_def split: option.splits if_splits prod.splits)

lemma decodeTheme_ok:
  assumes "decodeThemeRequest body = Inr req"
  shows "tq_Name req \<noteq> ''''" and "RuneCount (tq_Name req) \<le> maxThemeNameLen" and "TrimSpace (tq_Name req) = tq_Name req"
  using assms by (auto simp: decodeThemeRequest_def Let_def split: option.splits if_splits)

lemma decodeTheme_error: "decodeThemeRequest body = Inl r \<Longrightarrow> \<not> discloses r"
  by (auto simp: decodeThemeRequest_def Let_def split: option.splits if_splits)

section \<open>Shared steps of the handlers\<close>

context catalog_store begin

lemma seq_checkTheme:
  assumes "ok st" "cat st = c"
    and "\<And>st1 u. ok st1 \<Longrightarrow> cat st1 = c \<Longrightarrow> theme_usable c lid tid \<Longrightarrow> fine a c i (k st1 u)"
  shows "fine a c i (and_then (checkTheme (qlHandler Q T) tid lid st) k)"
proof (cases "tid = ''''")
  case True
  then show ?thesis using assms(3)[OF assms(1,2)] by (simp add: checkTheme_def theme_usable_def)
next
  case False
  obtain st1 r where m: "ts_GetTheme T tid st = (st1, r)" by fastforce
  have s1: "ok st1" "cat st1 = c" and r: "\<And>t. r = Inr t \<Longrightarrow> fmlookup (c_themes c) tid = Some t"
    using get_theme(1)[of tid st] assms(1,2) by (auto simp: m obeys_def get_theme_spec_def reads_def split: option.splits)
  show ?thesis
    using s1 r assms(3)[OF s1] False by (cases r) (auto simp: m checkTheme_def qlHandler_def theme_usable_def)
qed

lemma seq_loadQuestion:
  assumes "ok st" "cat st = c"
    and "\<And>st1 q q0. ok st1 \<Longrightarrow> cat st1 = c \<Longrightarrow> fmlookup (c_questions c) qid = Some q0 \<Longrightarrow> q = with_theme c q0 \<Longrightarrow>
      qr_ID q0 = qid \<Longrightarrow> qr_QuestionListID q0 = lid \<Longrightarrow> fine a c i (k st1 q)"
  shows "fine a c i (and_then (loadQuestion (qlHandler Q T) lid qid st) k)"
proof -
  obtain st1 r where m: "qs_GetQuestion Q qid st = (st1, r)" by fastforce
  have s1: "ok st1" "cat st1 = c"
    and r: "\<And>q. r = Inr q \<Longrightarrow> \<exists>q0. fmlookup (c_questions c) qid = Some q0 \<and> q = with_theme c q0"
    using get_question(1)[of qid st] assms(1,2) by (auto simp: m obeys_def get_question_spec_def reads_def split: option.splits)
  show ?thesis
  proof (cases r)
    case (Inr q)
    then obtain q0 where q0: "fmlookup (c_questions c) qid = Some q0" "q = with_theme c q0" using r by blast
    have "qr_ID q0 = qid" using rows[OF s1(1)] s1(2) q0(1) by (auto simp: rows_ok_def)
    then show ?thesis using s1 q0 assms(3)[OF s1 q0] Inr by (auto simp: m loadQuestion_def qlHandler_def with_theme_def)
  qed (use s1 in \<open>simp add: m loadQuestion_def qlHandler_def\<close>)
qed

lemma seq_loadTheme:
  assumes "ok st" "cat st = c"
    and "\<And>st1 t. ok st1 \<Longrightarrow> cat st1 = c \<Longrightarrow> fmlookup (c_themes c) tid = Some t \<Longrightarrow> th_ID t = tid \<Longrightarrow>
      th_QuestionListID t = lid \<Longrightarrow> fine a c i (k st1 t)"
  shows "fine a c i (and_then (loadTheme (themeHandler Q T) lid tid st) k)"
proof -
  obtain st1 r where m: "ts_GetTheme T tid st = (st1, r)" by fastforce
  have s1: "ok st1" "cat st1 = c" and r: "\<And>t. r = Inr t \<Longrightarrow> fmlookup (c_themes c) tid = Some t"
    using get_theme(1)[of tid st] assms(1,2) by (auto simp: m obeys_def get_theme_spec_def reads_def split: option.splits)
  show ?thesis
  proof (cases r)
    case (Inr t)
    have "th_ID t = tid" using rows[OF s1(1)] s1(2) r[OF Inr] by (auto simp: rows_ok_def)
    then show ?thesis using s1 r[OF Inr] assms(3)[OF s1 r[OF Inr]] Inr by (auto simp: m loadTheme_def themeHandler_def)
  qed (use s1 in \<open>simp add: m loadTheme_def themeHandler_def\<close>)
qed

section \<open>The question list handlers\<close>

lemma good_answered:
  "fine a c i m \<Longrightarrow> ok (fst (answered m)) \<and> catalog_step lower a c (cat (fst (answered m))) \<and>
     (discloses (snd (answered m)) \<longrightarrow> (case i of None \<Rightarrow> False | Some i \<Rightarrow> editable a c i))"
  by (simp add: good_def)

lemma handler_simps [simp]:
  "qh_store (qlHandler Q T) = Q" "qh_themes (qlHandler Q T) = T"
  "hh_themes (themeHandler Q T) = T" "hh_lists (themeHandler Q T) = Q"
  by (simp_all add: qlHandler_def themeHandler_def)

lemma create_list_step:
  assumes "create_list_spec prec l c c' r" and "list_ok l" "ql_OwnerType l = da_Type a" "ql_OwnerID l \<in> {'''', da_ID a}"
  shows "catalog_step lower a c c'"
proof (cases "ql_ID l |\<in>| fmdom (c_lists c)")
  case False
  let ?l = "l\<lparr>ql_CreatedAt := prec (ql_CreatedAt l), ql_UpdatedAt := prec (ql_UpdatedAt l)\<rparr>"
  have "catalog_step lower a c (set_list ?l c)"
    by (rule catalog_step.new_list) (use assms(2-) False in \<open>auto simp: list_ok_def\<close>)
  then show ?thesis using assms(1) False by (simp add: create_list_spec_def writes_def)
qed (use assms(1) in \<open>auto simp: create_list_spec_def intro: catalog_step.no_change\<close>)

definition handled :: "ctx \<Rightarrow> catalog \<Rightarrow> string option \<Rightarrow> 'd \<times> response \<Rightarrow> bool" where
  "handled cx c i out \<longleftrightarrow> ok (fst out) \<and> catalog_step lower (extractActor (cx_Actor cx)) c (cat (fst out)) \<and>
     (discloses (snd out) \<longrightarrow> (case i of None \<Rightarrow> False | Some i \<Rightarrow> editable (extractActor (cx_Actor cx)) c i))"

lemma handled_answered: "fine (extractActor (cx_Actor cx)) c i m \<Longrightarrow> handled cx c i (answered m)"
  by (simp add: handled_def good_def)

lemma handled_error: "ok st \<Longrightarrow> cat st = c \<Longrightarrow> \<not> discloses r \<Longrightarrow> handled cx c i (st, r)"
  by (auto simp: handled_def catalog_step.no_change)

lemma QL_Create_handled:
  assumes st: "ok st"
  shows "handled cx (cat st) None (QL_Create (qlHandler Q T) cx body st)"
proof -
  let ?a = "extractActor (cx_Actor cx)"
  have create: "handled cx (cat st) None (answered (and_then (fail_with f (qs_CreateQuestionList Q l st))
          (\<lambda>st u. (st, Inr (writeJSON 201 (QuestionListRecord_json l))))))"
    if "list_ok l" "ql_OwnerType l = da_Type ?a" "ql_OwnerID l \<in> {'''', da_ID ?a}" "\<And>e. \<not> discloses (f e)" for l f
    by (rule handled_answered, rule seq_write[OF create_list(1) st refl])
      (use create_list_step that in \<open>auto intro: good_answer\<close>)
  show ?thesis
    unfolding QL_Create_def Let_def handler_simps
    by (auto split: option.splits intro!: handled_error[OF st refl] create
        simp: list_ok_def ListVisibilityPublic_def ListVisibilityPrivate_def)
qed

lemma QL_ListPublic_handled: "ok st \<Longrightarrow> handled cx (cat st) None (QL_ListPublic (qlHandler Q T) st)"
  unfolding QL_ListPublic_def handler_simps
  by (rule handled_answered, rule seq_read[OF public_lists(1)[unfolded lists_spec_def]]) simp_all

lemma QL_ListPrivate_handled: "ok st \<Longrightarrow> handled cx (cat st) None (QL_ListPrivate (qlHandler Q T) cx st)"
  unfolding QL_ListPrivate_def Let_def handler_simps
  by (auto intro!: handled_error handled_answered seq_read[OF private_lists(1)[unfolded lists_spec_def]])

lemma QL_Get_handled: "ok st \<Longrightarrow> handled cx (cat st) (Some lid) (QL_Get (qlHandler Q T) cx lid st)"
  unfolding QL_Get_def by (rule handled_answered, rule seq_readable) simp_all

lemma QL_ListQuestions_handled:
  assumes "ok st"
  shows "handled cx (cat st) (Some lid) (QL_ListQuestions (qlHandler Q T) cx lid f st)"
  unfolding QL_ListQuestions_def handler_simps
proof (rule handled_answered, rule seq_readable[OF assms refl], rule seq_read[OF list_questions(1)[unfolded list_questions_spec_def]], goal_cases)
  case (4 st1 l st2 qs)
  show ?case
  proof (cases "canEditList (extractActor (cx_Actor cx)) l")
    case True
    then show ?thesis using 4 by (auto simp: good_def editable_iff intro: catalog_step.no_change)
  next
    case False
    then show ?thesis using 4 questions_json_hidden by (intro good_same) simp_all
  qed
qed simp_all

lemma in_order_length: "in_order c lid ids \<Longrightarrow> in_order c lid ids' \<Longrightarrow> length ids = length ids'"
  unfolding in_order_def by (metis distinct_card)

lemma QL_AddQuestion_handled:
  assumes "ok st"
  shows "handled cx (cat st) (Some lid) (QL_AddQuestion (qlHandler Q T) cx lid body st)"
  unfolding QL_AddQuestion_def handler_simps
proof (rule handled_answered, rule seq_editable[OF assms refl], goal_cases)
  case (1 st1 l)
  show ?case
  proof (cases "decodeQuestion (cx_uuid cx) body")
    case (Inl r)
    then show ?thesis using 1(1,2) decodeQuestion_error[OF Inl] by simp
  next
    case (Inr x)
    obtain req opts n where x: "x = (req, opts, n)" by (cases x)
    note d = decodeQuestion_ok[OF Inr[unfolded x]]
    show ?thesis
      unfolding Inr x sum.case prod.case 1(4)
    proof (rule seq_checkTheme[OF 1(1,2)], rule seq_read[OF list_questions(1)[unfolded list_questions_spec_def]], goal_cases)
      case (4 st2 u st3 qs)
      then obtain ids where ids: "in_order (cat st) lid ids" "length qs = length ids" by auto
      show ?case
        unfolding Let_def
      proof (rule seq_write[OF create_question(1) 4(4,5)], goal_cases)
        case (1 c' r)
        let ?q = "\<lparr>qr_ID = cx_uuid cx n, qr_QuestionListID = lid, qr_Text = qq_Text req, qr_Options = opts,
                    qr_CorrectOptionID = qq_CorrectOptionID req, qr_OrderIndex = int (length qs),
                    qr_ThemeID = qq_ThemeID req, qr_Theme = None\<rparr>"
        have "catalog_step lower (extractActor (cx_Actor cx)) (cat st) (set_question ?q (cat st))"
          if "cx_uuid cx n |\<notin>| fmdom (c_questions (cat st))"
          by (rule catalog_step.new_question[of _ _ _ ids]) (use ids d \<open>editable _ _ _\<close> 4(3) that in \<open>auto simp: question_ok_def\<close>)
        then show ?case using 1
          by (auto simp: create_question_spec_def writes_def split: if_splits intro: catalog_step.no_change)
      qed (auto intro: good_editor \<open>editable _ _ _\<close>)
    qed simp_all
  qed
qed

lemma QL_UpdateQuestion_handled:
  assumes "ok st"
  shows "handled cx (cat st) (Some lid) (QL_UpdateQuestion (qlHandler Q T) cx lid qid body st)"
  unfolding QL_UpdateQuestion_def handler_simps
proof (rule handled_answered, rule seq_editable[OF assms refl], goal_cases)
  case (1 st1 l)
  note ed = 1(6)
  show ?case
    unfolding 1(4)
  proof (rule seq_loadQuestion[OF 1(1,2)], goal_cases)
    case (1 st2 q q0)
    note q0 = 1
    show ?case
    proof (cases "decodeQuestion (cx_uuid cx) body")
      case (Inl r)
      then show ?thesis using 1(1,2) decodeQuestion_error[OF Inl] by simp
    next
      case (Inr x)
      obtain req opts n where x: "x = (req, opts, n)" by (cases x)
      note d = decodeQuestion_ok[OF Inr[unfolded x]]
      show ?thesis
        unfolding Inr x sum.case prod.case
      proof (rule seq_checkTheme[OF 1(1,2)], goal_cases)
        case (1 st3 u)
        let ?q = "q\<lparr>qr_Text := qq_Text req, qr_Options := opts, qr_CorrectOptionID := qq_CorrectOptionID req, qr_ThemeID := qq_ThemeID req\<rparr>"
        let ?q' = "q0\<lparr>qr_Text := qq_Text req, qr_Options := opts, qr_CorrectOptionID := qq_CorrectOptionID req, qr_ThemeID := qq_ThemeID req\<rparr>"
        have id: "qr_ID ?q = qid" using q0 by (simp add: with_theme_def)
        have step: "catalog_step lower (extractActor (cx_Actor cx)) (cat st) (set_question ?q' (cat st))"
          by (rule catalog_step.edit_question[OF q0(3)]) (use q0 d ed 1(3) in \<open>auto simp: question_ok_def\<close>)
        show ?case
          unfolding Let_def
        proof (rule seq_write[OF update_question(1) 1(1,2)], goal_cases)
          case (1 c' r)
          then show ?case using step q0(3) id by (auto simp: update_question_spec_def writes_def)
        next
          case (3 st4 u)
          show ?case
            by (rule seq_reread[OF get_question(1)[unfolded get_question_spec_def] 3(1,2) ed]) simp
        qed simp
      qed
    qed
  qed
qed

lemma QL_UpdateList_handled:
  assumes "ok st"
  shows "handled cx (cat st) (Some lid) (QL_UpdateList (qlHandler Q T) cx lid body st)"
  unfolding QL_UpdateList_def handler_simps
proof (rule handled_answered, rule seq_editable[OF assms refl], goal_cases)
  case (1 st1 l)
  have "fine (extractActor (cx_Actor cx)) (cat st) (Some lid) (and_then (fail_with (\<lambda>e. writeError 500 msg)
      (qs_UpdateQuestionList Q (l\<lparr>ql_Name := name, ql_Description := description, ql_UpdatedAt := t\<rparr>) st1))
      (\<lambda>st u. (st, Inr (writeJSON 200 (QuestionListRecord_json l')))))" if "name \<noteq> ''''" for msg name description t l'
  proof (rule seq_write[OF update_list(1) 1(1,2)], goal_cases)
    case (1 c' r)
    then show ?case using catalog_step.edit_list[OF \<open>fmlookup _ _ = _\<close> \<open>canEditList _ _\<close> \<open>ql_ID l = lid\<close> that]
      by (auto simp: update_list_spec_def writes_def \<open>ql_ID l = lid\<close> \<open>fmlookup _ _ = _\<close>)
  qed (auto intro: good_answer)
  then show ?case using 1 by (auto simp: Let_def split: option.splits)
qed

lemma drop_list_step: "delete_list_spec lid c c' r \<Longrightarrow> editable a c lid \<Longrightarrow> lid \<noteq> '''' \<Longrightarrow> catalog_step lower a c c'"
  by (auto simp: delete_list_spec_def refuses_def writes_def split: option.splits intro: catalog_step.intros)

lemma QL_DeleteList_handled:
  assumes "ok st" and "lid \<noteq> ''''"
  shows "handled cx (cat st) (Some lid) (QL_DeleteList (qlHandler Q T) cx lid st)"
  unfolding QL_DeleteList_def handler_simps
proof (rule handled_answered, rule seq_editable[OF assms(1) refl], goal_cases)
  case (1 st1 l)
  show ?case
    unfolding 1(4)
    by (rule seq_write[OF delete_list(1)[OF assms(2)] 1(1,2)], erule drop_list_step[OF _ 1(6) assms(2)]) (auto intro: good_answer)
qed

lemma QL_DeleteQuestion_handled:
  assumes "ok st"
  shows "handled cx (cat st) (Some lid) (QL_DeleteQuestion (qlHandler Q T) cx lid qid st)"
  unfolding QL_DeleteQuestion_def handler_simps
proof (rule handled_answered, rule seq_editable[OF assms refl], goal_cases)
  case (1 st1 l)
  note ed = 1(6)
  show ?case
    unfolding 1(4)
  proof (rule seq_loadQuestion[OF 1(1,2)], goal_cases)
    case (1 st2 q q0)
    have id: "qr_ID q = qid" using 1 by (simp add: with_theme_def)
    have step: "catalog_step lower (extractActor (cx_Actor cx)) (cat st) c'" if "delete_question_spec qid (cat st) c' r" for c' r
      using that 1(3,6) ed catalog_step.remove_question[OF 1(3)]
      by (auto simp: delete_question_spec_def writes_def)
    show ?case
      unfolding id by (rule seq_write[OF delete_question(1) 1(1,2)], erule step) (auto intro: good_answer)
  qed
qed

end

section \<open>Reordering\<close>

lemma names_remaining_iff: "names_remaining ids rem \<longleftrightarrow> distinct ids \<and> set ids \<subseteq> set rem"
  by (induction ids rem rule: names_remaining.induct) auto

lemma isPermutation_iff:
  assumes "distinct (map qr_ID qs)"
  shows "isPermutation ids qs \<longleftrightarrow> mset ids = mset (map qr_ID qs)"
proof
  assume "isPermutation ids qs"
  then have *: "length ids = length (map qr_ID qs)" "distinct ids" "set ids \<subseteq> set (map qr_ID qs)"
    by (auto simp: isPermutation_def names_remaining_iff split: if_splits)
  then have "set ids = set (map qr_ID qs)"
    by (intro card_subset_eq) (simp_all only: distinct_card[OF assms] distinct_card[OF *(2)] finite_set)
  then show "mset ids = mset (map qr_ID qs)"
    using set_eq_iff_mset_eq_distinct[OF *(2) assms] by blast
next
  assume *: "mset ids = mset (map qr_ID qs)"
  then have "distinct ids" using assms mset_eq_imp_distinct_iff by blast
  then show "isPermutation ids qs"
    using mset_eq_length[OF *] mset_eq_setD[OF *] by (simp add: isPermutation_def names_remaining_iff)
qed

context catalog_store begin

lemma listed_ids:
  assumes "rows_ok c" and "in_order c lid ids"
  shows "map qr_ID (map (\<lambda>i. with_theme c (the (fmlookup (c_questions c) i))) ids) = ids"
  using assms by (auto simp: rows_ok_def in_order_def with_theme_def intro!: map_idI)

lemma QL_ReorderQuestions_handled:
  assumes "ok st"
  shows "handled cx (cat st) (Some lid) (QL_ReorderQuestions (qlHandler Q T) cx lid body st)"
  unfolding QL_ReorderQuestions_def handler_simps
proof (rule handled_answered, rule seq_editable[OF assms refl], goal_cases)
  case (1 st1 l)
  note ed = 1(6)
  show ?case
  proof (cases body)
    case None
    then show ?thesis using 1 by simp
  next
    case (Some ids)
    show ?thesis
      unfolding Some option.case 1(4)
    proof (rule seq_read[OF list_questions(1)[unfolded list_questions_spec_def] 1(1,2)], goal_cases)
      case (2 st2 qs)
      then obtain old where old: "in_order (cat st) lid old"
        and qs: "qs = map (\<lambda>i. with_theme (cat st) (the (fmlookup (c_questions (cat st)) i))) old" by auto
      have ids_qs: "map qr_ID qs = old" unfolding qs by (rule listed_ids[OF rows[OF assms] old])
      have "distinct old" using old by (simp add: in_order_def)
      then have perm: "isPermutation ids qs \<longleftrightarrow> mset ids = mset old" using isPermutation_iff[of qs ids] by (simp add: ids_qs)
      show ?case
      proof (cases "isPermutation ids qs")
        case False
        then show ?thesis using 2(1,2) by simp
      next
        case True
        then have m: "mset ids = mset old" using perm by simp
        then have d: "distinct ids" using \<open>distinct old\<close> mset_eq_imp_distinct_iff by blast
        show ?thesis
          unfolding eqTrueI[OF True] not_True_eq_False if_False
        proof (rule seq_write[OF reorder(1)[OF d] 2(1,2)], goal_cases)
          case (1 c' r)
          then show ?case using catalog_step.reorder[OF ed old m] by (auto simp: reorder_spec_def writes_def)
        next
          case (3 st4 u)
          show ?case
            by (rule seq_reread[OF list_questions(1)[unfolded list_questions_spec_def] 3(1,2) ed]) simp
        qed simp
      qed
    qed simp
  qed
qed

section \<open>The theme handlers\<close>

lemma writeStoreError_hidden [simp]: "\<not> discloses (writeStoreError op e)"
  by (cases e) (simp_all add: writeStoreError_def)

lemma theme_create_good:
  assumes "ok st" "cat st = c" and ed: "may_edit_scope (extractActor (cx_Actor cx)) c lid"
  shows "fine (extractActor (cx_Actor cx)) c i (theme_create (themeHandler Q T) cx body lid st)"
proof (cases "decodeThemeRequest body")
  case (Inl r)
  then show ?thesis using assms(1,2) decodeTheme_error[OF Inl] by (simp add: theme_create_def)
next
  case (Inr req)
  note d = decodeTheme_ok[OF Inr]
  show ?thesis
    unfolding theme_create_def Inr sum.case Let_def handler_simps
  proof (rule seq_write[OF create_theme(1) assms(1,2)], goal_cases)
    case (1 c' r)
    let ?t = "\<lparr>th_ID = cx_uuid cx 0, th_Scope = scope_of lid, th_QuestionListID = lid, th_Name = tq_Name req,
               th_Description = tq_Description req, th_CreatedAt = prec (cx_now cx), th_UpdatedAt = prec (cx_now cx)\<rparr>"
    have "catalog_step lower (extractActor (cx_Actor cx)) c (set_theme ?t c)"
      if "th_ID ?t |\<notin>| fmdom (c_themes c)" "\<not> name_taken lower c lid (tq_Name req) (cx_uuid cx 0)"
      by (rule catalog_step.new_theme) (use that ed d in \<open>simp_all add: theme_ok_def\<close>)
    then show ?case using 1
      by (auto simp: create_theme_spec_def refuses_def writes_def scope_of_def split: if_splits intro: catalog_step.no_change)
  qed (auto intro: good_answer)
qed

lemma theme_update_good:
  assumes "ok st" "cat st = c" and ed: "may_edit_scope (extractActor (cx_Actor cx)) c lid"
  shows "fine (extractActor (cx_Actor cx)) c i (theme_update (themeHandler Q T) cx tid body lid st)"
  unfolding theme_update_def handler_simps
proof (rule seq_loadTheme[OF assms(1,2)], goal_cases)
  case (1 st1 t0)
  note t0 = 1
  show ?case
  proof (cases "decodeThemeRequest body")
    case (Inl r)
    then show ?thesis using 1 decodeTheme_error[OF Inl] by simp
  next
    case (Inr req)
    note d = decodeTheme_ok[OF Inr]
    show ?thesis
      unfolding Inr sum.case Let_def
    proof (rule seq_write[OF update_theme(1) 1(1,2)], goal_cases)
      case (1 c' r)
      let ?t = "t0\<lparr>th_Name := tq_Name req, th_Description := tq_Description req, th_UpdatedAt := prec (cx_now cx)\<rparr>"
      have "catalog_step lower (extractActor (cx_Actor cx)) c (set_theme ?t c)"
        if "\<not> name_taken lower c lid (tq_Name req) tid"
        by (rule catalog_step.edit_theme[OF t0(3)]) (use that ed d t0 in \<open>simp_all add: theme_ok_def\<close>)
      then show ?case using 1 t0
        by (auto simp: update_theme_spec_def refuses_def writes_def split: if_splits intro: catalog_step.no_change)
    qed (auto intro: good_answer)
  qed
qed

lemma theme_delete_good:
  assumes "ok st" "cat st = c" and ed: "may_edit_scope a c lid"
  shows "fine a c i (theme_delete (themeHandler Q T) tid lid st)"
  unfolding theme_delete_def handler_simps
proof (rule seq_loadTheme[OF assms(1,2)], goal_cases)
  case (1 st1 t)
  show ?case
    unfolding 1(4)
  proof (rule seq_write[OF delete_theme(1) 1(1,2)], goal_cases)
    case (1 c' r)
    then show ?case using catalog_step.remove_theme[OF \<open>fmlookup _ tid = _\<close>] ed \<open>th_QuestionListID t = lid\<close> \<open>fmlookup _ tid = _\<close>
      by (auto simp: delete_theme_spec_def writes_def)
  qed (auto intro: good_answer)
qed

lemma seq_admin:
  assumes "ok st" "cat st = c"
    and "may_edit_scope (extractActor (cx_Actor cx)) c '''' \<Longrightarrow> fine a c i (k st ())"
  shows "fine a c i (and_then (requireAdmin cx st) k)"
  using assms by (simp add: requireAdmin_def may_edit_scope_def)

lemmas global_scope = TH_ListGlobal_def TH_GetGlobal_def TH_CreateGlobal_def TH_UpdateGlobal_def TH_DeleteGlobal_def

lemma TH_global_handled:
  assumes "ok st"
  shows "handled cx (cat st) None (TH_ListGlobal (themeHandler Q T) st)"
    and "handled cx (cat st) None (TH_GetGlobal (themeHandler Q T) tid st)"
    and "handled cx (cat st) None (TH_CreateGlobal (themeHandler Q T) cx body st)"
    and "handled cx (cat st) None (TH_UpdateGlobal (themeHandler Q T) cx tid body st)"
    and "handled cx (cat st) None (TH_DeleteGlobal (themeHandler Q T) cx tid st)"
  unfolding global_scope handler_simps
      apply (rule handled_answered, rule seq_read[OF global_themes(1)[unfolded themes_spec_def] assms refl]; simp add: writeThemes_def)
     apply (rule handled_answered, rule seq_loadTheme[OF assms refl], simp)
    apply (rule handled_answered, rule seq_admin[OF assms refl], erule theme_create_good[OF assms refl])
   apply (rule handled_answered, rule seq_admin[OF assms refl], erule theme_update_good[OF assms refl])
  apply (rule handled_answered, rule seq_admin[OF assms refl], erule theme_delete_good[OF assms refl])
  done

lemmas list_scope = TH_ListForList_def TH_GetForList_def TH_CreateForList_def TH_UpdateForList_def TH_DeleteForList_def

lemma editable_scope: "editable a c lid \<Longrightarrow> lid \<noteq> '''' \<Longrightarrow> may_edit_scope a c lid"
  by (simp add: may_edit_scope_def)

lemma TH_list_handled:
  assumes "ok st" and "lid \<noteq> ''''"
  shows "handled cx (cat st) (Some lid) (TH_ListForList (themeHandler Q T) cx lid st)"
    and "handled cx (cat st) (Some lid) (TH_GetForList (themeHandler Q T) cx lid tid st)"
    and "handled cx (cat st) (Some lid) (TH_CreateForList (themeHandler Q T) cx lid body st)"
    and "handled cx (cat st) (Some lid) (TH_UpdateForList (themeHandler Q T) cx lid tid body st)"
    and "handled cx (cat st) (Some lid) (TH_DeleteForList (themeHandler Q T) cx lid tid st)"
  unfolding list_scope handler_simps
proof -
  show "handled cx (cat st) (Some lid) (answered (and_then (loadList (themeHandler Q T) cx lid False st) (\<lambda>st l. and_then
     (fail_with (\<lambda>e. writeError 500 ''failed to list themes'') (ts_ListQuestionListThemes T (ql_ID l) st))
     (\<lambda>st ts. (st, Inr (writeThemes ts))))))"
    by (rule handled_answered, rule seq_loadList[OF assms(1) refl], simp,
        rule seq_read[OF list_themes(1)[OF assms(2), unfolded themes_spec_def]]) (simp_all add: writeThemes_def)
  show "handled cx (cat st) (Some lid) (answered (and_then (loadList (themeHandler Q T) cx lid False st)
      (\<lambda>st l. and_then (loadTheme (themeHandler Q T) (ql_ID l) tid st) (\<lambda>st t. (st, Inr (writeJSON 200 (ThemeRecord_json t)))))))"
    by (rule handled_answered, rule seq_loadList[OF assms(1) refl], rule seq_loadTheme) simp_all
qed (rule handled_answered, rule seq_loadList[OF assms(1) refl],
    simp add: editable_scope assms(2) theme_create_good theme_update_good theme_delete_good)+

theorem serve_catalog_handled:
  assumes "ok st" and "named_list req \<noteq> Some ''''"
  shows "handled cx (cat st) (named_list req) (serve_catalog (qlHandler Q T) (themeHandler Q T) cx req st)"
  using assms
  by (cases req) (auto intro: QL_Create_handled QL_ListPublic_handled QL_ListPrivate_handled QL_Get_handled QL_ListQuestions_handled
      QL_AddQuestion_handled QL_UpdateQuestion_handled QL_UpdateList_handled QL_DeleteList_handled QL_DeleteQuestion_handled
      QL_ReorderQuestions_handled TH_global_handled TH_list_handled)

end

end
