(* ===== verification/Catalog_Invariant.thy ===== *)
theory Catalog_Invariant
  imports Catalog_Routes
begin

text \<open>
  The invariant of the catalog, that every permitted change keeps: sound lists, questions and themes,
  questions of each list numbered from 0, themes used where they may be, names unique in their scope.
  And what a change leaves alone: \<open>untouched\<close> lists.
\<close>

section \<open>The invariant\<close>

text \<open>The questions of a list are those of \<open>ids\<close>, numbered in its order.\<close>

definition numbered :: "catalog \<Rightarrow> string \<Rightarrow> string list \<Rightarrow> bool" where
  "numbered c lid ids \<longleftrightarrow> distinct ids \<and>
     set ids = {i. \<exists>q. fmlookup (c_questions c) i = Some q \<and> qr_QuestionListID q = lid} \<and>
     (\<forall>k < length ids. qr_OrderIndex (the (fmlookup (c_questions c) (ids ! k))) = int k)"

definition lists_ok :: "catalog \<Rightarrow> bool" where
  "lists_ok c \<longleftrightarrow> (\<forall>i l. fmlookup (c_lists c) i = Some l \<longrightarrow> list_ok l)"

definition questions_ok :: "catalog \<Rightarrow> bool" where
  "questions_ok c \<longleftrightarrow> (\<forall>i q. fmlookup (c_questions c) i = Some q \<longrightarrow>
     question_ok q \<and> theme_usable c (qr_QuestionListID q) (qr_ThemeID q))"

definition themes_ok :: "(string \<Rightarrow> string) \<Rightarrow> catalog \<Rightarrow> bool" where
  "themes_ok lower c \<longleftrightarrow> (\<forall>i t. fmlookup (c_themes c) i = Some t \<longrightarrow>
     theme_ok t \<and> \<not> name_taken lower c (th_QuestionListID t) (th_Name t) i)"

definition catalog_ok :: "(string \<Rightarrow> string) \<Rightarrow> catalog \<Rightarrow> bool" where
  "catalog_ok lower c \<longleftrightarrow> lists_ok c \<and> questions_ok c \<and> themes_ok lower c \<and> (\<forall>lid. \<exists>ids. numbered c lid ids)"

lemma numbered_order:
  assumes "numbered c lid ids"
  shows "map (\<lambda>i. qr_OrderIndex (the (fmlookup (c_questions c) i))) ids = map int [0..<length ids]"
  using assms by (auto simp: numbered_def intro!: nth_equalityI)

lemma numbered_in_order: "numbered c lid ids \<Longrightarrow> in_order c lid ids"
  unfolding in_order_def by (simp only: numbered_order) (simp add: numbered_def sorted_iff_nth_mono)

lemma in_order_unique:
  assumes n: "numbered c lid ids" and o: "in_order c lid ids'"
  shows "ids' = ids"
proof -
  let ?f = "\<lambda>i. qr_OrderIndex (the (fmlookup (c_questions c) i))"
  have d: "distinct (map ?f ids)" by (simp add: numbered_order[OF n] distinct_map)
  have s: "set ids' = set ids" using n o by (simp add: numbered_def in_order_def)
  have inj: "inj_on ?f (set ids)" using d by (simp add: distinct_map)
  show ?thesis
  proof (rule map_sorted_distinct_set_unique[of ?f])
    show "inj_on ?f (set ids' \<union> set ids)" using inj s by simp
    show "sorted (map ?f ids')" "sorted (map ?f ids)"
      using o numbered_in_order[OF n] by (simp_all add: in_order_def)
    show "distinct (map ?f ids')" using o inj s by (simp add: in_order_def distinct_map)
    show "distinct (map ?f ids)" by fact
    show "set ids' = set ids" by fact
  qed
qed

text \<open>Numbering looks only at the list and the position of each question.\<close>

definition position :: "catalog \<Rightarrow> string \<Rightarrow> string \<Rightarrow> int option" where
  "position c lid i = (case fmlookup (c_questions c) i of None \<Rightarrow> None
     | Some q \<Rightarrow> if qr_QuestionListID q = lid then Some (qr_OrderIndex q) else None)"

lemma position_listed: "(\<exists>q. fmlookup (c_questions c) i = Some q \<and> qr_QuestionListID q = lid) \<longleftrightarrow> position c lid i \<noteq> None"
  by (auto simp: position_def split: option.splits)

lemma position_order:
  "position c lid i \<noteq> None \<Longrightarrow> qr_OrderIndex (the (fmlookup (c_questions c) i)) = the (position c lid i)"
  by (auto simp: position_def split: option.splits if_splits)

lemma numbered_position:
  "numbered c lid ids \<longleftrightarrow> distinct ids \<and> set ids = {i. position c lid i \<noteq> None} \<and>
     (\<forall>k < length ids. position c lid (ids ! k) = Some (int k))" (is "?L \<longleftrightarrow> ?R")
proof -
  have "qr_OrderIndex (the (fmlookup (c_questions c) (ids ! k))) = int k \<longleftrightarrow> position c lid (ids ! k) = Some (int k)"
    if "set ids = {i. position c lid i \<noteq> None}" "k < length ids" for k
  proof -
    have "ids ! k \<in> set ids" using that(2) by simp
    then have "position c lid (ids ! k) \<noteq> None" using that(1) by simp
    then show ?thesis using position_order[of c lid "ids ! k"] by auto
  qed
  then show ?thesis unfolding numbered_def position_listed by blast
qed

lemma numbered_cong: "numbered c lid ids \<Longrightarrow> position c' lid = position c lid \<Longrightarrow> numbered c' lid ids"
  by (simp add: numbered_position)

lemma position_positioned:
  "position (positioned lid ids c) lid' i =
     (case index_of ids i of Some n \<Rightarrow> if lid' = lid \<and> position c lid i \<noteq> None then Some n else position c lid' i
      | None \<Rightarrow> position c lid' i)"
  by (auto simp: position_def positioned_def split: option.splits)

lemma numbered_positioned:
  assumes "distinct ids" and "set ids = {i. position c lid i \<noteq> None}"
  shows "numbered (positioned lid ids c) lid ids"
proof -
  have "position c lid (ids ! k) \<noteq> None" if "k < length ids" for k
    using nth_mem[OF that] unfolding assms(2) by simp
  then have "position (positioned lid ids c) lid (ids ! k) = Some (int k)" if "k < length ids" for k
    using that by (simp add: position_positioned index_of_nth[OF assms(1)])
  moreover have "position (positioned lid ids c) lid i \<noteq> None \<longleftrightarrow> position c lid i \<noteq> None" for i
    using index_of_None[of ids i] assms(2) by (auto simp: position_positioned split: option.splits)
  ultimately show ?thesis using assms by (simp add: numbered_position)
qed

lemma positioned_other: "lid' \<noteq> lid \<Longrightarrow> position (positioned lid ids c) lid' = position c lid'"
  by (rule ext) (simp add: position_positioned split: option.splits)

section \<open>Every permitted change keeps it\<close>

text \<open>Positions after each change.\<close>

lemma position_simps [simp]:
  "position (set_list l c) = position c" "position (set_theme t c) = position c"
  "position (no_theme gone c) = position c"
  by (auto simp: fun_eq_iff position_def set_list_def set_theme_def no_theme_def split: option.splits)

lemma position_set_question:
  "position (set_question q c) lid i = (if i = qr_ID q then (if qr_QuestionListID q = lid then Some (qr_OrderIndex q) else None)
     else position c lid i)"
  by (simp add: position_def set_question_def)

lemma position_drop_question: "position (drop_question qid c) lid i = (if i = qid then None else position c lid i)"
  by (simp add: position_def drop_question_def)

lemma position_drop_list: "position (drop_list lid c) lid' i = (if lid' = lid then None else position c lid' i)"
  by (auto simp: drop_list_def position_def split: option.splits)

lemma numbered_step:
  assumes "catalog_step lower a c c'" and "\<forall>lid. \<exists>ids. numbered c lid ids"
  shows "\<exists>ids. numbered c' lid ids"
  using assms(1)
proof cases
  case no_change
  then show ?thesis using assms(2) by simp
next
  case (new_list l)
  then show ?thesis using assms(2) by (simp add: numbered_position)
next
  case (edit_list lid l name t description)
  then show ?thesis using assms(2) by (simp add: numbered_position)
next
  case (remove_list lid0)
  then show ?thesis using assms(2) by (cases "lid = lid0") (simp_all add: numbered_position position_drop_list)
next
  case (new_question q ids)
  obtain ids' where n: "numbered c (qr_QuestionListID q) ids'" using assms(2) by blast
  have ids: "ids = ids'" using in_order_unique[OF n new_question(5)] .
  have fresh: "position c l (qr_ID q) = None" for l
    using new_question(2) by (simp add: position_def fmdom_notD)
  show ?thesis
  proof (cases "lid = qr_QuestionListID q")
    case True
    have "numbered c' lid (ids @ [qr_ID q])"
      using n new_question(6) fresh[of lid]
      unfolding new_question(1) True ids numbered_position
      by (auto simp: position_set_question nth_append less_Suc_eq)
    then show ?thesis ..
  next
    case False
    have "position c' lid = position c lid"
      using fresh[of lid] False by (auto simp: fun_eq_iff new_question(1) position_set_question)
    then show ?thesis using assms(2) numbered_cong by blast
  qed
next
  case (edit_question qid q0 q)
  have "position c' lid = position c lid"
    using edit_question by (auto simp: fun_eq_iff position_set_question) (auto simp: position_def)
  then show ?thesis using assms(2) numbered_cong by blast
next
  case (remove_question qid q ids)
  let ?lid = "qr_QuestionListID q" and ?c = "drop_question qid c"
  show ?thesis
  proof (cases "lid = ?lid")
    case True
    have "set ids = {i. position ?c lid i \<noteq> None}" "distinct ids"
      using remove_question(4) unfolding in_order_def position_listed True by blast+
    then show ?thesis unfolding remove_question(1) True[symmetric] using numbered_positioned by blast
  next
    case False
    have "position c' lid = position c lid"
      using False remove_question(2)
      by (auto simp: fun_eq_iff remove_question(1) positioned_other position_drop_question) (auto simp: position_def)
    then show ?thesis using assms(2) numbered_cong by blast
  qed
next
  case (reorder lid0 old ids)
  show ?thesis
  proof (cases "lid = lid0")
    case True
    have old: "set old = {i. position c lid i \<noteq> None}" "distinct old"
      using reorder(3) unfolding in_order_def position_listed True by blast+
    have "set ids = set old" "distinct ids"
      using reorder(4) old(2) mset_eq_setD mset_eq_imp_distinct_iff by blast+
    then show ?thesis unfolding reorder(1) True[symmetric] using numbered_positioned[of ids c lid] old(1) by auto
  next
    case False
    then have "position c' lid = position c lid" by (simp add: reorder(1) positioned_other)
    then show ?thesis using assms(2) numbered_cong by blast
  qed
qed (use assms(2) in \<open>simp_all add: numbered_position\<close>)

lemma lists_step:
  assumes "catalog_step lower a c c'" and "lists_ok c"
  shows "lists_ok c'"
  using assms(1)
proof cases
  case (edit_list lid l name t description)
  have "list_ok l" using assms(2) edit_list(2) by (auto simp: lists_ok_def)
  then have "list_ok (l\<lparr>ql_Name := name, ql_Description := description, ql_UpdatedAt := t\<rparr>)"
    using edit_list by (simp add: list_ok_def)
  then show ?thesis using assms(2) by (auto simp: edit_list(1) lists_ok_def set_list_def)
qed (use assms(2) in \<open>auto simp: lists_ok_def set_list_def set_question_def set_theme_def drop_list_def no_theme_def
      positioned_def drop_question_def split: if_splits\<close>)

text \<open>Questions: usable themes stay usable, or the question loses its theme.\<close>

lemma questions_okD:
  "questions_ok c \<Longrightarrow> fmlookup (c_questions c) i = Some q \<Longrightarrow> question_ok q \<and> theme_usable c (qr_QuestionListID q) (qr_ThemeID q)"
  by (auto simp: questions_ok_def)

lemma questions_okI:
  assumes "questions_ok c"
    and "\<And>i q. fmlookup (c_questions c') i = Some q \<Longrightarrow> question_ok q \<and> theme_usable c' (qr_QuestionListID q) (qr_ThemeID q) \<or>
      (\<exists>q0. fmlookup (c_questions c) i = Some q0 \<and> (question_ok q0 \<longrightarrow> question_ok q) \<and>
        (theme_usable c (qr_QuestionListID q0) (qr_ThemeID q0) \<longrightarrow> theme_usable c' (qr_QuestionListID q) (qr_ThemeID q)))"
  shows "questions_ok c'"
  unfolding questions_ok_def using assms questions_okD[OF assms(1)] by blast

lemma theme_usable_simps [simp]:
  "theme_usable (set_list l c) = theme_usable c" "theme_usable (set_question q c) = theme_usable c"
  "theme_usable (positioned lid ids c) = theme_usable c" "theme_usable (drop_question qid c) = theme_usable c"
  by (auto simp: fun_eq_iff theme_usable_def set_list_def set_question_def positioned_def drop_question_def)

lemma question_ok_simps [simp]:
  "question_ok (q\<lparr>qr_Theme := x\<rparr>) = question_ok q" "question_ok (q\<lparr>qr_ThemeID := y\<rparr>) = question_ok q"
  "question_ok (q\<lparr>qr_OrderIndex := z\<rparr>) = question_ok q"
  by (simp_all add: question_ok_def)

lemma theme_usable_none [simp]: "theme_usable c lid ''''"
  by (simp add: theme_usable_def)

lemma questions_no_theme:
  assumes "questions_ok c"
  shows "questions_ok (no_theme gone c)"
proof (rule questions_okI[OF assms])
  fix i q
  assume "fmlookup (c_questions (no_theme gone c)) i = Some q"
  then obtain q0 where q0: "fmlookup (c_questions c) i = Some q0" "q = (if gone (qr_ThemeID q0) then q0\<lparr>qr_ThemeID := ''''\<rparr> else q0)"
    by (auto simp: no_theme_def)
  have "theme_usable (no_theme gone c) lid tid" if "theme_usable c lid tid" "\<not> gone tid" for lid tid
    using that by (auto simp: theme_usable_def no_theme_def)
  then show "question_ok q \<and> theme_usable (no_theme gone c) (qr_QuestionListID q) (qr_ThemeID q) \<or>
      (\<exists>q0. fmlookup (c_questions c) i = Some q0 \<and> (question_ok q0 \<longrightarrow> question_ok q) \<and>
        (theme_usable c (qr_QuestionListID q0) (qr_ThemeID q0) \<longrightarrow> theme_usable (no_theme gone c) (qr_QuestionListID q) (qr_ThemeID q)))"
    using q0 by auto
qed

lemma questions_set_theme:
  assumes "questions_ok c" and "\<And>t0. fmlookup (c_themes c) (th_ID t) = Some t0 \<Longrightarrow> th_QuestionListID t = th_QuestionListID t0"
  shows "questions_ok (set_theme t c)"
  using assms(1) by (rule questions_okI) (use assms(2) in \<open>auto simp: set_theme_def theme_usable_def\<close>)

lemma questions_drop_list:
  assumes "questions_ok c"
  shows "questions_ok (drop_list lid c)"
  unfolding drop_list_def
  by (rule questions_no_theme, rule questions_okI[OF assms]) (auto simp: theme_usable_def split: if_splits)

lemma questions_set_question:
  assumes "questions_ok c" and "question_ok q" and "theme_usable c (qr_QuestionListID q) (qr_ThemeID q)"
  shows "questions_ok (set_question q c)"
  using assms unfolding questions_ok_def theme_usable_simps by (simp add: set_question_def)

lemma positioned_lookup:
  assumes "fmlookup (c_questions (positioned lid ids c)) i = Some q"
  obtains q0 n where "fmlookup (c_questions c) i = Some q0" and "q = q0\<lparr>qr_OrderIndex := n\<rparr>"
proof -
  from assms obtain q0 where q0: "fmlookup (c_questions c) i = Some q0"
    and q: "q = (case index_of ids i of Some n \<Rightarrow> (if qr_QuestionListID q0 = lid then q0\<lparr>qr_OrderIndex := n\<rparr> else q0) | None \<Rightarrow> q0)"
    by (auto simp: positioned_def)
  have "q = q0\<lparr>qr_OrderIndex := qr_OrderIndex q\<rparr>" by (auto simp: q split: option.splits)
  then show thesis using that q0 by blast
qed

lemma questions_positioned: "questions_ok c \<Longrightarrow> questions_ok (positioned lid ids c)"
  unfolding questions_ok_def theme_usable_simps by (fastforce elim: positioned_lookup)

lemma questions_drop_question: "questions_ok c \<Longrightarrow> questions_ok (drop_question qid c)"
  unfolding questions_ok_def theme_usable_simps by (auto simp: drop_question_def)

lemma questions_step:
  assumes "catalog_step lower a c c'" and q: "questions_ok c"
  shows "questions_ok c'"
  using assms(1)
proof cases
  case (remove_list lid)
  then show ?thesis using questions_drop_list[OF q] by simp
next
  case (new_theme t)
  then show ?thesis using questions_set_theme[OF q, of t] by (simp add: fmdom_notD)
next
  case (edit_theme tid t0 t)
  then show ?thesis using questions_set_theme[OF q, of t] by simp
next
  case (remove_theme tid t)
  then show ?thesis using questions_no_theme[OF q] by simp
next
  case (remove_question qid q0 ids)
  then show ?thesis using questions_positioned[OF questions_drop_question[OF q]] by simp
next
  case (reorder lid old ids)
  then show ?thesis using questions_positioned[OF q] by simp
qed (use q in \<open>auto simp: questions_set_question, auto simp: questions_ok_def set_list_def theme_usable_def\<close>)

text \<open>Themes.\<close>

lemma name_taken_iff:
  "name_taken lower c lid name tid \<longleftrightarrow>
     (\<exists>i t. fmlookup (c_themes c) i = Some t \<and> th_ID t \<noteq> tid \<and> th_QuestionListID t = lid \<and> lower (th_Name t) = lower name)"
  unfolding name_taken_def Bex_def fmlookup_ran'_iff by blast

lemma themes_sub:
  assumes "themes_ok lower c" and "\<And>i t. fmlookup (c_themes c') i = Some t \<Longrightarrow> fmlookup (c_themes c) i = Some t"
  shows "themes_ok lower c'"
  using assms unfolding themes_ok_def name_taken_iff by blast

lemma themes_set_theme:
  assumes "themes_ok lower c" and "rows_ok c" and "theme_ok t"
    and free: "\<not> name_taken lower c (th_QuestionListID t) (th_Name t) (th_ID t)"
  shows "themes_ok lower (set_theme t c)"
  unfolding themes_ok_def
proof (intro allI impI)
  fix i t1
  assume t1: "fmlookup (c_themes (set_theme t c)) i = Some t1"
  have id: "th_ID t2 = j" if "fmlookup (c_themes c) j = Some t2" for j t2
    using assms(2) that by (auto simp: rows_ok_def)
  show "theme_ok t1 \<and> \<not> name_taken lower (set_theme t c) (th_QuestionListID t1) (th_Name t1) i"
  proof (cases "i = th_ID t")
    case True
    then have "t1 = t" using t1 by (simp add: set_theme_def)
    moreover have "\<not> name_taken lower (set_theme t c) (th_QuestionListID t) (th_Name t) (th_ID t)"
      using free by (auto simp: name_taken_iff set_theme_def split: if_splits)
    ultimately show ?thesis using True assms(3) by simp
  next
    case False
    then have c: "fmlookup (c_themes c) i = Some t1" using t1 by (simp add: set_theme_def)
    then have "theme_ok t1" and "\<not> name_taken lower c (th_QuestionListID t1) (th_Name t1) i"
      using assms(1) by (auto simp: themes_ok_def)
    moreover have "\<not> (th_QuestionListID t = th_QuestionListID t1 \<and> lower (th_Name t) = lower (th_Name t1))"
      using free c id[OF c] False unfolding name_taken_iff by metis
    ultimately show ?thesis unfolding name_taken_iff set_theme_def by (auto split: if_splits)
  qed
qed

lemma themes_step:
  assumes "catalog_step lower a c c'" and t: "themes_ok lower c" and "rows_ok c"
  shows "themes_ok lower c'"
  using assms(1)
proof cases
  case (new_theme th)
  then show ?thesis using themes_set_theme[OF t assms(3)] by simp
next
  case (edit_theme tid t0 th)
  then show ?thesis using themes_set_theme[OF t assms(3)] by simp
qed (use t in \<open>auto elim!: themes_sub simp: set_list_def set_question_def drop_list_def no_theme_def
      positioned_def drop_question_def split: if_splits\<close>)

theorem catalog_ok_step:
  assumes "catalog_step lower a c c'" and "catalog_ok lower c" and "rows_ok c"
  shows "catalog_ok lower c'"
  using assms lists_step questions_step themes_step numbered_step unfolding catalog_ok_def by metis

section \<open>What a change leaves alone\<close>

text \<open>
  An untouched list keeps its record, its themes and its questions, which at most lose a theme that
  is no longer there.
\<close>

definition untouched :: "catalog \<Rightarrow> catalog \<Rightarrow> string \<Rightarrow> bool" where
  "untouched c c' lid \<longleftrightarrow> fmlookup (c_lists c') lid = fmlookup (c_lists c) lid \<and>
     (\<forall>i t. th_QuestionListID t = lid \<longrightarrow> (fmlookup (c_themes c') i = Some t \<longleftrightarrow> fmlookup (c_themes c) i = Some t)) \<and>
     (\<forall>i q'. fmlookup (c_questions c') i = Some q' \<and> qr_QuestionListID q' = lid \<longrightarrow>
        (\<exists>q. fmlookup (c_questions c) i = Some q \<and>
          (q' = q \<or> q' = q\<lparr>qr_ThemeID := ''''\<rparr> \<and> qr_ThemeID q |\<notin>| fmdom (c_themes c')))) \<and>
     (\<forall>i q. fmlookup (c_questions c) i = Some q \<and> qr_QuestionListID q = lid \<longrightarrow> i |\<in>| fmdom (c_questions c'))"

definition global_untouched :: "catalog \<Rightarrow> catalog \<Rightarrow> bool" where
  "global_untouched c c' \<longleftrightarrow>
     (\<forall>i t. th_QuestionListID t = '''' \<longrightarrow> (fmlookup (c_themes c') i = Some t \<longleftrightarrow> fmlookup (c_themes c) i = Some t))"

lemma untouchedI:
  assumes "fmlookup (c_lists c') lid = fmlookup (c_lists c) lid"
    and "\<And>i t. th_QuestionListID t = lid \<Longrightarrow> fmlookup (c_themes c') i = Some t \<longleftrightarrow> fmlookup (c_themes c) i = Some t"
    and "\<And>i q'. fmlookup (c_questions c') i = Some q' \<Longrightarrow> qr_QuestionListID q' = lid \<Longrightarrow>
        \<exists>q. fmlookup (c_questions c) i = Some q \<and>
          (q' = q \<or> q' = q\<lparr>qr_ThemeID := ''''\<rparr> \<and> qr_ThemeID q |\<notin>| fmdom (c_themes c'))"
    and "\<And>i q. fmlookup (c_questions c) i = Some q \<Longrightarrow> qr_QuestionListID q = lid \<Longrightarrow> i |\<in>| fmdom (c_questions c')"
  shows "untouched c c' lid"
  using assms unfolding untouched_def by blast

lemma no_theme_frame:
  assumes "\<And>i t. fmlookup (c_themes c) i = Some t \<Longrightarrow> gone i \<Longrightarrow> th_QuestionListID t \<noteq> lid"
    and "\<And>i. gone i \<Longrightarrow> i |\<in>| fmdom (c_themes c)"
  shows "untouched c (no_theme gone c) lid"
proof (rule untouchedI, goal_cases)
  case (2 i t)
  then show ?case using assms(1)[of i] by (auto simp: no_theme_def)
next
  case (3 i q')
  then show ?case by (auto simp: no_theme_def split: if_splits)
qed (auto simp: no_theme_def fmlookup_iff_dom)

lemma untouched_refl: "untouched c c lid"
  by (rule untouchedI) (auto simp: fmlookup_iff_dom)

lemma positioned_frame:
  assumes "lid' \<noteq> lid"
  shows "untouched c (positioned lid ids c) lid'"
proof (rule untouchedI, goal_cases)
  case (3 i q')
  then obtain q where "fmlookup (c_questions c) i = Some q"
    "q' = (case index_of ids i of Some n \<Rightarrow> (if qr_QuestionListID q = lid then q\<lparr>qr_OrderIndex := n\<rparr> else q) | None \<Rightarrow> q)"
    by (auto simp: positioned_def)
  with 3(2) assms show ?case by (auto split: option.splits if_splits)
qed (auto simp: positioned_def fmlookup_iff_dom)

lemma untouched_drop_question:
  assumes "fmlookup (c_questions c) qid = Some q" and "qr_QuestionListID q \<noteq> lid" and "untouched (drop_question qid c) c' lid"
  shows "untouched c c' lid"
proof (rule untouchedI, goal_cases)
  case (3 i q')
  then obtain q1 where "fmlookup (c_questions (drop_question qid c)) i = Some q1"
    "q' = q1 \<or> q' = q1\<lparr>qr_ThemeID := ''''\<rparr> \<and> qr_ThemeID q1 |\<notin>| fmdom (c_themes c')"
    using assms(3) unfolding untouched_def by blast
  then show ?case by (auto simp: drop_question_def split: if_splits)
next
  case (4 i q1)
  then have "fmlookup (c_questions (drop_question qid c)) i = Some q1" using assms(1,2) by (auto simp: drop_question_def)
  then show ?case using assms(3) 4(2) unfolding untouched_def by blast
qed (use assms(3) in \<open>auto simp: untouched_def drop_question_def\<close>)

lemma drop_list_frame:
  assumes "lid' \<noteq> lid"
  shows "untouched c (drop_list lid c) lid'"
proof -
  let ?gone = "\<lambda>i. case fmlookup (c_themes c) i of None \<Rightarrow> False | Some t \<Rightarrow> th_QuestionListID t = lid"
  let ?c = "c\<lparr>c_lists := fmdrop lid (c_lists c),
          c_questions := fmfilter (\<lambda>i. qr_QuestionListID (the (fmlookup (c_questions c) i)) \<noteq> lid) (c_questions c)\<rparr>"
  have u: "untouched ?c (no_theme ?gone ?c) lid'"
    by (rule no_theme_frame) (use assms in \<open>auto simp: fmlookup_iff_dom split: option.splits\<close>)
  show ?thesis
  proof (rule untouchedI, goal_cases)
    case (3 i q')
    then obtain q where "fmlookup (c_questions ?c) i = Some q"
      "q' = q \<or> q' = q\<lparr>qr_ThemeID := ''''\<rparr> \<and> qr_ThemeID q |\<notin>| fmdom (c_themes (drop_list lid c))"
      using u unfolding untouched_def drop_list_def by blast
    then show ?case by (auto split: if_splits)
  next
    case (4 i q)
    then have "fmlookup (c_questions ?c) i = Some q" using assms by auto
    then show ?case using u 4(2) unfolding untouched_def drop_list_def by blast
  qed (use u assms in \<open>auto simp: untouched_def drop_list_def\<close>)
qed

lemma set_theme_frame:
  assumes "th_QuestionListID t \<noteq> lid" and "\<And>t0. fmlookup (c_themes c) (th_ID t) = Some t0 \<Longrightarrow> th_QuestionListID t0 \<noteq> lid"
  shows "untouched c (set_theme t c) lid"
proof (rule untouchedI, goal_cases)
  case (2 i h)
  then show ?case using assms by (auto simp: set_theme_def)
qed (auto simp: set_theme_def fmlookup_iff_dom)

lemma step_untouched:
  assumes "catalog_step lower a c c'" and "\<not> editable a c lid" and "lid |\<in>| fmdom (c_lists c)" and "lid \<noteq> ''''"
  shows "untouched c c' lid"
  using assms(1)
proof cases
  case no_change
  then show ?thesis by (simp add: untouched_refl)
next
  case (new_list l)
  then have "ql_ID l \<noteq> lid" using assms(3) by auto
  then show ?thesis by (intro untouchedI) (auto simp: new_list(1) set_list_def fmlookup_iff_dom)
next
  case (edit_list lid0 l name t description)
  then have "lid0 \<noteq> lid" using assms(2) by (auto simp: editable_iff)
  then show ?thesis using edit_list by (intro untouchedI) (auto simp: set_list_def fmlookup_iff_dom)
next
  case (remove_list lid0)
  then show ?thesis using drop_list_frame[of lid lid0] assms(2) by auto
next
  case (new_question q ids)
  then have "qr_QuestionListID q \<noteq> lid" using assms(2) by auto
  then show ?thesis using new_question by (intro untouchedI) (auto simp: set_question_def fmlookup_iff_dom split: if_splits)
next
  case (edit_question qid q0 q)
  then have "qr_QuestionListID q \<noteq> lid" using assms(2) by auto
  then show ?thesis using edit_question by (intro untouchedI) (auto simp: set_question_def fmlookup_iff_dom split: if_splits)
next
  case (remove_question qid q ids)
  then have "lid \<noteq> qr_QuestionListID q" using assms(2) by auto
  then show ?thesis using untouched_drop_question[OF remove_question(2) _ positioned_frame] remove_question(1) by metis
next
  case (reorder lid0 old ids)
  then show ?thesis using positioned_frame[of lid lid0] assms(2) by auto
next
  case (new_theme t)
  then have "th_QuestionListID t \<noteq> lid" using assms(2,4) by (auto simp: may_edit_scope_def)
  then show ?thesis using new_theme(1,2) set_theme_frame[of t lid c] by (simp add: fmdom_notD)
next
  case (edit_theme tid t0 t)
  then have "th_QuestionListID t \<noteq> lid" using assms(2,4) by (auto simp: may_edit_scope_def)
  then show ?thesis using edit_theme(1,2,5,6) set_theme_frame[of t lid c] by simp
next
  case (remove_theme tid t)
  then have "th_QuestionListID t \<noteq> lid" using assms(2,4) by (auto simp: may_edit_scope_def)
  then show ?thesis unfolding remove_theme(1) by (intro no_theme_frame) (use remove_theme(2) in \<open>auto simp: fmlookup_iff_dom\<close>)
qed

lemma step_global:
  assumes "catalog_step lower a c c'" and "da_Type a \<noteq> ActorTypeAdmin"
  shows "global_untouched c c'"
  using assms(1)
proof cases
  case (new_theme t)
  then have "th_QuestionListID t \<noteq> ''''" using assms(2) by (auto simp: may_edit_scope_def)
  then show ?thesis using new_theme by (auto simp: global_untouched_def set_theme_def fmdom_notD)
next
  case (edit_theme tid t0 t)
  then have "th_QuestionListID t \<noteq> ''''" using assms(2) by (auto simp: may_edit_scope_def)
  then show ?thesis using edit_theme by (auto simp: global_untouched_def set_theme_def)
next
  case (remove_theme tid t)
  then have "th_QuestionListID t \<noteq> ''''" using assms(2) by (auto simp: may_edit_scope_def)
  then show ?thesis using remove_theme by (auto simp: global_untouched_def no_theme_def)
next
  case (remove_list lid)
  then show ?thesis by (auto simp: global_untouched_def drop_list_def no_theme_def split: option.splits)
qed (auto simp: global_untouched_def set_list_def set_question_def positioned_def drop_question_def)

lemma step_new_list:
  assumes "catalog_step lower a c c'" and "fmlookup (c_lists c') i = Some l" and "i |\<notin>| fmdom (c_lists c)"
  shows "ql_OwnerType l = da_Type a \<and> (ql_Visibility l = ListVisibilityPublic \<longrightarrow> da_Type a = ActorTypeAdmin) \<and>
    (ql_Visibility l = ListVisibilityPrivate \<longrightarrow> da_Type a = ActorTypeUser)"
  using assms(1)
proof cases
  case (new_list l0)
  then have "l = l0" using assms(2,3) by (auto simp: set_list_def fmdom_notD split: if_splits)
  then show ?thesis using new_list by (auto simp: list_ok_def ListVisibilityPublic_def ListVisibilityPrivate_def)
next
  case (edit_list lid l0 name t description)
  then show ?thesis using assms(2,3) by (auto simp: set_list_def fmlookup_iff_dom split: if_splits)
qed (use assms(2,3) in \<open>auto simp: set_question_def set_theme_def drop_list_def no_theme_def
      positioned_def drop_question_def fmlookup_iff_dom split: if_splits\<close>)

end
