(* ===== verification/Catalog_Runs.thy ===== *)
theory Catalog_Runs
  imports Catalog_Steps Catalog_Invariant
begin

text \<open>
  What the calls and the handlers do on a store that is up: they succeed, and their effect and their
  response are determined by the rows.
\<close>

text \<open>The question that \<open>AddQuestion\<close> makes of its request.\<close>

definition new_question :: "string \<Rightarrow> string \<Rightarrow> nat \<Rightarrow> questionRequest \<Rightarrow> OptionRecord list \<Rightarrow> QuestionRecord" where
  "new_question qid lid n req opts = \<lparr>qr_ID = qid, qr_QuestionListID = lid, qr_Text = qq_Text req, qr_Options = opts,
     qr_CorrectOptionID = qq_CorrectOptionID req, qr_OrderIndex = int n, qr_ThemeID = qq_ThemeID req, qr_Theme = None\<rparr>"

text \<open>The questions of a list as a client reads them.\<close>

definition listed :: "catalog \<Rightarrow> string list \<Rightarrow> QuestionRecord list" where
  "listed c ids = map (\<lambda>i. with_theme c (the (fmlookup (c_questions c) i))) ids"

lemma length_listed [simp]: "length (listed c ids) = length ids"
  by (simp add: listed_def)

context catalog_store begin

lemma up_call:
  assumes "up st" and "obeys ok cat sp st m" and "serves up pre st m" and pre
  obtains st1 r where "m = (st1, r)" and "up st1" and "r \<noteq> Inl ErrDB" and "sp (cat st) (cat st1) r"
proof -
  obtain st1 r where m: "m = (st1, r)" by fastforce
  show thesis using assms up_ok[OF assms(1)] by (intro that[OF m]) (auto simp: obeys_def serves_def m)
qed

lemma get_list_up:
  assumes "up st" "fmlookup (c_lists (cat st)) lid = Some l" "text_ok lid"
  obtains st1 where "qs_GetQuestionList Q lid st = (st1, Inr l)" and "up st1" and "cat st1 = cat st"
  by (rule up_call[OF assms(1) get_list, of lid])
    (use assms that in \<open>auto simp: get_list_spec_def reads_def fmlookup_iff_dom\<close>)

lemma list_questions_up:
  assumes "up st" "numbered (cat st) lid ids" "text_ok lid"
  obtains st1 where "qs_ListQuestions Q lid st = (st1, Inr (listed (cat st) ids))" and "up st1" and "cat st1 = cat st"
proof (rule up_call[OF assms(1) list_questions, of lid])
  fix st1 r
  assume m: "qs_ListQuestions Q lid st = (st1, r)" "up st1" "list_questions_spec lid (cat st) (cat st1) r"
  then obtain ids' where "in_order (cat st) lid ids'" "r = Inr (listed (cat st) ids')" "cat st1 = cat st"
    by (auto simp: list_questions_spec_def reads_def listed_def)
  then show thesis using m(1,2) in_order_unique[OF assms(2)] that by auto
qed (use assms in simp)

lemma get_question_up:
  assumes "up st" "fmlookup (c_questions (cat st)) qid = Some q" "text_ok qid"
  obtains st1 where "qs_GetQuestion Q qid st = (st1, Inr (with_theme (cat st) q))" and "up st1" and "cat st1 = cat st"
  by (rule up_call[OF assms(1) get_question, of qid]) (use assms that in \<open>auto simp: get_question_spec_def reads_def\<close>)

lemma reorder_up:
  assumes "up st" "distinct ids" "list_all text_ok (lid # ids)"
  obtains st1 where "qs_ReorderQuestions Q lid ids st = (st1, Inr ())" and "up st1" and "cat st1 = positioned lid ids (cat st)"
  by (rule up_call[OF assms(1) reorder(1)[OF assms(2)] reorder(2)[OF assms(2)], of lid])
    (use assms that in \<open>auto simp: reorder_spec_def writes_def\<close>)

lemma delete_question_up:
  assumes "up st" "fmlookup (c_questions (cat st)) qid = Some q" "text_ok qid" and n: "numbered (cat st) (qr_QuestionListID q) ids"
  obtains st1 where "qs_DeleteQuestion Q qid st = (st1, Inr ())" and "up st1"
    and "cat st1 = positioned (qr_QuestionListID q) (removeAll qid ids) (drop_question qid (cat st))"
proof (rule up_call[OF assms(1) delete_question, of qid])
  fix st1 r
  let ?lid = "qr_QuestionListID q" and ?c = "drop_question qid (cat st)"
  assume m: "qs_DeleteQuestion Q qid st = (st1, r)" "up st1" "delete_question_spec qid (cat st) (cat st1) r"
  then obtain ids' where o: "in_order ?c ?lid ids'" and c': "r = Inr ()" "cat st1 = positioned ?lid ids' ?c"
    using assms(2) by (auto simp: delete_question_spec_def writes_def)
  let ?f = "\<lambda>i. qr_OrderIndex (the (fmlookup (c_questions ?c) i))"
  have pos: "position (cat st) ?lid i \<noteq> None \<longleftrightarrow> i \<in> set ids" for i
    using n by (simp add: numbered_position)
  have s: "set ids' = set (removeAll qid ids)"
    using o pos unfolding in_order_def position_listed by (auto simp: position_drop_question split: if_splits)
  have same: "?f i = qr_OrderIndex (the (fmlookup (c_questions (cat st)) i))" if "i \<noteq> qid" for i
    using that by (simp add: drop_question_def)
  have "sorted (map (\<lambda>i. qr_OrderIndex (the (fmlookup (c_questions (cat st)) i))) ids)"
    using numbered_in_order[OF n] by (simp add: in_order_def)
  then have "sorted (map (\<lambda>i. qr_OrderIndex (the (fmlookup (c_questions (cat st)) i))) (removeAll qid ids))"
    unfolding removeAll_filter_not_eq by (rule sorted_filter)
  also have "map (\<lambda>i. qr_OrderIndex (the (fmlookup (c_questions (cat st)) i))) (removeAll qid ids) = map ?f (removeAll qid ids)"
    using same by (intro map_cong) auto
  finally have sorted: "sorted (map ?f (removeAll qid ids))" .
  have "distinct (map (\<lambda>i. qr_OrderIndex (the (fmlookup (c_questions (cat st)) i))) ids)"
    using numbered_order[OF n] by (simp add: distinct_map)
  then have inj: "inj_on ?f (set (removeAll qid ids))"
    using same by (auto simp: distinct_map inj_on_def)
  have d: "distinct (removeAll qid ids)" using n by (simp add: numbered_def distinct_removeAll)
  have "ids' = removeAll qid ids"
  proof (rule map_sorted_distinct_set_unique[of ?f])
    show "distinct (map ?f ids')" "distinct (map ?f (removeAll qid ids))"
      using o d inj s by (simp_all add: in_order_def distinct_map)
    show "inj_on ?f (set ids' \<union> set (removeAll qid ids))" using inj s by simp
    show "sorted (map ?f ids')" using o by (simp add: in_order_def)
  qed (use s sorted in simp_all)
  then show thesis using m(1,2) c' that by simp
qed (use assms in simp)

lemma create_question_up:
  assumes "up st" and "qr_ID q |\<notin>| fmdom (c_questions (cat st))" "qr_QuestionListID q |\<in>| fmdom (c_lists (cat st))"
    "theme_exists (cat st) (qr_ThemeID q)" "list_all text_ok (question_texts q)" "0 \<le> qr_OrderIndex q" "qr_OrderIndex q < 2 ^ 31"
  obtains st1 where "qs_CreateQuestion Q q st = (st1, Inr ())" and "up st1" and "cat st1 = set_question q (cat st)"
  by (rule up_call[OF assms(1) create_question, of q])
    (use assms that in \<open>auto simp: create_question_spec_def writes_def\<close>)

lemma get_theme_up:
  assumes "up st" "fmlookup (c_themes (cat st)) tid = Some t" "text_ok tid"
  obtains st1 where "ts_GetTheme T tid st = (st1, Inr t)" and "up st1" and "cat st1 = cat st"
  by (rule up_call[OF assms(1) get_theme, of tid]) (use assms that in \<open>auto simp: get_theme_spec_def reads_def\<close>)

end

section \<open>The handlers\<close>

context catalog_store begin

lemma editable_up:
  assumes "up st" "fmlookup (c_lists (cat st)) lid = Some l" "canEditList (extractActor (cx_Actor cx)) l" "text_ok lid"
  obtains st1 where "loadEditableList (qlHandler Q T) cx lid st = (st1, Inr l)" and "up st1" and "cat st1 = cat st" and "ql_ID l = lid"
proof -
  obtain st1 where "qs_GetQuestionList Q lid st = (st1, Inr l)" "up st1" "cat st1 = cat st"
    using get_list_up[OF assms(1,2,4)] .
  then show thesis using assms lookup_list_ID[OF up_ok[OF assms(1)] refl assms(2)]
    by (intro that[of st1]) (simp_all add: loadEditableList_def)
qed

lemma listed_perm:
  assumes "up st" "numbered (cat st) lid ids"
  shows "isPermutation new (listed (cat st) ids) \<longleftrightarrow> mset new = mset ids"
proof -
  have "map qr_ID (listed (cat st) ids) = ids"
    unfolding listed_def by (rule listed_ids[OF rows[OF up_ok[OF assms(1)]] numbered_in_order[OF assms(2)]])
  then show ?thesis using isPermutation_iff[of "listed (cat st) ids" new] assms(2) by (simp add: numbered_def)
qed

lemma reorder_runs:
  assumes u: "up st" and l: "fmlookup (c_lists (cat st)) lid = Some l" "canEditList (extractActor (cx_Actor cx)) l"
    and n: "numbered (cat st) lid ids" and texts: "list_all text_ok (lid # ids)" and perm: "mset new = mset ids"
  obtains st' where "QL_ReorderQuestions (qlHandler Q T) cx lid (Some new) st =
      (st', writeJSON 200 (questions_json (listed (positioned lid new (cat st)) new)))"
    and "up st'" and "cat st' = positioned lid new (cat st)" and "numbered (cat st') lid new"
proof -
  have t: "text_ok lid" using texts by simp
  have d: "distinct new" using perm n mset_eq_imp_distinct_iff by (auto simp: numbered_def)
  have tn: "list_all text_ok (lid # new)" using texts mset_eq_setD[OF perm] by (simp add: list_all_iff)
  obtain st1 where 1: "loadEditableList (qlHandler Q T) cx lid st = (st1, Inr l)" "up st1" "cat st1 = cat st" "ql_ID l = lid"
    using editable_up[OF u l t] .
  obtain st2 where 2: "qs_ListQuestions Q lid st1 = (st2, Inr (listed (cat st) ids))" "up st2" "cat st2 = cat st"
    using list_questions_up[OF 1(2) _ t] n 1(3) by metis
  obtain st3 where 3: "qs_ReorderQuestions Q lid new st2 = (st3, Inr ())" "up st3" "cat st3 = positioned lid new (cat st)"
    using reorder_up[OF 2(2) d tn] 2(3) by metis
  have n3: "numbered (cat st3) lid new"
    unfolding 3(3) using n mset_eq_setD[OF perm] by (intro numbered_positioned[OF d]) (simp add: numbered_position)
  obtain st4 where 4: "qs_ListQuestions Q lid st3 = (st4, Inr (listed (cat st3) new))" "up st4" "cat st4 = cat st3"
    using list_questions_up[OF 3(2) n3 t] .
  have p: "isPermutation new (listed (cat st) ids)" using listed_perm[OF u n] perm by simp
  have "QL_ReorderQuestions (qlHandler Q T) cx lid (Some new) st =
      (st4, writeJSON 200 (questions_json (listed (positioned lid new (cat st)) new)))"
    unfolding QL_ReorderQuestions_def by (simp add: 1 2 3 4 p)
  then show thesis using 3(3) 4(2,3) n3 that by metis
qed

lemma reorder_refused:
  assumes u: "up st" and l: "fmlookup (c_lists (cat st)) lid = Some l" "canEditList (extractActor (cx_Actor cx)) l"
    and n: "numbered (cat st) lid ids" and t: "text_ok lid" and perm: "mset new \<noteq> mset ids"
  obtains st' where "QL_ReorderQuestions (qlHandler Q T) cx lid (Some new) st =
      (st', writeErrorCode 400 ''invalid_order'' ''question_ids must list every question of the list exactly once'')"
    and "up st'" and "cat st' = cat st"
proof -
  obtain st1 where 1: "loadEditableList (qlHandler Q T) cx lid st = (st1, Inr l)" "up st1" "cat st1 = cat st" "ql_ID l = lid"
    using editable_up[OF u l t] .
  obtain st2 where 2: "qs_ListQuestions Q lid st1 = (st2, Inr (listed (cat st) ids))" "up st2" "cat st2 = cat st"
    using list_questions_up[OF 1(2) _ t] n 1(3) by metis
  have p: "\<not> isPermutation new (listed (cat st) ids)" using listed_perm[OF u n] perm by simp
  show thesis
    by (rule that[OF _ 2(2,3)], unfold QL_ReorderQuestions_def) (simp add: 1 2 p)
qed

lemma loadQuestion_up:
  assumes "up st" "fmlookup (c_questions (cat st)) qid = Some q" "qr_QuestionListID q = lid" "text_ok qid"
  obtains st1 where "loadQuestion (qlHandler Q T) lid qid st = (st1, Inr (with_theme (cat st) q))" and "up st1" and "cat st1 = cat st"
proof -
  obtain st1 where "qs_GetQuestion Q qid st = (st1, Inr (with_theme (cat st) q))" "up st1" "cat st1 = cat st"
    using get_question_up[OF assms(1,2,4)] .
  then show thesis using assms(3) by (intro that[of st1]) (simp_all add: loadQuestion_def with_theme_def)
qed

lemma delete_runs:
  assumes u: "up st" and l: "fmlookup (c_lists (cat st)) lid = Some l" "canEditList (extractActor (cx_Actor cx)) l"
    and n: "numbered (cat st) lid ids" and texts: "text_ok lid" "text_ok qid" and q: "qid \<in> set ids"
  obtains st' where "QL_DeleteQuestion (qlHandler Q T) cx lid qid st = (st', noContent)" and "up st'"
    and "cat st' = positioned lid (removeAll qid ids) (drop_question qid (cat st))"
    and "numbered (cat st') lid (removeAll qid ids)"
proof -
  obtain q0 where q0: "fmlookup (c_questions (cat st)) qid = Some q0" "qr_QuestionListID q0 = lid"
    using n q by (auto simp: numbered_def)
  obtain st1 where 1: "loadEditableList (qlHandler Q T) cx lid st = (st1, Inr l)" "up st1" "cat st1 = cat st" "ql_ID l = lid"
    using editable_up[OF u l texts(1)] .
  obtain st2 where 2: "loadQuestion (qlHandler Q T) lid qid st1 = (st2, Inr (with_theme (cat st) q0))" "up st2" "cat st2 = cat st"
    using loadQuestion_up[OF 1(2) _ q0(2) texts(2)] q0(1) 1(3) by metis
  have id: "qr_ID (with_theme (cat st) q0) = qid"
    using rows[OF up_ok[OF u]] q0(1) by (simp add: rows_ok_def with_theme_def)
  let ?c = "positioned lid (removeAll qid ids) (drop_question qid (cat st))"
  obtain st3 where 3: "qs_DeleteQuestion Q qid st2 = (st3, Inr ())" "up st3" "cat st3 = ?c"
    using delete_question_up[OF 2(2), of qid q0 ids] q0 n texts(2) 2(3) by metis
  have "numbered ?c lid (removeAll qid ids)"
    using n by (intro numbered_positioned) (auto simp: numbered_position position_drop_question distinct_removeAll)
  then show thesis
    by (intro that[of st3]) (simp_all add: QL_DeleteQuestion_def 1 2 3 id)
qed

lemma checkTheme_up:
  assumes "up st" "theme_usable (cat st) lid tid" "text_ok tid"
  obtains st1 where "checkTheme (qlHandler Q T) tid lid st = (st1, Inr ())" and "up st1" and "cat st1 = cat st"
proof (cases "tid = ''''")
  case True
  then show thesis using assms(1) by (intro that[of st]) (simp_all add: checkTheme_def)
next
  case False
  then obtain t where t: "fmlookup (c_themes (cat st)) tid = Some t" "th_QuestionListID t \<in> {'''', lid}"
    using assms(2) by (auto simp: theme_usable_def)
  obtain st1 where "ts_GetTheme T tid st = (st1, Inr t)" "up st1" "cat st1 = cat st"
    using get_theme_up[OF assms(1) t(1) assms(3)] .
  then show thesis using False t(2) by (intro that[of st1]) (auto simp: checkTheme_def)
qed

lemma add_runs:
  assumes u: "up st" and l: "fmlookup (c_lists (cat st)) lid = Some l" "canEditList (extractActor (cx_Actor cx)) l"
    and n: "numbered (cat st) lid ids" and d: "decodeQuestion (cx_uuid cx) body = Inr (req, opts, k)"
    and fresh: "cx_uuid cx k |\<notin>| fmdom (c_questions (cat st))"
    and theme: "theme_usable (cat st) lid (qq_ThemeID req)"
    and texts: "list_all text_ok (question_texts (new_question (cx_uuid cx k) lid (length ids) req opts))"
    and few: "length ids < 2 ^ 31"
  obtains st' where "QL_AddQuestion (qlHandler Q T) cx lid body st =
      (st', writeJSON 201 (JObj [(''question_id'', JStr (cx_uuid cx k))]))" and "up st'"
    and "cat st' = set_question (new_question (cx_uuid cx k) lid (length ids) req opts) (cat st)"
    and "numbered (cat st') lid (ids @ [cx_uuid cx k])"
proof -
  let ?q = "new_question (cx_uuid cx k) lid (length ids) req opts"
  have t: "text_ok lid" "text_ok (qq_ThemeID req)" using texts by (simp_all add: question_texts_def new_question_def)
  obtain st1 where 1: "loadEditableList (qlHandler Q T) cx lid st = (st1, Inr l)" "up st1" "cat st1 = cat st" "ql_ID l = lid"
    using editable_up[OF u l t(1)] .
  obtain st2 where 2: "checkTheme (qlHandler Q T) (qq_ThemeID req) lid st1 = (st2, Inr ())" "up st2" "cat st2 = cat st"
    using checkTheme_up[OF 1(2) _ t(2), of lid] theme 1(3) by metis
  obtain st3 where 3: "qs_ListQuestions Q lid st2 = (st3, Inr (listed (cat st) ids))" "up st3" "cat st3 = cat st"
    using list_questions_up[OF 2(2) _ t(1)] n 2(3) by metis
  have "int (length ids) < 2 ^ 31" using few by simp
  then have q: "qr_ID ?q |\<notin>| fmdom (c_questions (cat st))" "qr_QuestionListID ?q |\<in>| fmdom (c_lists (cat st))"
    "theme_exists (cat st) (qr_ThemeID ?q)" "0 \<le> qr_OrderIndex ?q" "qr_OrderIndex ?q < 2 ^ 31"
    using fresh l(1) theme by (auto simp: new_question_def theme_exists_def theme_usable_def fmlookup_iff_dom)
  obtain st4 where 4: "qs_CreateQuestion Q ?q st3 = (st4, Inr ())" "up st4" "cat st4 = set_question ?q (cat st)"
    using create_question_up[of st3 ?q] 3(2,3) q texts by metis
  have "position (cat st) lid (cx_uuid cx k) = None" using fresh by (simp add: position_def fmdom_notD)
  then have "numbered (set_question ?q (cat st)) lid (ids @ [cx_uuid cx k])"
    using n by (auto simp: numbered_position position_set_question new_question_def nth_append less_Suc_eq)
  then show thesis
    using 4(2,3) by (intro that[of st4]) (simp_all add: QL_AddQuestion_def 1 d 2 3 4(1)[unfolded new_question_def] Let_def)
qed

lemma list_runs:
  assumes u: "up st" and l: "fmlookup (c_lists (cat st)) lid = Some l" "canEditList (extractActor (cx_Actor cx)) l"
    "canReadList (extractActor (cx_Actor cx)) l"
    and n: "numbered (cat st) lid ids" and t: "text_ok lid"
  obtains st' where "QL_ListQuestions (qlHandler Q T) cx lid None st = (st', writeJSON 200 (questions_json (listed (cat st) ids)))"
    and "up st'" and "cat st' = cat st"
proof -
  obtain st1 where 1: "qs_GetQuestionList Q lid st = (st1, Inr l)" "up st1" "cat st1 = cat st"
    using get_list_up[OF u l(1) t] .
  obtain st2 where 2: "qs_ListQuestions Q lid st1 = (st2, Inr (listed (cat st) ids))" "up st2" "cat st2 = cat st"
    using list_questions_up[OF 1(2) _ t] n 1(3) by metis
  have shown: "shown_questions None True qs = qs" for qs by (induction qs) simp_all
  show thesis
    by (rule that[OF _ 2(2,3)], unfold QL_ListQuestions_def loadReadableList_def require_def) (simp add: 1 2 l shown)
qed

lemma listed_set_question:
  assumes "qr_ID q \<notin> set ids" and "qr_Theme q = None"
  shows "listed (set_question q c) (ids @ [qr_ID q]) = listed c ids @ [with_theme c q]"
  using assms by (auto simp: listed_def set_question_def with_theme_def)

end

end
