(* ===== verification/Postgres.thy ===== *)
theory Postgres
  imports Catalog_Store
begin

text \<open>
  The catalog on PostgreSQL, \<open>internal/postgres/postgres.go\<close> and \<open>internal/postgres/themes.go\<close>: every
  statement with its effect on the tables that the files of \<open>migrations/\<close> create, their keys, unique
  indexes, checks and references included.

  The server and the driver are not part of the repository. What the code leaves to them is the
  connection: whether a request is delivered, lost, or executed with its reply lost; the server's
  clock; the order in which it reads the rows of a table; which of several matching rows an
  \<open>UPDATE ... FROM\<close> uses; \<open>lower\<close> and the collation. The server refuses a text with a zero byte. The
  tables have fewer than \<open>2 ^ 31\<close> rows.
\<close>

section \<open>Tables\<close>

record game_row =
  gw_owner :: string
  gw_list :: "string option"
  gw_status :: string
  gw_created :: time
  gw_updated :: time

record player_row =
  pw_game :: string
  pw_name :: string
  pw_lives :: int
  pw_active :: bool
  pw_created :: time

record list_row =
  lw_name :: string
  lw_description :: string
  lw_visibility :: string
  lw_owner_type :: string
  lw_owner_id :: string
  lw_created :: time
  lw_updated :: time

record question_row =
  qw_list :: string
  qw_text :: string
  qw_options :: "OptionRecord list"
  qw_correct :: string
  qw_order :: int
  qw_theme :: "string option"
  qw_created :: time

record theme_row =
  tw_list :: "string option"
  tw_name :: string
  tw_description :: string
  tw_created :: time
  tw_updated :: time

record tables =
  t_games :: "(string, game_row) fmap"
  t_players :: "(string, player_row) fmap"
  t_lists :: "(string, list_row) fmap"
  t_questions :: "(string, question_row) fmap"
  t_themes :: "(string, theme_row) fmap"

text \<open>A \<open>TIMESTAMPTZ\<close> keeps microseconds, an \<open>INT\<close> 32 bits.\<close>

definition micros :: "time \<Rightarrow> time" where
  "micros t = 1000 * (t div 1000)"

definition int4 :: "int \<Rightarrow> bool" where
  "int4 i \<longleftrightarrow> - (2 ^ 31) \<le> i \<and> i < 2 ^ 31"

definition coalesce :: "string option \<Rightarrow> string" where
  "coalesce x = (case x of None \<Rightarrow> '''' | Some s \<Rightarrow> s)"

definition nullableText :: "string \<Rightarrow> string option" where
  "nullableText s = (if s = '''' then None else Some s)"

definition references :: "string option \<Rightarrow> (string, 'r) fmap \<Rightarrow> bool" where
  "references x tab \<longleftrightarrow> (case x of None \<Rightarrow> True | Some i \<Rightarrow> i |\<in>| fmdom tab)"

section \<open>The connection\<close>

record 'n pgconn =
  pc_send :: "'n \<Rightarrow> 'n \<times> delivery"
  pc_now :: "'n \<Rightarrow> time"
  pc_scan :: "'n \<Rightarrow> string list \<Rightarrow> string list"
  pc_pick :: "'n \<Rightarrow> nat list \<Rightarrow> nat"
  pc_lower :: "string \<Rightarrow> string"
  pc_rank :: "string \<Rightarrow> string"

record 'n pgstate =
  pg_tables :: tables
  pg_net :: 'n

datatype pg_error = NoRows | UniqueViolation | OtherError

definition text_param :: "string \<Rightarrow> bool" where
  "text_param s \<longleftrightarrow> CHR 0x00 \<notin> set s"

text \<open>One statement outside a transaction: it has its whole effect, or fails and has none.\<close>

definition query :: "'n pgconn \<Rightarrow> string list \<Rightarrow> ('n \<Rightarrow> tables \<Rightarrow> pg_error + tables \<times> 'a) \<Rightarrow> 'n pgstate \<Rightarrow> 'n pgstate \<times> (pg_error + 'a)" where
  "query L texts f st =
     (let (n, d) = pc_send L (pg_net st);
          r = (if list_all text_param texts then f (pg_net st) (pg_tables st) else Inl OtherError);
          t = (case r of Inl e \<Rightarrow> pg_tables st | Inr (t, x) \<Rightarrow> t)
      in case d of
           Delivered \<Rightarrow> (st\<lparr>pg_tables := t, pg_net := n\<rparr>, map_sum id snd r)
         | LostRequest \<Rightarrow> (st\<lparr>pg_net := n\<rparr>, Inl OtherError)
         | LostReply \<Rightarrow> (st\<lparr>pg_tables := t, pg_net := n\<rparr>, Inl OtherError))"

text \<open>What the Go function makes of the result.\<close>

definition returning :: "(pg_error \<Rightarrow> store_error) \<Rightarrow> ('a \<Rightarrow> store_error + 'b) \<Rightarrow> 's \<times> (pg_error + 'a) \<Rightarrow> 's \<times> (store_error + 'b)" where
  "returning m g out = (fst out, case snd out of Inl e \<Rightarrow> Inl (m e) | Inr x \<Rightarrow> g x)"

definition mapError :: "pg_error \<Rightarrow> store_error" where
  "mapError e = (case e of NoRows \<Rightarrow> ErrNotFound | UniqueViolation \<Rightarrow> ErrConflict | OtherError \<Rightarrow> ErrDB)"

definition wrapped :: "pg_error \<Rightarrow> store_error" where
  "wrapped e = ErrDB"

definition found :: "nat \<Rightarrow> store_error + unit" where
  "found rows = (if rows = 0 then Inl ErrNotFound else Inr ())"

text \<open>The IDs of the rows that satisfy a condition, in the order in which the server reads them.\<close>

definition ids_where :: "'n pgconn \<Rightarrow> 'n \<Rightarrow> (string, 'r) fmap \<Rightarrow> ('r \<Rightarrow> bool) \<Rightarrow> string list" where
  "ids_where L n tab P = filter (\<lambda>i. P (the (fmlookup tab i))) (pc_scan L n (sorted_keys tab))"

definition update_row :: "string \<Rightarrow> ('r \<Rightarrow> 'r) \<Rightarrow> (string, 'r) fmap \<Rightarrow> (string, 'r) fmap \<times> nat" where
  "update_row i f tab = (case fmlookup tab i of None \<Rightarrow> (tab, 0) | Some r \<Rightarrow> (fmupd i (f r) tab, 1))"

section \<open>Games and players\<close>

definition db_CreateGame :: "'n pgconn \<Rightarrow> GameRecord \<Rightarrow> 'n pgstate \<Rightarrow> 'n pgstate \<times> (store_error + unit)" where
  "db_CreateGame L g = returning wrapped Inr \<circ> query L [gr_ID g, gr_OwnerID g, gr_QuestionListID g, gr_Status g] (\<lambda>n t.
     if gr_ID g |\<in>| fmdom (t_games t) then Inl UniqueViolation
     else if \<not> references (nullableText (gr_QuestionListID g)) (t_lists t) then Inl OtherError
     else Inr (t\<lparr>t_games := fmupd (gr_ID g)
       \<lparr>gw_owner = gr_OwnerID g, gw_list = nullableText (gr_QuestionListID g), gw_status = gr_Status g,
        gw_created = micros (gr_CreatedAt g), gw_updated = micros (gr_UpdatedAt g)\<rparr> (t_games t)\<rparr>, ()))"

definition scan_game :: "string \<Rightarrow> game_row \<Rightarrow> GameRecord" where
  "scan_game i r = \<lparr>gr_ID = i, gr_OwnerID = gw_owner r, gr_QuestionListID = coalesce (gw_list r), gr_Status = gw_status r,
     gr_CreatedAt = gw_created r, gr_UpdatedAt = gw_updated r\<rparr>"

definition query_row :: "'n pgconn \<Rightarrow> (tables \<Rightarrow> (string, 'r) fmap) \<Rightarrow> string \<Rightarrow> 'n pgstate \<Rightarrow> 'n pgstate \<times> (pg_error + 'r)" where
  "query_row L tab i = query L [i] (\<lambda>n t. case fmlookup (tab t) i of None \<Rightarrow> Inl NoRows | Some r \<Rightarrow> Inr (t, r))"

definition db_GetGame :: "'n pgconn \<Rightarrow> string \<Rightarrow> 'n pgstate \<Rightarrow> 'n pgstate \<times> (store_error + GameRecord)" where
  "db_GetGame L i = returning wrapped (Inr \<circ> scan_game i) \<circ> query_row L t_games i"

definition db_UpdateGameStatus :: "'n pgconn \<Rightarrow> string \<Rightarrow> string \<Rightarrow> 'n pgstate \<Rightarrow> 'n pgstate \<times> (store_error + unit)" where
  "db_UpdateGameStatus L i status = returning wrapped Inr \<circ> query L [status, i] (\<lambda>n t.
     Inr (t\<lparr>t_games := fst (update_row i (\<lambda>r. r\<lparr>gw_status := status, gw_updated := micros (pc_now L n)\<rparr>) (t_games t))\<rparr>, ()))"

definition db_CreatePlayer :: "'n pgconn \<Rightarrow> PlayerRecord \<Rightarrow> 'n pgstate \<Rightarrow> 'n pgstate \<times> (store_error + unit)" where
  "db_CreatePlayer L p st = (if \<not> int4 (pr_Lives p) then (st, Inl ErrDB)
     else returning wrapped Inr (query L [pr_ID p, pr_GameID p, pr_Name p] (\<lambda>n t.
       if pr_ID p |\<in>| fmdom (t_players t) then Inl UniqueViolation
       else if pr_GameID p |\<notin>| fmdom (t_games t) then Inl OtherError
       else Inr (t\<lparr>t_players := fmupd (pr_ID p)
         \<lparr>pw_game = pr_GameID p, pw_name = pr_Name p, pw_lives = pr_Lives p, pw_active = pr_Active p,
          pw_created = micros (pr_CreatedAt p)\<rparr> (t_players t)\<rparr>, ())) st))"

definition scan_player :: "string \<Rightarrow> player_row \<Rightarrow> PlayerRecord" where
  "scan_player i r = \<lparr>pr_ID = i, pr_GameID = pw_game r, pr_Name = pw_name r, pr_Lives = pw_lives r,
     pr_Active = pw_active r, pr_CreatedAt = pw_created r\<rparr>"

definition db_GetPlayer :: "'n pgconn \<Rightarrow> string \<Rightarrow> 'n pgstate \<Rightarrow> 'n pgstate \<times> (store_error + PlayerRecord)" where
  "db_GetPlayer L i = returning wrapped (Inr \<circ> scan_player i) \<circ> query_row L t_players i"

definition db_ListPlayers :: "'n pgconn \<Rightarrow> string \<Rightarrow> 'n pgstate \<Rightarrow> 'n pgstate \<times> (store_error + PlayerRecord list)" where
  "db_ListPlayers L gid = returning wrapped Inr \<circ> query L [gid] (\<lambda>n t.
     Inr (t, map (\<lambda>i. scan_player i (the (fmlookup (t_players t) i))) (ids_where L n (t_players t) (\<lambda>r. pw_game r = gid))))"

definition db_UpdatePlayerLives :: "'n pgconn \<Rightarrow> string \<Rightarrow> int \<Rightarrow> bool \<Rightarrow> 'n pgstate \<Rightarrow> 'n pgstate \<times> (store_error + unit)" where
  "db_UpdatePlayerLives L i lives active st = (if \<not> int4 lives then (st, Inl ErrDB)
     else returning wrapped Inr (query L [i] (\<lambda>n t.
       Inr (t\<lparr>t_players := fst (update_row i (\<lambda>r. r\<lparr>pw_lives := lives, pw_active := active\<rparr>) (t_players t))\<rparr>, ())) st))"

section \<open>Question lists\<close>

definition db_CreateQuestionList :: "'n pgconn \<Rightarrow> QuestionListRecord \<Rightarrow> 'n pgstate \<Rightarrow> 'n pgstate \<times> (store_error + unit)" where
  "db_CreateQuestionList L l = returning wrapped Inr \<circ>
     query L [ql_ID l, ql_Name l, ql_Description l, ql_Visibility l, ql_OwnerType l, ql_OwnerID l] (\<lambda>n t.
       if ql_ID l |\<in>| fmdom (t_lists t) then Inl UniqueViolation
       else if ql_Visibility l \<notin> {''public'', ''private''} \<or> ql_OwnerType l \<notin> {''admin'', ''user''} then Inl OtherError
       else Inr (t\<lparr>t_lists := fmupd (ql_ID l)
         \<lparr>lw_name = ql_Name l, lw_description = ql_Description l, lw_visibility = ql_Visibility l,
          lw_owner_type = ql_OwnerType l, lw_owner_id = ql_OwnerID l,
          lw_created = micros (ql_CreatedAt l), lw_updated = micros (ql_UpdatedAt l)\<rparr> (t_lists t)\<rparr>, ()))"

definition scan_list :: "string \<Rightarrow> list_row \<Rightarrow> QuestionListRecord" where
  "scan_list i r = \<lparr>ql_ID = i, ql_Name = lw_name r, ql_Description = lw_description r, ql_Visibility = lw_visibility r,
     ql_OwnerType = lw_owner_type r, ql_OwnerID = lw_owner_id r, ql_CreatedAt = lw_created r, ql_UpdatedAt = lw_updated r\<rparr>"

definition db_GetQuestionList :: "'n pgconn \<Rightarrow> string \<Rightarrow> 'n pgstate \<Rightarrow> 'n pgstate \<times> (store_error + QuestionListRecord)" where
  "db_GetQuestionList L i = returning wrapped (Inr \<circ> scan_list i) \<circ> query_row L t_lists i"

definition db_UpdateQuestionList :: "'n pgconn \<Rightarrow> QuestionListRecord \<Rightarrow> 'n pgstate \<Rightarrow> 'n pgstate \<times> (store_error + unit)" where
  "db_UpdateQuestionList L l = returning wrapped found \<circ> query L [ql_Name l, ql_Description l, ql_ID l] (\<lambda>n t.
     let (tab, rows) = update_row (ql_ID l) (\<lambda>r. r\<lparr>lw_name := ql_Name l, lw_description := ql_Description l,
           lw_updated := micros (ql_UpdatedAt l)\<rparr>) (t_lists t)
     in Inr (t\<lparr>t_lists := tab\<rparr>, rows))"

text \<open>The references \<open>ON DELETE SET NULL\<close> of questions to themes and of games to lists.\<close>

definition delete_themes :: "(string \<Rightarrow> bool) \<Rightarrow> tables \<Rightarrow> tables" where
  "delete_themes gone t = t\<lparr>
     t_themes := fmfilter (\<lambda>i. \<not> gone i) (t_themes t),
     t_questions := fmmap (\<lambda>r. case qw_theme r of None \<Rightarrow> r | Some i \<Rightarrow> if gone i then r\<lparr>qw_theme := None\<rparr> else r)
       (t_questions t)\<rparr>"

definition delete_list :: "string \<Rightarrow> tables \<Rightarrow> tables" where
  "delete_list lid t = delete_themes (\<lambda>i. case fmlookup (t_themes t) i of None \<Rightarrow> False | Some r \<Rightarrow> tw_list r = Some lid)
     (t\<lparr>t_lists := fmdrop lid (t_lists t),
        t_questions := fmfilter (\<lambda>i. qw_list (the (fmlookup (t_questions t) i)) \<noteq> lid) (t_questions t),
        t_games := fmmap (\<lambda>r. if gw_list r = Some lid then r\<lparr>gw_list := None\<rparr> else r) (t_games t)\<rparr>)"

definition db_DeleteQuestionList :: "'n pgconn \<Rightarrow> string \<Rightarrow> 'n pgstate \<Rightarrow> 'n pgstate \<times> (store_error + unit)" where
  "db_DeleteQuestionList L lid = returning wrapped found \<circ> query L [lid] (\<lambda>n t.
     if lid |\<in>| fmdom (t_lists t) then Inr (delete_list lid t, 1) else Inr (t, 0))"

definition scanQuestionListRows :: "tables \<Rightarrow> string list \<Rightarrow> QuestionListRecord list" where
  "scanQuestionListRows t ids = map (\<lambda>i. scan_list i (the (fmlookup (t_lists t) i))) ids"

definition newest_lists :: "'n pgconn \<Rightarrow> (list_row \<Rightarrow> bool) \<Rightarrow> 'n \<Rightarrow> tables \<Rightarrow> string list" where
  "newest_lists L P n t = sort_key (\<lambda>i. - lw_created (the (fmlookup (t_lists t) i))) (ids_where L n (t_lists t) P)"

definition db_ListPublicQuestionLists :: "'n pgconn \<Rightarrow> 'n pgstate \<Rightarrow> 'n pgstate \<times> (store_error + QuestionListRecord list)" where
  "db_ListPublicQuestionLists L = returning wrapped Inr \<circ> query L [] (\<lambda>n t.
     Inr (t, scanQuestionListRows t (newest_lists L (\<lambda>r. lw_visibility r = ''public'') n t)))"

definition db_ListPrivateQuestionLists :: "'n pgconn \<Rightarrow> string \<Rightarrow> 'n pgstate \<Rightarrow> 'n pgstate \<times> (store_error + QuestionListRecord list)" where
  "db_ListPrivateQuestionLists L oid = returning wrapped Inr \<circ> query L [oid] (\<lambda>n t.
     Inr (t, scanQuestionListRows t (newest_lists L (\<lambda>r. lw_visibility r = ''private'' \<and> lw_owner_id r = oid) n t)))"

section \<open>Questions\<close>

text \<open>The texts that the server reads in the parameters of a question, the JSON of the options included.\<close>

definition option_texts :: "OptionRecord list \<Rightarrow> string list" where
  "option_texts opts = concat (map (\<lambda>opt. [or_ID opt, or_Text opt]) opts)"

definition db_CreateQuestion :: "'n pgconn \<Rightarrow> QuestionRecord \<Rightarrow> 'n pgstate \<Rightarrow> 'n pgstate \<times> (store_error + unit)" where
  "db_CreateQuestion L q st = (if \<not> int4 (qr_OrderIndex q) then (st, Inl ErrDB)
     else returning wrapped Inr (query L
       ([qr_ID q, qr_QuestionListID q, qr_Text q, qr_CorrectOptionID q, qr_ThemeID q] @ option_texts (qr_Options q)) (\<lambda>n t.
       if qr_ID q |\<in>| fmdom (t_questions t) then Inl UniqueViolation
       else if qr_QuestionListID q |\<notin>| fmdom (t_lists t) \<or> \<not> references (nullableText (qr_ThemeID q)) (t_themes t)
       then Inl OtherError
       else Inr (t\<lparr>t_questions := fmupd (qr_ID q)
         \<lparr>qw_list = qr_QuestionListID q, qw_text = qr_Text q, qw_options = qr_Options q, qw_correct = qr_CorrectOptionID q,
          qw_order = qr_OrderIndex q, qw_theme = nullableText (qr_ThemeID q), qw_created = micros (pc_now L n)\<rparr>
         (t_questions t)\<rparr>, ())) st))"

definition db_UpdateQuestion :: "'n pgconn \<Rightarrow> QuestionRecord \<Rightarrow> 'n pgstate \<Rightarrow> 'n pgstate \<times> (store_error + unit)" where
  "db_UpdateQuestion L q = returning wrapped found \<circ> query L
       ([qr_Text q, qr_CorrectOptionID q, qr_ThemeID q, qr_ID q] @ option_texts (qr_Options q)) (\<lambda>n t.
     let (tab, rows) = update_row (qr_ID q) (\<lambda>r. r\<lparr>qw_text := qr_Text q, qw_options := qr_Options q,
           qw_correct := qr_CorrectOptionID q, qw_theme := nullableText (qr_ThemeID q)\<rparr>) (t_questions t)
     in if rows \<noteq> 0 \<and> \<not> references (nullableText (qr_ThemeID q)) (t_themes t) then Inl OtherError
        else Inr (t\<lparr>t_questions := tab\<rparr>, rows))"

text \<open>\<open>row_number() OVER (ORDER BY order_index, created_at) - 1\<close> of the questions of a list.\<close>

definition row_numbers :: "'n pgconn \<Rightarrow> string \<Rightarrow> 'n \<Rightarrow> tables \<Rightarrow> string list" where
  "row_numbers L lid n t = sort_key
     (\<lambda>i. let r = the (fmlookup (t_questions t) i) in (qw_order r, qw_created r))
     (ids_where L n (t_questions t) (\<lambda>r. qw_list r = lid))"

definition renumber :: "string list \<Rightarrow> tables \<Rightarrow> tables" where
  "renumber ids t = t\<lparr>t_questions := fmmap_keys (\<lambda>i r. case index_of ids i of
     Some k \<Rightarrow> r\<lparr>qw_order := k\<rparr> | None \<Rightarrow> r) (t_questions t)\<rparr>"

text \<open>A transaction: its statements see its own changes; a rollback, or a lost commit, undoes them.\<close>

definition rollback :: "'n pgconn \<Rightarrow> tables \<Rightarrow> 'n pgstate \<Rightarrow> 'n pgstate" where
  "rollback L t st = st\<lparr>pg_tables := t, pg_net := fst (pc_send L (pg_net st))\<rparr>"

definition commit :: "'n pgconn \<Rightarrow> tables \<Rightarrow> 'n pgstate \<Rightarrow> 'n pgstate \<times> (store_error + unit)" where
  "commit L t st = (let (n, d) = pc_send L (pg_net st) in case d of
       Delivered \<Rightarrow> (st\<lparr>pg_net := n\<rparr>, Inr ())
     | LostRequest \<Rightarrow> (st\<lparr>pg_tables := t, pg_net := n\<rparr>, Inl ErrDB)
     | LostReply \<Rightarrow> (st\<lparr>pg_net := n\<rparr>, Inl ErrDB))"

definition delete_returning :: "'n pgconn \<Rightarrow> string \<Rightarrow> 'n pgstate \<Rightarrow> 'n pgstate \<times> (pg_error + string)" where
  "delete_returning L qid = query L [qid] (\<lambda>n t. case fmlookup (t_questions t) qid of
     None \<Rightarrow> Inl NoRows | Some r \<Rightarrow> Inr (t\<lparr>t_questions := fmdrop qid (t_questions t)\<rparr>, qw_list r))"

text \<open>The list ID of the second statement is a text that the server has stored.\<close>

definition db_DeleteQuestion :: "'n pgconn \<Rightarrow> string \<Rightarrow> 'n pgstate \<Rightarrow> 'n pgstate \<times> (store_error + unit)" where
  "db_DeleteQuestion L qid st = (let t0 = pg_tables st in
     case query L [] (\<lambda>n t. Inr (t, ())) st of
       (st1, Inl e) \<Rightarrow> (st1, Inl ErrDB)
     | (st1, Inr _) \<Rightarrow> (case delete_returning L qid st1 of
         (st2, Inl e) \<Rightarrow> (rollback L t0 st2, Inl (mapError e))
       | (st2, Inr listID) \<Rightarrow> (case query L [] (\<lambda>n t. Inr (renumber (row_numbers L listID n t) t, ())) st2 of
           (st3, Inl e) \<Rightarrow> (rollback L t0 st3, Inl ErrDB)
         | (st3, Inr _) \<Rightarrow> commit L t0 st3)))"

text \<open>The positions of an ID in \<open>unnest(...) WITH ORDINALITY\<close>, from 1.\<close>

definition ordinalities :: "string list \<Rightarrow> string \<Rightarrow> nat list" where
  "ordinalities ids i = filter (\<lambda>pos. ids ! (pos - 1) = i) [1..<length ids + 1]"

definition db_ReorderQuestions :: "'n pgconn \<Rightarrow> string \<Rightarrow> string list \<Rightarrow> 'n pgstate \<Rightarrow> 'n pgstate \<times> (store_error + unit)" where
  "db_ReorderQuestions L lid ids = returning wrapped Inr \<circ> query L (lid # ids) (\<lambda>n t.
     Inr (t\<lparr>t_questions := fmmap_keys (\<lambda>i r.
            if qw_list r = lid \<and> ordinalities ids i \<noteq> [] then r\<lparr>qw_order := int (pc_pick L n (ordinalities ids i)) - 1\<rparr> else r)
          (t_questions t)\<rparr>, ()))"

definition themeScope :: "string \<Rightarrow> string" where
  "themeScope lid = (if lid = '''' then ThemeScopeGlobal else ThemeScopeList)"

text \<open>\<open>questionSelect\<close>: a question row with the row of its theme, if any.\<close>

definition questionSelect :: "tables \<Rightarrow> string \<Rightarrow> (question_row \<times> (string \<times> theme_row) option) option" where
  "questionSelect t i = map_option (\<lambda>r. (r, case qw_theme r of None \<Rightarrow> None
       | Some j \<Rightarrow> map_option (\<lambda>tr. (j, tr)) (fmlookup (t_themes t) j))) (fmlookup (t_questions t) i)"

definition scanQuestion :: "string \<Rightarrow> question_row \<times> (string \<times> theme_row) option \<Rightarrow> QuestionRecord" where
  "scanQuestion i row = (case row of (r, j) \<Rightarrow>
     let themeID = (case j of None \<Rightarrow> '''' | Some (k, tr) \<Rightarrow> k);
         themeName = (case j of None \<Rightarrow> '''' | Some (k, tr) \<Rightarrow> tw_name tr);
         themeListID = (case j of None \<Rightarrow> '''' | Some (k, tr) \<Rightarrow> coalesce (tw_list tr))
     in \<lparr>qr_ID = i, qr_QuestionListID = qw_list r, qr_Text = qw_text r, qr_Options = qw_options r,
         qr_CorrectOptionID = qw_correct r, qr_OrderIndex = qw_order r, qr_ThemeID = themeID,
         qr_Theme = (if themeID = '''' then None
           else Some \<lparr>tref_ID = themeID, tref_Name = themeName, tref_Scope = themeScope themeListID\<rparr>)\<rparr>)"

definition db_GetQuestion :: "'n pgconn \<Rightarrow> string \<Rightarrow> 'n pgstate \<Rightarrow> 'n pgstate \<times> (store_error + QuestionRecord)" where
  "db_GetQuestion L i = returning mapError (Inr \<circ> scanQuestion i) \<circ> query L [i] (\<lambda>n t.
     case questionSelect t i of None \<Rightarrow> Inl NoRows | Some row \<Rightarrow> Inr (t, row))"

definition db_ListQuestions :: "'n pgconn \<Rightarrow> string \<Rightarrow> 'n pgstate \<Rightarrow> 'n pgstate \<times> (store_error + QuestionRecord list)" where
  "db_ListQuestions L lid = returning wrapped Inr \<circ> query L [lid] (\<lambda>n t.
     Inr (t, map (\<lambda>i. scanQuestion i (the (questionSelect t i)))
       (sort_key (\<lambda>i. qw_order (the (fmlookup (t_questions t) i))) (ids_where L n (t_questions t) (\<lambda>r. qw_list r = lid)))))"

section \<open>Themes\<close>

text \<open>The unique indexes on \<open>lower(name)\<close>, of the global themes and of each list's.\<close>

definition name_in_scope :: "'n pgconn \<Rightarrow> tables \<Rightarrow> string option \<Rightarrow> string \<Rightarrow> string \<Rightarrow> bool" where
  "name_in_scope L t lid name i \<longleftrightarrow> (\<exists>j \<in> fset (fmdom (t_themes t)). j \<noteq> i \<and>
     (let r = the (fmlookup (t_themes t) j) in tw_list r = lid \<and> pc_lower L (tw_name r) = pc_lower L name))"

definition db_CreateTheme :: "'n pgconn \<Rightarrow> ThemeRecord \<Rightarrow> 'n pgstate \<Rightarrow> 'n pgstate \<times> (store_error + unit)" where
  "db_CreateTheme L th = returning mapError Inr \<circ> query L [th_ID th, th_QuestionListID th, th_Name th, th_Description th] (\<lambda>n t.
     let lid = nullableText (th_QuestionListID th) in
     if th_ID th |\<in>| fmdom (t_themes t) \<or> name_in_scope L t lid (th_Name th) (th_ID th) then Inl UniqueViolation
     else if \<not> references lid (t_lists t) then Inl OtherError
     else Inr (t\<lparr>t_themes := fmupd (th_ID th)
       \<lparr>tw_list = lid, tw_name = th_Name th, tw_description = th_Description th,
        tw_created = micros (th_CreatedAt th), tw_updated = micros (th_UpdatedAt th)\<rparr> (t_themes t)\<rparr>, ()))"

definition scanTheme :: "string \<Rightarrow> theme_row \<Rightarrow> ThemeRecord" where
  "scanTheme i r = \<lparr>th_ID = i, th_Scope = themeScope (coalesce (tw_list r)), th_QuestionListID = coalesce (tw_list r),
     th_Name = tw_name r, th_Description = tw_description r, th_CreatedAt = tw_created r, th_UpdatedAt = tw_updated r\<rparr>"

definition db_GetTheme :: "'n pgconn \<Rightarrow> string \<Rightarrow> 'n pgstate \<Rightarrow> 'n pgstate \<times> (store_error + ThemeRecord)" where
  "db_GetTheme L i = returning mapError (Inr \<circ> scanTheme i) \<circ> query_row L t_themes i"

definition scanThemeRows :: "tables \<Rightarrow> string list \<Rightarrow> ThemeRecord list" where
  "scanThemeRows t ids = map (\<lambda>i. scanTheme i (the (fmlookup (t_themes t) i))) ids"

definition themes_by_name :: "'n pgconn \<Rightarrow> (theme_row \<Rightarrow> bool) \<Rightarrow> 'n \<Rightarrow> tables \<Rightarrow> string list" where
  "themes_by_name L P n t = sort_key (\<lambda>i. pc_rank L (pc_lower L (tw_name (the (fmlookup (t_themes t) i)))))
     (ids_where L n (t_themes t) P)"

definition db_ListGlobalThemes :: "'n pgconn \<Rightarrow> 'n pgstate \<Rightarrow> 'n pgstate \<times> (store_error + ThemeRecord list)" where
  "db_ListGlobalThemes L = returning wrapped Inr \<circ> query L [] (\<lambda>n t.
     Inr (t, scanThemeRows t (themes_by_name L (\<lambda>r. tw_list r = None) n t)))"

definition db_ListQuestionListThemes :: "'n pgconn \<Rightarrow> string \<Rightarrow> 'n pgstate \<Rightarrow> 'n pgstate \<times> (store_error + ThemeRecord list)" where
  "db_ListQuestionListThemes L lid = returning wrapped Inr \<circ> query L [lid] (\<lambda>n t.
     Inr (t, scanThemeRows t (themes_by_name L (\<lambda>r. tw_list r = Some lid) n t)))"

definition db_UpdateTheme :: "'n pgconn \<Rightarrow> ThemeRecord \<Rightarrow> 'n pgstate \<Rightarrow> 'n pgstate \<times> (store_error + unit)" where
  "db_UpdateTheme L th = returning mapError found \<circ> query L [th_Name th, th_Description th, th_ID th] (\<lambda>n t.
     case fmlookup (t_themes t) (th_ID th) of
       None \<Rightarrow> Inr (t, 0)
     | Some r \<Rightarrow> (if name_in_scope L t (tw_list r) (th_Name th) (th_ID th) then Inl UniqueViolation
         else Inr (t\<lparr>t_themes := fmupd (th_ID th) (r\<lparr>tw_name := th_Name th, tw_description := th_Description th,
             tw_updated := micros (th_UpdatedAt th)\<rparr>) (t_themes t)\<rparr>, 1)))"

definition db_DeleteTheme :: "'n pgconn \<Rightarrow> string \<Rightarrow> 'n pgstate \<Rightarrow> 'n pgstate \<times> (store_error + unit)" where
  "db_DeleteTheme L i = returning wrapped found \<circ> query L [i] (\<lambda>n t.
     if i |\<in>| fmdom (t_themes t) then Inr (delete_themes (\<lambda>j. j = i) t, 1) else Inr (t, 0))"

section \<open>The stores\<close>

definition pgGameStore :: "'n pgconn \<Rightarrow> 'n pgstate GameStore" where
  "pgGameStore L = \<lparr>gs_CreateGame = db_CreateGame L, gs_GetGame = db_GetGame L, gs_UpdateGameStatus = db_UpdateGameStatus L\<rparr>"

definition pgPlayerStore :: "'n pgconn \<Rightarrow> 'n pgstate PlayerStore" where
  "pgPlayerStore L = \<lparr>ps_CreatePlayer = db_CreatePlayer L, ps_GetPlayer = db_GetPlayer L, ps_ListPlayers = db_ListPlayers L,
     ps_UpdatePlayerLives = db_UpdatePlayerLives L\<rparr>"

definition pgQuestionListStore :: "'n pgconn \<Rightarrow> 'n pgstate QuestionListStore" where
  "pgQuestionListStore L = \<lparr>qs_CreateQuestionList = db_CreateQuestionList L, qs_GetQuestionList = db_GetQuestionList L,
     qs_UpdateQuestionList = db_UpdateQuestionList L, qs_DeleteQuestionList = db_DeleteQuestionList L,
     qs_ListPublicQuestionLists = db_ListPublicQuestionLists L, qs_ListPrivateQuestionLists = db_ListPrivateQuestionLists L,
     qs_CreateQuestion = db_CreateQuestion L, qs_GetQuestion = db_GetQuestion L, qs_UpdateQuestion = db_UpdateQuestion L,
     qs_DeleteQuestion = db_DeleteQuestion L, qs_ReorderQuestions = db_ReorderQuestions L, qs_ListQuestions = db_ListQuestions L\<rparr>"

definition pgThemeStore :: "'n pgconn \<Rightarrow> 'n pgstate ThemeStore" where
  "pgThemeStore L = \<lparr>ts_CreateTheme = db_CreateTheme L, ts_GetTheme = db_GetTheme L, ts_ListGlobalThemes = db_ListGlobalThemes L,
     ts_ListQuestionListThemes = db_ListQuestionListThemes L, ts_UpdateTheme = db_UpdateTheme L, ts_DeleteTheme = db_DeleteTheme L\<rparr>"

end
