(* ===== verification/Postgres_Catalog.thy ===== *)
theory Postgres_Catalog
  imports Postgres
begin

text \<open>
  The tables of \<open>Postgres\<close> implement the contract of \<open>Catalog_Store\<close>, on every connection, broken ones
  included: the interpretation \<open>pg\<close> of \<open>catalog_store\<close> discharges each law on the statements.
\<close>

section \<open>What a client reads in the tables\<close>

definition question_of :: "string \<Rightarrow> question_row \<Rightarrow> QuestionRecord" where
  "question_of i r = \<lparr>qr_ID = i, qr_QuestionListID = qw_list r, qr_Text = qw_text r, qr_Options = qw_options r,
     qr_CorrectOptionID = qw_correct r, qr_OrderIndex = qw_order r, qr_ThemeID = coalesce (qw_theme r), qr_Theme = None\<rparr>"

definition catalog_of :: "tables \<Rightarrow> catalog" where
  "catalog_of t = \<lparr>c_lists = fmmap_keys scan_list (t_lists t), c_questions = fmmap_keys question_of (t_questions t),
     c_themes = fmmap_keys scanTheme (t_themes t)\<rparr>"

definition tables_ok :: "tables \<Rightarrow> bool" where
  "tables_ok t \<longleftrightarrow>
     (\<forall>i r. fmlookup (t_questions t) i = Some r \<longrightarrow> qw_list r |\<in>| fmdom (t_lists t) \<and>
        (\<forall>j. qw_theme r = Some j \<longrightarrow> j \<noteq> '''' \<and> j |\<in>| fmdom (t_themes t))) \<and>
     (\<forall>i r. fmlookup (t_themes t) i = Some r \<longrightarrow> (\<forall>l. tw_list r = Some l \<longrightarrow> l \<noteq> '''' \<and> l |\<in>| fmdom (t_lists t)))"

locale pg_connection =
  fixes L :: "'n pgconn" and alive :: "'n \<Rightarrow> bool"
  assumes scan: "mset (pc_scan L n xs) = mset xs"
    and pick: "ks \<noteq> [] \<Longrightarrow> pc_pick L n ks \<in> set ks"
    and alive_send: "alive n \<Longrightarrow> pc_send L n = (n', d) \<Longrightarrow> d = Delivered \<and> alive n'"

definition pg_cat :: "'n pgstate \<Rightarrow> catalog" where
  "pg_cat st = catalog_of (pg_tables st)"

definition pg_ok :: "'n pgstate \<Rightarrow> bool" where
  "pg_ok st \<longleftrightarrow> tables_ok (pg_tables st)"

definition pg_up :: "('n \<Rightarrow> bool) \<Rightarrow> 'n pgstate \<Rightarrow> bool" where
  "pg_up alive st \<longleftrightarrow> pg_ok st \<and> alive (pg_net st)"

lemma catalog_of_simps [simp]:
  "c_lists (catalog_of t) = fmmap_keys scan_list (t_lists t)"
  "c_questions (catalog_of t) = fmmap_keys question_of (t_questions t)"
  "c_themes (catalog_of t) = fmmap_keys scanTheme (t_themes t)"
  by (simp_all add: catalog_of_def)

lemma coalesce_nullable [simp]: "coalesce (nullableText s) = s"
  by (simp add: coalesce_def nullableText_def)

lemma coalesce_simps [simp]: "coalesce None = ''''" "coalesce (Some s) = s"
  by (simp_all add: coalesce_def)

lemma nullable_eq_Some: "nullableText s = Some x \<longleftrightarrow> s = x \<and> s \<noteq> ''''"
  by (auto simp: nullableText_def)

lemma themeScope_eq: "themeScope = scope_of"
  by (rule ext) (simp add: themeScope_def scope_of_def)

lemma tables_okD:
  assumes "tables_ok t"
  shows "fmlookup (t_questions t) i = Some r \<Longrightarrow> qw_list r |\<in>| fmdom (t_lists t)"
    and "fmlookup (t_questions t) i = Some r \<Longrightarrow> qw_theme r = Some j \<Longrightarrow> j \<noteq> '''' \<and> j |\<in>| fmdom (t_themes t)"
    and "fmlookup (t_themes t) i = Some h \<Longrightarrow> tw_list h = Some l \<Longrightarrow> l \<noteq> '''' \<and> l |\<in>| fmdom (t_lists t)"
  using assms by (auto simp: tables_ok_def)

lemma rows_ok_catalog: "tables_ok t \<Longrightarrow> rows_ok (catalog_of t)"
  unfolding rows_ok_def theme_exists_def
  by (auto simp: scan_list_def question_of_def scanTheme_def themeScope_eq coalesce_def
      dest: tables_okD split: option.splits)

section \<open>One statement\<close>

text \<open>
  What has to be shown of a statement: on sound tables it leaves sound tables and its specification
  holds, and on a connection that is up it does not fail without need.
\<close>

definition stmt_ok :: "'a spec \<Rightarrow> (pg_error \<Rightarrow> store_error) \<Rightarrow> ('b \<Rightarrow> store_error + 'a) \<Rightarrow> tables \<Rightarrow> pg_error + tables \<times> 'b \<Rightarrow> bool" where
  "stmt_ok sp m g t r \<longleftrightarrow> (case r of
       Inl e \<Rightarrow> m e = ErrDB \<or> sp (catalog_of t) (catalog_of t) (Inl (m e))
     | Inr (t', x) \<Rightarrow> tables_ok t' \<and> sp (catalog_of t) (catalog_of t') (g x))"

definition stmt_serves :: "(pg_error \<Rightarrow> store_error) \<Rightarrow> ('b \<Rightarrow> store_error + 'a) \<Rightarrow> pg_error + tables \<times> 'b \<Rightarrow> bool" where
  "stmt_serves m g r \<longleftrightarrow> (case r of Inl e \<Rightarrow> m e \<noteq> ErrDB | Inr (t', x) \<Rightarrow> g x \<noteq> Inl ErrDB)"

lemma stmt_ok_simps [simp]:
  "stmt_ok sp m g t (Inl e) \<longleftrightarrow> m e = ErrDB \<or> sp (catalog_of t) (catalog_of t) (Inl (m e))"
  "stmt_ok sp m g t (Inr (t', x)) \<longleftrightarrow> tables_ok t' \<and> sp (catalog_of t) (catalog_of t') (g x)"
  "stmt_serves m g (Inl e) \<longleftrightarrow> m e \<noteq> ErrDB"
  "stmt_serves m g (Inr (t', x)) \<longleftrightarrow> g x \<noteq> Inl ErrDB"
  by (simp_all add: stmt_ok_def stmt_serves_def)

lemma mapper_simps [simp]:
  "mapError NoRows = ErrNotFound" "mapError UniqueViolation = ErrConflict" "mapError OtherError = ErrDB"
  "wrapped e = ErrDB"
  by (simp_all add: mapError_def wrapped_def)

lemma found_simps [simp]: "found 0 = Inl ErrNotFound" "found (Suc n) = Inr ()" "found rows \<noteq> Inl ErrDB"
  by (simp_all add: found_def)

context pg_connection begin

lemma query_obeys:
  assumes m: "m OtherError = ErrDB"
    and f: "\<And>n. tables_ok (pg_tables st) \<Longrightarrow> stmt_ok sp m g (pg_tables st) (f n (pg_tables st))"
  shows "obeys pg_ok pg_cat sp st (returning m g (query L texts f st))"
proof -
  obtain n d where s: "pc_send L (pg_net st) = (n, d)" by fastforce
  show ?thesis
  proof (cases "tables_ok (pg_tables st) \<and> list_all text_param texts")
    case False
    then show ?thesis
      by (cases d) (auto simp: obeys_def returning_def query_def s pg_ok_def pg_cat_def m)
  next
    case True
    then have ok: "stmt_ok sp m g (pg_tables st) (f (pg_net st) (pg_tables st))" using f by blast
    show ?thesis
    proof (cases "f (pg_net st) (pg_tables st)")
      case (Inl e)
      with ok True show ?thesis
        by (cases d) (auto simp: obeys_def returning_def query_def s pg_ok_def pg_cat_def m)
    next
      case (Inr tx)
      obtain t' x where "tx = (t', x)" by fastforce
      with ok True Inr show ?thesis
        by (cases d) (auto simp: obeys_def returning_def query_def s pg_ok_def pg_cat_def m)
    qed
  qed
qed

lemma query_serves:
  assumes f: "\<And>n. tables_ok (pg_tables st) \<Longrightarrow> stmt_ok sp m g (pg_tables st) (f n (pg_tables st))"
    and pre: "\<And>n. tables_ok (pg_tables st) \<Longrightarrow> pre \<Longrightarrow>
      list_all text_param texts \<and> stmt_serves m g (f n (pg_tables st))"
  shows "serves (pg_up alive) pre st (returning m g (query L texts f st))"
proof (cases "pg_up alive st")
  case True
  obtain n d where s: "pc_send L (pg_net st) = (n, d)" by fastforce
  with True have d: "d = Delivered" "alive n" and t: "tables_ok (pg_tables st)"
    using alive_send by (auto simp: pg_up_def pg_ok_def)
  show ?thesis
  proof (cases "f (pg_net st) (pg_tables st)")
    case (Inl e)
    then show ?thesis using t d pre[OF t, of "pg_net st"]
      by (auto simp: serves_def returning_def query_def s pg_up_def pg_ok_def)
  next
    case (Inr tx)
    obtain t' x where "tx = (t', x)" by fastforce
    then show ?thesis using Inr t d f[OF t, of "pg_net st"] pre[OF t, of "pg_net st"]
      by (auto simp: serves_def returning_def query_def s pg_up_def pg_ok_def)
  qed
qed (simp add: serves_def)

definition call_ok :: "'x spec \<Rightarrow> bool \<Rightarrow> 'n pgstate \<Rightarrow> 'n pgstate \<times> (store_error + 'x) \<Rightarrow> bool" where
  "call_ok sp pre st out \<longleftrightarrow> obeys pg_ok pg_cat sp st out \<and> serves (pg_up alive) pre st out"

lemma query_call:
  assumes "m OtherError = ErrDB"
    and "\<And>n t. tables_ok t \<Longrightarrow> t = pg_tables st \<Longrightarrow> stmt_ok sp m g t (f n t)"
    and "\<And>n t. tables_ok t \<Longrightarrow> t = pg_tables st \<Longrightarrow> pre \<Longrightarrow> list_all text_param texts \<and> stmt_serves m g (f n t)"
  shows "call_ok sp pre st (returning m g (query L texts f st))"
  unfolding call_ok_def
proof
  show "obeys pg_ok pg_cat sp st (returning m g (query L texts f st))"
    by (rule query_obeys) (simp_all add: assms)
  show "serves (pg_up alive) pre st (returning m g (query L texts f st))"
    by (rule query_serves[where sp = sp]) (simp_all add: assms)
qed

end

section \<open>Shared facts on tables and lists of IDs\<close>

lemma catalog_eqI:
  assumes "\<And>i. fmlookup (c_lists c) i = fmlookup (c_lists c') i"
    and "\<And>i. fmlookup (c_questions c) i = fmlookup (c_questions c') i"
    and "\<And>i. fmlookup (c_themes c) i = fmlookup (c_themes c') i"
  shows "c = (c' :: catalog)"
  using assms by (intro catalog.equality) (auto intro: fmap_ext)

lemma catalog_of_games [simp]:
  "catalog_of (t\<lparr>t_games := g\<rparr>) = catalog_of t" "catalog_of (t\<lparr>t_players := p\<rparr>) = catalog_of t"
  by (simp_all add: catalog_of_def)

lemma in_ran_keys: "x \<in> fmran' (fmmap_keys f m) \<longleftrightarrow> (\<exists>i r. fmlookup m i = Some r \<and> x = f i r)"
  by (auto simp: fmlookup_ran'_iff)

context pg_connection begin

lemma scan_props [simp]: "set (pc_scan L n xs) = set xs" "distinct (pc_scan L n xs) = distinct xs"
  using mset_eq_setD[OF scan] mset_eq_imp_distinct_iff[OF scan] by auto

lemma ids_where_props [simp]:
  "set (ids_where L n tab P) = {i. \<exists>r. fmlookup tab i = Some r \<and> P r}" "distinct (ids_where L n tab P)"
  by (auto simp: ids_where_def fmlookup_iff_dom)

end

section \<open>Question lists\<close>

lemma scan_list_simps [simp]:
  "ql_ID (scan_list i r) = i" "ql_Visibility (scan_list i r) = lw_visibility r" "ql_OwnerID (scan_list i r) = lw_owner_id r"
  "ql_CreatedAt (scan_list i r) = lw_created r"
  by (simp_all add: scan_list_def)

context pg_connection begin

lemma catalog_set_list:
  "catalog_of (t\<lparr>t_lists := fmupd i r (t_lists t)\<rparr>) = set_list (scan_list i r) (catalog_of t)"
  by (rule catalog_eqI) (auto simp: set_list_def)

lemma tables_ok_set_list: "tables_ok t \<Longrightarrow> tables_ok (t\<lparr>t_lists := fmupd i r (t_lists t)\<rparr>)"
  by (auto simp: tables_ok_def)

lemma pg_create_list:
  "call_ok (create_list_spec micros l) (ql_ID l |\<notin>| fmdom (c_lists (pg_cat st)) \<and>
     list_all text_param [ql_ID l, ql_Name l, ql_Description l, ql_OwnerID l] \<and>
     ql_Visibility l \<in> {ListVisibilityPublic, ListVisibilityPrivate} \<and>
     ql_OwnerType l \<in> {ActorTypeAdmin, ActorTypeUser}) st (db_CreateQuestionList L l st)"
  unfolding db_CreateQuestionList_def comp_apply
proof (rule query_call, goal_cases)
  case (2 n t)
  then show ?case
    by (auto simp: create_list_spec_def writes_def tables_ok_set_list catalog_set_list scan_list_def
        intro!: arg_cong[of _ _ "\<lambda>x. set_list x _"])
qed (auto simp: pg_cat_def text_param_def ListVisibilityPublic_def ListVisibilityPrivate_def ActorTypeAdmin_def ActorTypeUser_def)

lemma query_row_eq: "query_row L tab i st = query L [i] (\<lambda>n t. case fmlookup (tab t) i of None \<Rightarrow> Inl NoRows | Some r \<Rightarrow> Inr (t, r)) st"
  by (simp add: query_row_def)

lemma pg_get_list:
  "call_ok (get_list_spec i) (i |\<in>| fmdom (c_lists (pg_cat st)) \<and> text_param i) st (db_GetQuestionList L i st)"
  unfolding db_GetQuestionList_def comp_apply query_row_eq
  by (rule query_call) (auto simp: pg_cat_def get_list_spec_def reads_def fmlookup_iff_dom split: option.splits)

lemma pg_update_list:
  "call_ok (update_list_spec micros l) (list_all text_param [ql_ID l, ql_Name l, ql_Description l]) st (db_UpdateQuestionList L l st)"
  unfolding db_UpdateQuestionList_def comp_apply
proof (rule query_call, goal_cases)
  case (2 n t)
  then show ?case
    by (auto simp: update_list_spec_def update_row_def refuses_def writes_def tables_ok_set_list catalog_set_list scan_list_def
        split: option.splits intro!: arg_cong[of _ _ "\<lambda>x. set_list x _"])
qed (auto simp: update_row_def split: option.splits prod.splits)

lemma delete_themes_simps [simp]:
  "t_themes (delete_themes gone t) = fmfilter (\<lambda>i. \<not> gone i) (t_themes t)"
  "t_questions (delete_themes gone t) =
     fmmap (\<lambda>r. case qw_theme r of None \<Rightarrow> r | Some j \<Rightarrow> if gone j then r\<lparr>qw_theme := None\<rparr> else r) (t_questions t)"
  "t_lists (delete_themes gone t) = t_lists t"
  by (simp_all add: delete_themes_def)

lemma catalog_delete_themes: "catalog_of (delete_themes gone t) = no_theme gone (catalog_of t)"
  by (rule catalog_eqI)
    (auto simp: no_theme_def question_of_def coalesce_def map_option.compositionality comp_def fmlookup_filter
      split: option.splits intro!: option.map_cong0)

lemma delete_themes_question:
  assumes "fmlookup (t_questions (delete_themes gone t)) i = Some r"
  obtains r0 where "fmlookup (t_questions t) i = Some r0" and "qw_list r = qw_list r0"
    and "\<And>j. qw_theme r = Some j \<Longrightarrow> qw_theme r0 = Some j \<and> \<not> gone j"
proof -
  from assms obtain r0 where r0: "fmlookup (t_questions t) i = Some r0"
    and r: "r = (case qw_theme r0 of None \<Rightarrow> r0 | Some j \<Rightarrow> if gone j then r0\<lparr>qw_theme := None\<rparr> else r0)" by auto
  show thesis by (rule that[OF r0]) (auto simp: r split: option.splits if_splits)
qed

lemma tables_ok_delete_themes:
  assumes "\<And>i r. fmlookup (t_questions t) i = Some r \<Longrightarrow> qw_list r |\<in>| fmdom (t_lists t) \<and>
        (\<forall>j. qw_theme r = Some j \<longrightarrow> j \<noteq> '''' \<and> j |\<in>| fmdom (t_themes t))"
    and "\<And>i r l. fmlookup (t_themes t) i = Some r \<Longrightarrow> \<not> gone i \<Longrightarrow> tw_list r = Some l \<Longrightarrow> l \<noteq> '''' \<and> l |\<in>| fmdom (t_lists t)"
  shows "tables_ok (delete_themes gone t)"
  unfolding tables_ok_def
proof (intro conjI allI impI)
  fix i r
  assume "fmlookup (t_questions (delete_themes gone t)) i = Some r"
  then obtain r0 where r0: "fmlookup (t_questions t) i = Some r0" "qw_list r = qw_list r0"
    "\<And>j. qw_theme r = Some j \<Longrightarrow> qw_theme r0 = Some j \<and> \<not> gone j" by (rule delete_themes_question) blast
  show "qw_list r |\<in>| fmdom (t_lists (delete_themes gone t))" using assms(1)[OF r0(1)] r0(2) by simp
  fix j assume "qw_theme r = Some j"
  then show "j \<noteq> ''''" "j |\<in>| fmdom (t_themes (delete_themes gone t))"
    using assms(1)[OF r0(1)] r0(3) by (auto simp: fmdom_filter)
next
  fix i r l
  assume "fmlookup (t_themes (delete_themes gone t)) i = Some r" and "tw_list r = Some l"
  then show "l \<noteq> ''''" "l |\<in>| fmdom (t_lists (delete_themes gone t))"
    using assms(2)[of i r l] by (auto split: if_splits)
qed

lemma catalog_delete_list:
  assumes "lid \<noteq> ''''"
  shows "catalog_of (delete_list lid t) = drop_list lid (catalog_of t)"
proof -
  have gone: "(\<lambda>i. case fmlookup (t_themes t) i of None \<Rightarrow> False | Some r \<Rightarrow> tw_list r = Some lid) =
      (\<lambda>i. case fmlookup (c_themes (catalog_of t)) i of None \<Rightarrow> False | Some h \<Rightarrow> th_QuestionListID h = lid)"
    using assms by (auto simp: scanTheme_def coalesce_def fun_eq_iff split: option.splits)
  show ?thesis
    unfolding delete_list_def drop_list_def catalog_delete_themes gone
    by (rule arg_cong[of _ _ "no_theme _"], rule catalog_eqI)
      (auto simp: question_of_def split: if_splits, (case_tac "fmlookup (t_questions t) i"; simp add: question_of_def)+)
qed

lemma tables_ok_delete_list:
  assumes "tables_ok t"
  shows "tables_ok (delete_list lid t)"
  unfolding delete_list_def
proof (rule tables_ok_delete_themes, goal_cases)
  case (1 i r)
  then have "fmlookup (t_questions t) i = Some r" "qw_list r \<noteq> lid" by (auto split: if_splits)
  then show ?case using tables_okD(1,2)[OF assms] by auto
next
  case (2 i r l)
  then show ?case using tables_okD(3)[OF assms, of i r l] by auto
qed

lemma pg_delete_list:
  assumes "lid \<noteq> ''''"
  shows "call_ok (delete_list_spec lid) (text_param lid) st (db_DeleteQuestionList L lid st)"
  unfolding db_DeleteQuestionList_def comp_apply
  by (rule query_call)
    (auto simp: delete_list_spec_def refuses_def writes_def tables_ok_delete_list catalog_delete_list[OF assms]
      fmlookup_iff_dom split: option.splits)

lemma newest_lists_props:
  "set (newest_lists L P n t) = {i. \<exists>r. fmlookup (t_lists t) i = Some r \<and> P r}" "distinct (newest_lists L P n t)"
  "sorted_wrt (\<lambda>i j. lw_created (the (fmlookup (t_lists t) j)) \<le> lw_created (the (fmlookup (t_lists t) i))) (newest_lists L P n t)"
proof -
  show "sorted_wrt (\<lambda>i j. lw_created (the (fmlookup (t_lists t) j)) \<le> lw_created (the (fmlookup (t_lists t) i))) (newest_lists L P n t)"
    using sorted_sort_key[of "\<lambda>i. - lw_created (the (fmlookup (t_lists t) i))"]
    unfolding newest_lists_def sorted_map by simp
qed (auto simp: newest_lists_def)

lemma pg_lists:
  assumes "\<And>i r. P r \<longleftrightarrow> R (scan_list i r)" and "tables_ok t"
  shows "stmt_ok (lists_spec R) wrapped Inr t (Inr (t, scanQuestionListRows t (newest_lists L P n t)))"
proof -
  let ?ids = "newest_lists L P n t" and ?l = "\<lambda>i. scan_list i (the (fmlookup (t_lists t) i))"
  have "set (map ?l ?ids) = {l. l \<in> fmran' (c_lists (catalog_of t)) \<and> R l}"
    by (auto simp: newest_lists_props in_ran_keys image_iff assms(1)) (metis assms(1) option.sel)+
  moreover have "map ql_ID (map ?l ?ids) = ?ids" by (simp add: comp_def)
  moreover have "sorted_wrt (\<lambda>a b. ql_CreatedAt b \<le> ql_CreatedAt a) (map ?l ?ids)"
    using newest_lists_props(3) by (simp add: sorted_wrt_map)
  ultimately show ?thesis
    using assms(2) newest_lists_props(2) by (simp add: lists_spec_def reads_def scanQuestionListRows_def)
qed

lemma pg_public_lists:
  "call_ok (lists_spec (\<lambda>l. ql_Visibility l = ListVisibilityPublic)) True st (db_ListPublicQuestionLists L st)"
  unfolding db_ListPublicQuestionLists_def comp_apply
  by (rule query_call) (simp, rule pg_lists, simp_all add: ListVisibilityPublic_def)

lemma pg_private_lists:
  "call_ok (lists_spec (\<lambda>l. ql_Visibility l = ListVisibilityPrivate \<and> ql_OwnerID l = oid)) (text_param oid) st
     (db_ListPrivateQuestionLists L oid st)"
  unfolding db_ListPrivateQuestionLists_def comp_apply
  by (rule query_call) (simp, rule pg_lists, simp_all add: ListVisibilityPrivate_def)

end

section \<open>Questions\<close>

lemma question_of_simps [simp]:
  "qr_ID (question_of i r) = i" "qr_QuestionListID (question_of i r) = qw_list r" "qr_OrderIndex (question_of i r) = qw_order r"
  "qr_ThemeID (question_of i r) = coalesce (qw_theme r)" "qr_Theme (question_of i r) = None"
  by (simp_all add: question_of_def)

lemma catalog_set_question:
  assumes "question_of i r = q\<lparr>qr_Theme := None\<rparr>"
  shows "catalog_of (t\<lparr>t_questions := fmupd i r (t_questions t)\<rparr>) = set_question q (catalog_of t)"
proof -
  have "qr_ID q = i" using arg_cong[OF assms, of qr_ID] by simp
  then show ?thesis by (intro catalog_eqI) (use assms in \<open>auto simp: set_question_def\<close>)
qed

lemma tables_ok_set_question:
  assumes "tables_ok t" and "qw_list r |\<in>| fmdom (t_lists t)" and "qw_theme r = nullableText s"
    and "references (nullableText s) (t_themes t)"
  shows "tables_ok (t\<lparr>t_questions := fmupd i r (t_questions t)\<rparr>)"
  using assms by (auto simp: tables_ok_def references_def nullableText_def split: if_splits)

lemma references_theme: "theme_exists (catalog_of t) s \<longleftrightarrow> references (nullableText s) (t_themes t)"
  by (auto simp: theme_exists_def references_def nullableText_def)

lemma with_theme_question_of:
  assumes "tables_ok t" and "fmlookup (t_questions t) i = Some r"
  shows "scanQuestion i (the (questionSelect t i)) = with_theme (catalog_of t) (question_of i r)"
proof (cases "qw_theme r")
  case None
  then show ?thesis
    by (simp add: assms(2) questionSelect_def scanQuestion_def with_theme_def question_of_def Let_def)
next
  case (Some j)
  with tables_okD(2)[OF assms(1,2) Some] obtain tr where "fmlookup (t_themes t) j = Some tr" "j \<noteq> ''''"
    by (auto simp: fmlookup_iff_dom)
  with Some show ?thesis
    by (simp add: assms(2) questionSelect_def scanQuestion_def with_theme_def question_of_def Let_def
        theme_ref_def scanTheme_def)
qed

text \<open>Renumbering and reordering.\<close>

lemma in_order_catalog:
  "in_order (catalog_of t) lid ids \<longleftrightarrow> distinct ids \<and>
     set ids = {i. \<exists>r. fmlookup (t_questions t) i = Some r \<and> qw_list r = lid} \<and>
     sorted (map (\<lambda>i. qw_order (the (fmlookup (t_questions t) i))) ids)"
proof -
  have S: "{i. \<exists>q. fmlookup (c_questions (catalog_of t)) i = Some q \<and> qr_QuestionListID q = lid} =
      {i. \<exists>r. fmlookup (t_questions t) i = Some r \<and> qw_list r = lid}" by auto
  have eq: "map (\<lambda>i. qr_OrderIndex (the (fmlookup (c_questions (catalog_of t)) i))) ids =
      map (\<lambda>i. qw_order (the (fmlookup (t_questions t) i))) ids"
    if "set ids = {i. \<exists>r. fmlookup (t_questions t) i = Some r \<and> qw_list r = lid}"
    using that by (intro map_cong) auto
  show ?thesis
    unfolding in_order_def S by (intro conj_cong refl) (rule arg_cong[of _ _ sorted], rule eq, assumption)
qed

lemma catalog_renumber:
  assumes "\<And>i r. fmlookup (t_questions t) i = Some r \<Longrightarrow> i \<in> set ids \<Longrightarrow> qw_list r = lid"
  shows "catalog_of (renumber ids t) = positioned lid ids (catalog_of t)"
proof (rule catalog_eqI)
  show "fmlookup (c_questions (catalog_of (renumber ids t))) i = fmlookup (c_questions (positioned lid ids (catalog_of t))) i" for i
  proof (cases "fmlookup (t_questions t) i")
    case (Some r)
    show ?thesis
    proof (cases "index_of ids i")
      case None
      then show ?thesis using Some by (simp add: renumber_def positioned_def)
    next
      case (Some k)
      then have "i \<in> set ids" using index_of_None[of ids i] by auto
      then show ?thesis using assms[OF \<open>fmlookup (t_questions t) i = Some r\<close>] \<open>fmlookup (t_questions t) i = Some r\<close> Some
        by (simp add: renumber_def positioned_def question_of_def)
    qed
  qed (simp add: renumber_def positioned_def)
qed (simp_all add: renumber_def positioned_def)

lemma tables_ok_map_questions:
  assumes "tables_ok t" and "\<And>i r. qw_list (f i r) = qw_list r" and "\<And>i r. qw_theme (f i r) = qw_theme r"
  shows "tables_ok (t\<lparr>t_questions := fmmap_keys f (t_questions t)\<rparr>)"
  unfolding tables_ok_def
proof (intro conjI allI impI, goal_cases)
  case (1 i r)
  then show ?case using tables_okD(1)[OF assms(1)] assms(2) by auto
next
  case (2 i r j)
  then show ?case by (auto simp: assms(3) dest: tables_okD(2)[OF assms(1)])
next
  case (3 i r j)
  then show ?case by (auto simp: assms(3) dest: tables_okD(2)[OF assms(1)])
next
  case (4 i r l)
  then show ?case using tables_okD(3)[OF assms(1)] by auto
next
  case (5 i r l)
  then show ?case using tables_okD(3)[OF assms(1)] by auto
qed

lemma tables_ok_renumber: "tables_ok t \<Longrightarrow> tables_ok (renumber ids t)"
  unfolding renumber_def by (rule tables_ok_map_questions) (auto split: option.splits)

lemma tables_ok_drop_question: "tables_ok t \<Longrightarrow> tables_ok (t\<lparr>t_questions := fmdrop qid (t_questions t)\<rparr>)"
  unfolding tables_ok_def by auto

lemma catalog_drop_question: "catalog_of (t\<lparr>t_questions := fmdrop qid (t_questions t)\<rparr>) = drop_question qid (catalog_of t)"
  by (rule catalog_eqI) (auto simp: drop_question_def)

lemma ordinalities_distinct:
  assumes "distinct ids"
  shows "ordinalities ids i = (case index_of ids i of None \<Rightarrow> [] | Some k \<Rightarrow> [nat k + 1])"
proof (cases "index_of ids i")
  case None
  have "ids ! (pos - 1) \<noteq> i" if "pos \<in> set [1..<length ids + 1]" for pos
  proof -
    have "ids ! (pos - 1) \<in> set ids" using that by (intro nth_mem) auto
    then show ?thesis using None index_of_None[of ids i] by auto
  qed
  then show ?thesis using None by (simp add: ordinalities_def filter_empty_conv)
next
  case (Some n)
  then obtain k where k: "n = int k" "k < length ids" "ids ! k = i" by (rule index_of_Some)
  have "ids ! (pos - 1) = i \<longleftrightarrow> pos = k + 1" if "pos \<in> set [1..<length ids + 1]" for pos
  proof -
    have "pos - 1 < length ids" "0 < pos" using that by auto
    then show ?thesis using nth_eq_iff_index_eq[OF assms, of "pos - 1" k] k by auto
  qed
  then have "ordinalities ids i = filter (\<lambda>pos. pos = k + 1) [1..<length ids + 1]"
    unfolding ordinalities_def by (rule filter_cong[OF refl])
  also have "\<dots> = [k + 1]"
  proof -
    have "[1..<length ids + 1] = [1..<k + 1] @ [k + 1..<length ids + 1]"
      using k(2) upt_add_eq_append[of 1 "k + 1" "length ids - k"] by simp
    also have "[k + 1..<length ids + 1] = (k + 1) # [k + 2..<length ids + 1]"
      using k(2) by (simp add: upt_conv_Cons)
    finally show ?thesis by (auto simp: filter_empty_conv)
  qed
  finally show ?thesis using Some k(1) by simp
qed

context pg_connection begin

lemma pg_create_question:
  "call_ok (create_question_spec q) (qr_ID q |\<notin>| fmdom (c_questions (pg_cat st)) \<and>
     qr_QuestionListID q |\<in>| fmdom (c_lists (pg_cat st)) \<and> theme_exists (pg_cat st) (qr_ThemeID q) \<and>
     list_all text_param (question_texts q) \<and> - (2 ^ 31) \<le> qr_OrderIndex q \<and> qr_OrderIndex q < 2 ^ 31) st
     (db_CreateQuestion L q st)"
proof (cases "int4 (qr_OrderIndex q)")
  case False
  then show ?thesis
    by (auto simp: call_ok_def db_CreateQuestion_def obeys_def serves_def int4_def)
next
  case True
  show ?thesis
    unfolding db_CreateQuestion_def eqTrueI[OF True] not_True_eq_False if_False
  proof (rule query_call, goal_cases)
    case (2 n t)
    let ?r = "\<lparr>qw_list = qr_QuestionListID q, qw_text = qr_Text q, qw_options = qr_Options q, qw_correct = qr_CorrectOptionID q,
      qw_order = qr_OrderIndex q, qw_theme = nullableText (qr_ThemeID q), qw_created = micros (pc_now L n)\<rparr>"
    have "question_of (qr_ID q) ?r = q\<lparr>qr_Theme := None\<rparr>" by (simp add: question_of_def)
    from catalog_set_question[OF this, of t] show ?case
      using tables_ok_set_question[OF 2(1), of ?r "qr_ThemeID q" "qr_ID q"]
      by (simp add: create_question_spec_def writes_def)
  next
    case (3 n t)
    then show ?case
      by (auto simp: pg_cat_def references_theme question_texts_def option_texts_def)
  qed simp
qed

lemma pg_get_question: "call_ok (get_question_spec i) (text_param i) st (db_GetQuestion L i st)"
  unfolding db_GetQuestion_def comp_apply
proof (rule query_call, goal_cases)
  case (2 n t)
  then show ?case
    using with_theme_question_of[OF 2(1), of i]
    by (auto simp: get_question_spec_def reads_def questionSelect_def split: option.splits)
qed (auto simp: questionSelect_def split: option.splits)

lemma pg_update_question:
  "call_ok (update_question_spec q) (list_all text_param (question_texts q) \<and> theme_exists (pg_cat st) (qr_ThemeID q)) st
     (db_UpdateQuestion L q st)"
  unfolding db_UpdateQuestion_def comp_apply
proof (rule query_call, goal_cases)
  case (2 n t)
  show ?case
  proof (cases "fmlookup (t_questions t) (qr_ID q)")
    case None
    then show ?thesis using 2 by (simp add: update_row_def update_question_spec_def refuses_def)
  next
    case (Some r)
    let ?r = "r\<lparr>qw_text := qr_Text q, qw_options := qr_Options q, qw_correct := qr_CorrectOptionID q,
      qw_theme := nullableText (qr_ThemeID q)\<rparr>"
    have "question_of (qr_ID q) ?r = (question_of (qr_ID q) r)\<lparr>qr_Text := qr_Text q, qr_Options := qr_Options q,
        qr_CorrectOptionID := qr_CorrectOptionID q, qr_ThemeID := qr_ThemeID q\<rparr>\<lparr>qr_Theme := None\<rparr>"
      by (simp add: question_of_def)
    from catalog_set_question[OF this, of t] show ?thesis
      using tables_ok_set_question[OF 2(1), of ?r "qr_ThemeID q" "qr_ID q"] tables_okD(1)[OF 2(1) Some] Some
      by (simp add: update_row_def update_question_spec_def writes_def)
  qed
next
  case (3 n t)
  then show ?case
    by (auto simp: pg_cat_def references_theme question_texts_def option_texts_def update_row_def split: option.splits prod.splits)
qed simp

lemma pg_reorder:
  assumes "distinct ids"
  shows "call_ok (reorder_spec lid ids) (list_all text_param (lid # ids)) st (db_ReorderQuestions L lid ids st)"
  unfolding db_ReorderQuestions_def comp_apply
proof (rule query_call, goal_cases)
  case (2 n t)
  let ?f = "\<lambda>i r. if qw_list r = lid \<and> ordinalities ids i \<noteq> [] then r\<lparr>qw_order := int (pc_pick L n (ordinalities ids i)) - 1\<rparr> else r"
  have p: "pc_pick L n [k] = k" for k using pick[of "[k]" n] by simp
  have q: "0 \<le> k" if "index_of ids i = Some k" for i k using that by (rule index_of_Some) simp
  have "catalog_of (t\<lparr>t_questions := fmmap_keys ?f (t_questions t)\<rparr>) = positioned lid ids (catalog_of t)"
  proof (rule catalog_eqI)
    show "fmlookup (c_questions (catalog_of (t\<lparr>t_questions := fmmap_keys ?f (t_questions t)\<rparr>))) i =
        fmlookup (c_questions (positioned lid ids (catalog_of t))) i" for i
      using q[of i] by (auto simp: positioned_def ordinalities_distinct[OF assms] p question_of_def map_option.compositionality comp_def
          split: option.splits intro!: option.map_cong0)
  qed (simp_all add: positioned_def)
  moreover have "tables_ok (t\<lparr>t_questions := fmmap_keys ?f (t_questions t)\<rparr>)"
    by (rule tables_ok_map_questions[OF 2(1)]) auto
  ultimately show ?case by (simp add: reorder_spec_def writes_def)
qed auto

lemma pg_list_questions: "call_ok (list_questions_spec lid) (text_param lid) st (db_ListQuestions L lid st)"
  unfolding db_ListQuestions_def comp_apply
proof (rule query_call, goal_cases)
  case (2 n t)
  let ?ids = "sort_key (\<lambda>i. qw_order (the (fmlookup (t_questions t) i))) (ids_where L n (t_questions t) (\<lambda>r. qw_list r = lid))"
  have "in_order (catalog_of t) lid ?ids" unfolding in_order_catalog by simp
  moreover have "map (\<lambda>i. scanQuestion i (the (questionSelect t i))) ?ids =
      map (\<lambda>i. with_theme (catalog_of t) (the (fmlookup (c_questions (catalog_of t)) i))) ?ids"
    using with_theme_question_of[OF 2(1)] by auto
  ultimately show ?case using 2(1) unfolding list_questions_spec_def reads_def stmt_ok_simps by blast
qed auto

end

section \<open>Deleting a question\<close>

lemma lex_sorted_fst:
  assumes "sorted (map (\<lambda>i. (f i :: int, g i :: int)) ids)"
  shows "sorted (map f ids)"
proof -
  have "sorted_wrt (\<lambda>i j. (f i, g i) \<le> (f j, g j)) ids" using assms unfolding sorted_map .
  then have "sorted_wrt (\<lambda>i j. f i \<le> f j) ids"
    by (rule sorted_wrt_mono_rel[rotated]) (auto simp: less_eq_prod_def less_prod_def)
  then show ?thesis unfolding sorted_map .
qed

context pg_connection begin

lemma row_numbers_order: "in_order (catalog_of t) lid (row_numbers L lid n t)"
proof -
  let ?f = "\<lambda>i. qw_order (the (fmlookup (t_questions t) i))" and ?g = "\<lambda>i. qw_created (the (fmlookup (t_questions t) i))"
  have "sorted (map (\<lambda>i. (?f i, ?g i)) (row_numbers L lid n t))"
    by (simp add: row_numbers_def Let_def)
  from lex_sorted_fst[OF this] show ?thesis
    unfolding in_order_catalog by (simp add: row_numbers_def)
qed

lemma catalog_row_numbers:
  "catalog_of (renumber (row_numbers L lid n t) t) = positioned lid (row_numbers L lid n t) (catalog_of t)"
  by (rule catalog_renumber) (auto simp: row_numbers_def)

text \<open>A statement of the transaction, whatever happened to it, leaves its effect or none.\<close>

lemma query_cases:
  assumes "query L texts f st = (st', r)"
  obtains (had_effect) t x where "r = Inr x" and "f (pg_net st) (pg_tables st) = Inr (t, x)" and "pg_tables st' = t"
  | (refused) e where "r = Inl e" and "pg_tables st' = pg_tables st" and "e = OtherError \<or> f (pg_net st) (pg_tables st) = Inl e"
  | (lost_reply) t x where "r = Inl OtherError" and "f (pg_net st) (pg_tables st) = Inr (t, x)" and "pg_tables st' = t"
  using assms
  by (auto simp: query_def Let_def split: prod.splits delivery.splits sum.splits if_splits)

lemma rollback_tables [simp]: "pg_tables (rollback L t st) = t"
  by (simp add: rollback_def)

lemma commit_cases:
  assumes "commit L t st = (st', r)"
  shows "pg_tables st' = pg_tables st \<and> r = Inr () \<or> pg_tables st' \<in> {t, pg_tables st} \<and> r = Inl ErrDB"
  using assms by (auto simp: commit_def split: prod.splits delivery.splits)

text \<open>The transaction has no effect, or removes the question and renumbers the others.\<close>

definition deleted_question :: "string \<Rightarrow> question_row \<Rightarrow> tables \<Rightarrow> tables \<Rightarrow> bool" where
  "deleted_question qid row t t' \<longleftrightarrow> (\<exists>n. let t1 = t\<lparr>t_questions := fmdrop qid (t_questions t)\<rparr>
     in t' = renumber (row_numbers L (qw_list row) n t1) t1)"

lemma delete_question_cases:
  assumes "db_DeleteQuestion L qid st = (st', r)"
  obtains (no_effect) "pg_tables st' = pg_tables st" and "r = Inl ErrDB"
  | (missing) "pg_tables st' = pg_tables st" and "r = Inl ErrNotFound" and "fmlookup (t_questions (pg_tables st)) qid = None"
  | (deleted) row where "fmlookup (t_questions (pg_tables st)) qid = Some row"
      and "deleted_question qid row (pg_tables st) (pg_tables st')" and "r \<in> {Inr (), Inl ErrDB}"
proof -
  let ?t = "pg_tables st"
  obtain st1 r1 where q1: "query L [] (\<lambda>n t. Inr (t, ())) st = (st1, r1)" by fastforce
  then have t1: "pg_tables st1 = ?t" by (cases rule: query_cases) auto
  show thesis
  proof (cases r1)
    case (Inl e)
    show thesis by (rule no_effect) (use Inl assms q1 t1 in \<open>auto simp: db_DeleteQuestion_def\<close>)
  next
    case r1: (Inr u)
    obtain st2 r2 where q2: "delete_returning L qid st1 = (st2, r2)" by fastforce
    show thesis
    proof (cases r2)
      case (Inl e)
      have "e = OtherError \<or> e = NoRows \<and> fmlookup (t_questions ?t) qid = None"
        using q2[unfolded delete_returning_def]
        by (cases rule: query_cases) (auto simp: Inl t1 split: option.splits)
      moreover have "r = Inl (mapError e)" "pg_tables st' = ?t"
        using assms q1 r1 q2 Inl by (auto simp: db_DeleteQuestion_def)
      ultimately have "r = Inl ErrDB \<or> r = Inl ErrNotFound \<and> fmlookup (t_questions ?t) qid = None" "pg_tables st' = ?t" by auto
      then show thesis using no_effect missing by blast
    next
      case r2: (Inr lid)
      obtain row where row: "fmlookup (t_questions ?t) qid = Some row" "qw_list row = lid"
        and t2: "pg_tables st2 = ?t\<lparr>t_questions := fmdrop qid (t_questions ?t)\<rparr>"
        using q2[unfolded delete_returning_def]
        by (cases rule: query_cases) (auto simp: r2 t1 split: option.splits)
      obtain st3 r3 where q3: "query L [] (\<lambda>n t. Inr (renumber (row_numbers L lid n t) t, ())) st2 = (st3, r3)" by fastforce
      show thesis
      proof (cases r3)
        case (Inl e)
        show thesis by (rule no_effect) (use Inl assms q1 r1 q2 r2 q3 in \<open>auto simp: db_DeleteQuestion_def\<close>)
      next
        case r3: (Inr u)
        have t3: "deleted_question qid row ?t (pg_tables st3)"
          using q3 by (cases rule: query_cases) (auto simp: deleted_question_def Let_def row(2) t2 r3)
        have "commit L ?t st3 = (st', r)" using assms q1 r1 q2 r2 q3 r3 by (simp add: db_DeleteQuestion_def)
        from commit_cases[OF this] show thesis using no_effect deleted[OF row(1)] t3 by auto
      qed
    qed
  qed
qed

lemma delete_question_spec_deleted:
  assumes "tables_ok t" and row: "fmlookup (t_questions t) qid = Some row" and "deleted_question qid row t t'"
  shows "tables_ok t'" and "delete_question_spec qid (catalog_of t) (catalog_of t') (Inr ())"
proof -
  let ?t1 = "t\<lparr>t_questions := fmdrop qid (t_questions t)\<rparr>"
  from assms(3) obtain n where t': "t' = renumber (row_numbers L (qw_list row) n ?t1) ?t1"
    by (auto simp: deleted_question_def Let_def)
  show "tables_ok t'" unfolding t' by (intro tables_ok_renumber tables_ok_drop_question assms)
  have "in_order (drop_question qid (catalog_of t)) (qw_list row) (row_numbers L (qw_list row) n ?t1)"
    using row_numbers_order[of ?t1] unfolding catalog_drop_question .
  moreover have "catalog_of t' = positioned (qw_list row) (row_numbers L (qw_list row) n ?t1) (drop_question qid (catalog_of t))"
    unfolding t' catalog_row_numbers catalog_drop_question ..
  ultimately show "delete_question_spec qid (catalog_of t) (catalog_of t') (Inr ())"
    using row by (auto simp: delete_question_spec_def writes_def)
qed

lemma query_alive:
  assumes "alive (pg_net st)" and "query L texts f st = (st', r)" and "list_all text_param texts"
  shows "alive (pg_net st')" and "r = map_sum id snd (f (pg_net st) (pg_tables st))"
  using assms alive_send[OF assms(1)] by (auto simp: query_def Let_def split: prod.splits)

lemma commit_alive:
  assumes "alive (pg_net st)" and "commit L t st = (st', r)"
  shows "alive (pg_net st')" and "r = Inr ()"
  using assms alive_send[OF assms(1)] by (auto simp: commit_def split: prod.splits)

lemma rollback_alive: "alive (pg_net st) \<Longrightarrow> alive (pg_net (rollback L t st))"
  using alive_send[of "pg_net st"] by (cases "pc_send L (pg_net st)") (simp add: rollback_def)

lemma query_alive_net: "alive (pg_net st) \<Longrightarrow> query L texts f st = (st', r) \<Longrightarrow> alive (pg_net st')"
  using alive_send[of "pg_net st"] by (auto simp: query_def Let_def split: prod.splits delivery.splits)

lemma delete_question_alive:
  assumes a: "alive (pg_net st)" and d: "db_DeleteQuestion L qid st = (st', r)"
  shows "alive (pg_net st')" and "text_param qid \<Longrightarrow> r \<noteq> Inl ErrDB"
proof -
  obtain st1 r1 where q1: "query L [] (\<lambda>n t. Inr (t, ())) st = (st1, r1)" by fastforce
  have a1: "alive (pg_net st1)" and r1: "r1 = Inr ()" using query_alive[OF a q1] by auto
  obtain st2 r2 where q2: "delete_returning L qid st1 = (st2, r2)" by fastforce
  have a2: "alive (pg_net st2)" using query_alive_net[OF a1 q2[unfolded delete_returning_def]] .
  have r2: "r2 = Inl NoRows \<or> (\<exists>lid. r2 = Inr lid)" if "text_param qid"
    using query_alive(2)[OF a1 q2[unfolded delete_returning_def]] that by (auto split: option.splits)
  have "alive (pg_net st') \<and> (text_param qid \<longrightarrow> r \<noteq> Inl ErrDB)"
  proof (cases r2)
    case (Inl e)
    then have "st' = rollback L (pg_tables st) st2" "r = Inl (mapError e)"
      using d q1 r1 q2 by (auto simp: db_DeleteQuestion_def)
    then show ?thesis using rollback_alive[OF a2] r2 Inl by auto
  next
    case (Inr lid)
    obtain st3 r3 where q3: "query L [] (\<lambda>n t. Inr (renumber (row_numbers L lid n t) t, ())) st2 = (st3, r3)" by fastforce
    have a3: "alive (pg_net st3)" and r3: "r3 = Inr ()" using query_alive[OF a2 q3] by auto
    have "commit L (pg_tables st) st3 = (st', r)" using d q1 r1 q2 Inr q3 r3 by (simp add: db_DeleteQuestion_def)
    from commit_alive[OF a3 this] show ?thesis by simp
  qed
  then show "alive (pg_net st')" and "text_param qid \<Longrightarrow> r \<noteq> Inl ErrDB" by auto
qed

lemma pg_delete_question: "call_ok (delete_question_spec qid) (text_param qid) st (db_DeleteQuestion L qid st)"
  unfolding call_ok_def
proof
  obtain st' r where d: "db_DeleteQuestion L qid st = (st', r)" by fastforce
  show "obeys pg_ok pg_cat (delete_question_spec qid) st (db_DeleteQuestion L qid st)"
    using d
  proof (cases rule: delete_question_cases)
    case (deleted row)
    then show ?thesis using delete_question_spec_deleted[OF _ deleted(1,2)]
      by (auto simp: obeys_def pg_ok_def pg_cat_def d)
  qed (auto simp: obeys_def pg_ok_def pg_cat_def d delete_question_spec_def refuses_def)
  moreover have "pg_ok st \<Longrightarrow> pg_ok st'"
    using d by (cases rule: delete_question_cases) (auto simp: pg_ok_def dest: delete_question_spec_deleted(1))
  ultimately show "serves (pg_up alive) (text_param qid) st (db_DeleteQuestion L qid st)"
    using delete_question_alive[OF _ d] by (auto simp: serves_def pg_up_def d)
qed

end

section \<open>Themes\<close>

lemma scanTheme_simps [simp]:
  "th_ID (scanTheme i r) = i" "th_QuestionListID (scanTheme i r) = coalesce (tw_list r)" "th_Name (scanTheme i r) = tw_name r"
  by (simp_all add: scanTheme_def)

lemma catalog_set_theme:
  "catalog_of (t\<lparr>t_themes := fmupd i r (t_themes t)\<rparr>) = set_theme (scanTheme i r) (catalog_of t)"
  by (rule catalog_eqI) (auto simp: set_theme_def)

lemma coalesce_eq_nullable:
  "(\<And>l. x = Some l \<Longrightarrow> l \<noteq> '''') \<Longrightarrow> coalesce x = s \<longleftrightarrow> x = nullableText s"
  by (auto simp: coalesce_def nullableText_def split: option.splits)

context pg_connection begin

lemma name_in_scope_taken:
  assumes "tables_ok t"
  shows "name_in_scope L t (nullableText lid) name i \<longleftrightarrow> name_taken (pc_lower L) (catalog_of t) lid name i"
proof -
  have "coalesce (tw_list r) = lid \<longleftrightarrow> tw_list r = nullableText lid" if "fmlookup (t_themes t) j = Some r" for j r
    using tables_okD(3)[OF assms that] by (intro coalesce_eq_nullable) blast
  then show ?thesis
    unfolding name_in_scope_def name_taken_def catalog_of_simps bex_simps
    by (fastforce simp: in_ran_keys fmlookup_iff_dom Bex_def Let_def)
qed

lemma pg_create_theme:
  "call_ok (create_theme_spec micros (pc_lower L) h)
     ((th_QuestionListID h = '''' \<or> th_QuestionListID h |\<in>| fmdom (c_lists (pg_cat st))) \<and>
       list_all text_param [th_ID h, th_QuestionListID h, th_Name h, th_Description h]) st (db_CreateTheme L h st)"
  unfolding db_CreateTheme_def comp_apply
proof (rule query_call, goal_cases)
  case (2 n t)
  have "tables_ok (t\<lparr>t_themes := fmupd (th_ID h) r (t_themes t)\<rparr>)"
    if "tw_list r = nullableText (th_QuestionListID h)" "references (nullableText (th_QuestionListID h)) (t_lists t)" for r
    using 2(1) that by (auto simp: tables_ok_def references_def nullableText_def split: if_splits)
  then show ?case using 2
    by (auto simp: create_theme_spec_def name_in_scope_taken Let_def refuses_def writes_def catalog_set_theme scanTheme_def themeScope_eq
        intro!: arg_cong[of _ _ "\<lambda>x. set_theme x _"])
next
  case (3 n t)
  then show ?case by (auto simp: Let_def pg_cat_def references_def nullableText_def)
qed simp

lemma pg_get_theme: "call_ok (get_theme_spec i) (text_param i) st (db_GetTheme L i st)"
  unfolding db_GetTheme_def comp_apply query_row_eq
  by (rule query_call) (auto simp: get_theme_spec_def reads_def split: option.splits)

lemma pg_themes:
  assumes "\<And>i r. fmlookup (t_themes t) i = Some r \<Longrightarrow> P r \<longleftrightarrow> coalesce (tw_list r) = lid" and "tables_ok t"
  shows "stmt_ok (themes_spec lid) wrapped Inr t (Inr (t, scanThemeRows t (themes_by_name L P n t)))"
proof -
  let ?ids = "themes_by_name L P n t" and ?h = "\<lambda>i. scanTheme i (the (fmlookup (t_themes t) i))"
  have ids: "set ?ids = {i. \<exists>r. fmlookup (t_themes t) i = Some r \<and> P r}" "distinct ?ids"
    by (auto simp: themes_by_name_def)
  have "set (map ?h ?ids) = {h. h \<in> fmran' (c_themes (catalog_of t)) \<and> th_QuestionListID h = lid}"
    by (auto simp: ids in_ran_keys image_iff assms(1)) (metis assms(1) option.sel)+
  moreover have "map th_ID (map ?h ?ids) = ?ids" by (simp add: comp_def)
  ultimately show ?thesis
    using assms(2) ids(2) by (simp add: themes_spec_def reads_def scanThemeRows_def)
qed

lemma pg_global_themes: "call_ok (themes_spec '''') True st (db_ListGlobalThemes L st)"
  unfolding db_ListGlobalThemes_def comp_apply
proof (rule query_call, goal_cases)
  case (2 n t)
  show ?case by (rule pg_themes[OF _ 2(1)]) (auto simp: coalesce_def dest: tables_okD(3)[OF 2(1)] split: option.splits)
qed simp_all

lemma pg_list_themes:
  assumes "lid \<noteq> ''''"
  shows "call_ok (themes_spec lid) (text_param lid) st (db_ListQuestionListThemes L lid st)"
  unfolding db_ListQuestionListThemes_def comp_apply
proof (rule query_call, goal_cases)
  case (2 n t)
  show ?case by (rule pg_themes[OF _ 2(1)]) (use assms in \<open>auto simp: coalesce_def split: option.splits\<close>)
qed simp_all

lemma pg_update_theme:
  "call_ok (update_theme_spec micros (pc_lower L) h) (list_all text_param [th_ID h, th_Name h, th_Description h]) st (db_UpdateTheme L h st)"
  unfolding db_UpdateTheme_def comp_apply
proof (rule query_call, goal_cases)
  case (2 n t)
  show ?case
  proof (cases "fmlookup (t_themes t) (th_ID h)")
    case None
    then show ?thesis using 2 by (simp add: update_theme_spec_def refuses_def)
  next
    case (Some r)
    have n: "nullableText (coalesce (tw_list r)) = tw_list r"
      using tables_okD(3)[OF 2(1) Some] by (auto simp: coalesce_def nullableText_def split: option.splits)
    have "tables_ok (t\<lparr>t_themes := fmupd (th_ID h) r' (t_themes t)\<rparr>)" if "tw_list r' = tw_list r" for r'
      using 2(1) Some that unfolding tables_ok_def by auto
    then show ?thesis using Some name_in_scope_taken[OF 2(1), of "coalesce (tw_list r)", unfolded n]
      by (auto simp: update_theme_spec_def refuses_def writes_def catalog_set_theme scanTheme_def
          intro!: arg_cong[of _ _ "\<lambda>x. set_theme x _"])
  qed
qed (auto split: option.splits)

lemma pg_delete_theme: "call_ok (delete_theme_spec i) (text_param i) st (db_DeleteTheme L i st)"
  unfolding db_DeleteTheme_def comp_apply
proof (rule query_call, goal_cases)
  case (2 n t)
  have "tables_ok (delete_themes (\<lambda>j. j = i) t)"
    by (rule tables_ok_delete_themes) (use tables_okD[OF 2(1)] in blast)+
  then show ?case using 2(1)
    by (auto simp: delete_theme_spec_def refuses_def writes_def catalog_delete_themes fmlookup_iff_dom split: option.splits)
qed auto

end

section \<open>The contract\<close>

context pg_connection begin

lemma pg_store: "catalog_store (pgQuestionListStore L) (pgThemeStore L) pg_cat micros (pc_lower L) text_param pg_ok (pg_up alive)"
proof (unfold_locales, goal_cases)
  case (1 st)
  then show ?case unfolding pg_cat_def pg_ok_def by (rule rows_ok_catalog)
next
  case (2 st)
  then show ?case by (simp add: pg_up_def)
qed (insert pg_create_list pg_get_list pg_update_list pg_delete_list pg_public_lists pg_private_lists
    pg_create_question pg_get_question pg_update_question pg_delete_question pg_reorder pg_list_questions
    pg_create_theme pg_get_theme pg_global_themes pg_list_themes pg_update_theme pg_delete_theme,
    simp_all add: call_ok_def pgQuestionListStore_def pgThemeStore_def)

end

sublocale pg_connection \<subseteq> pg: catalog_store "pgQuestionListStore L" "pgThemeStore L" pg_cat micros "pc_lower L" text_param pg_ok "pg_up alive"
  by (rule pg_store)

end
