(* ===== verification/Postgres_Memory.thy ===== *)
theory Postgres_Memory
  imports Postgres_Catalog
begin

text \<open>
  A concrete connection, for runs: it follows a script of deliveries, reads rows in the order of
  their keys and folds ASCII letters.
\<close>

record mem_pgnet =
  mp_outcomes :: "delivery list"
  mp_now :: time

definition mem_pgsend :: "mem_pgnet \<Rightarrow> mem_pgnet \<times> delivery" where
  "mem_pgsend n = (case mp_outcomes n of [] \<Rightarrow> (n, Delivered) | d # ds \<Rightarrow> (n\<lparr>mp_outcomes := ds\<rparr>, d))"

definition ascii_lower :: "char \<Rightarrow> char" where
  "ascii_lower c = (if CHR ''A'' \<le> c \<and> c \<le> CHR ''Z'' then char_of (of_char c + 32 :: nat) else c)"

definition mem_pg :: "mem_pgnet pgconn" where
  "mem_pg = \<lparr>pc_send = mem_pgsend, pc_now = mp_now, pc_scan = (\<lambda>n xs. xs), pc_pick = (\<lambda>n ks. hd ks),
     pc_lower = map ascii_lower, pc_rank = (\<lambda>s. s)\<rparr>"

definition mem_alive :: "mem_pgnet \<Rightarrow> bool" where
  "mem_alive n \<longleftrightarrow> mp_outcomes n = []"

interpretation mem_pg: pg_connection mem_pg mem_alive
  by unfold_locales (auto simp: mem_pg_def mem_alive_def mem_pgsend_def)

lemma mem_pg_connection: "pg_connection mem_pg mem_alive"
  by (rule mem_pg.pg_connection_axioms)

definition empty_tables :: tables where
  "empty_tables = \<lparr>t_games = fmempty, t_players = fmempty, t_lists = fmempty, t_questions = fmempty, t_themes = fmempty\<rparr>"

end
