(* ===== verification/Catalog_Properties.thy ===== *)
theory Catalog_Properties
  imports Catalog_Runs Postgres_Memory
begin

text \<open>
  The properties of the catalog on PostgreSQL: the handlers of \<open>Question_Lists\<close> and \<open>Themes\<close> over the
  stores of \<open>Postgres\<close>. Those that hold whatever fails are stated for every connection; those about
  what a request achieves for a connection that is up.
\<close>

definition pg_serve :: "'n pgconn \<Rightarrow> ctx \<Rightarrow> catalog_request \<Rightarrow> 'n pgstate \<Rightarrow> 'n pgstate \<times> response" where
  "pg_serve L = serve_catalog (qlHandler (pgQuestionListStore L) (pgThemeStore L)) (themeHandler (pgQuestionListStore L) (pgThemeStore L))"

definition actor :: "ctx \<Rightarrow> devActor" where
  "actor cx = extractActor (cx_Actor cx)"

section \<open>An example catalog\<close>

definition ex_row :: "int \<Rightarrow> question_row" where
  "ex_row k = \<lparr>qw_list = ''L'', qw_text = ''2+2?'', qw_options = [\<lparr>or_ID = ''a'', or_Text = ''4''\<rparr>, \<lparr>or_ID = ''b'', or_Text = ''5''\<rparr>],
     qw_correct = ''a'', qw_order = k, qw_theme = None, qw_created = 0\<rparr>"

definition ex_list :: list_row where
  "ex_list = \<lparr>lw_name = ''Sums'', lw_description = '''', lw_visibility = ''public'', lw_owner_type = ''admin'', lw_owner_id = '''',
     lw_created = 0, lw_updated = 0\<rparr>"

definition ex_tables :: tables where
  "ex_tables = empty_tables\<lparr>t_lists := fmupd ''L'' ex_list fmempty,
     t_questions := fmupd ''q2'' (ex_row 1) (fmupd ''q1'' (ex_row 0) fmempty)\<rparr>"

definition ex_pg :: "delivery list \<Rightarrow> mem_pgnet pgstate" where
  "ex_pg ds = \<lparr>pg_tables = ex_tables, pg_net = \<lparr>mp_outcomes = ds, mp_now = 0\<rparr>\<rparr>"

definition ex_ctx :: "string \<Rightarrow> string \<Rightarrow> ctx" where
  "ex_ctx ty i = \<lparr>cx_Actor = Some \<lparr>ac_Sub = i, ac_Name = i, ac_Email = '''', ac_ActorType = ty\<rparr>, cx_now = 0,
     cx_uuid = (\<lambda>n. ''u'' @ itoa (int n))\<rparr>"

definition ex_request :: questionRequest where
  "ex_request = \<lparr>qq_Text = ''3+3?'', qq_Options = [(''a'', ''6''), (''b'', ''7'')], qq_CorrectOptionID = ''a'', qq_ThemeID = ''''\<rparr>"

lemma ex_tables_simps:
  "t_lists ex_tables = fmupd ''L'' ex_list fmempty" "t_themes ex_tables = fmempty"
  "t_questions ex_tables = fmupd ''q2'' (ex_row 1) (fmupd ''q1'' (ex_row 0) fmempty)"
  by (simp_all add: ex_tables_def empty_tables_def)

lemma ex_pg_simps [simp]:
  "pg_cat (ex_pg ds) = catalog_of ex_tables" "pg_ok (ex_pg ds)" "pg_up mem_alive (ex_pg []) "
  by (simp_all add: pg_cat_def pg_ok_def pg_up_def ex_pg_def mem_alive_def)
    (auto simp: tables_ok_def ex_tables_simps ex_row_def split: if_splits)

lemma ex_position:
  "position (catalog_of ex_tables) lid i =
     (if lid = ''L'' then (if i = ''q1'' then Some 0 else if i = ''q2'' then Some 1 else None) else None)"
  by (simp add: position_def ex_tables_simps question_of_def ex_row_def)

lemma ex_numbered: "numbered (catalog_of ex_tables) ''L'' [''q1'', ''q2'']"
  by (auto simp: numbered_position ex_position less_Suc_eq)

lemma ex_catalog_ok: "catalog_ok lower (catalog_of ex_tables)"
  unfolding catalog_ok_def
proof (intro conjI allI)
  show "lists_ok (catalog_of ex_tables)"
    by (auto simp: lists_ok_def ex_tables_simps ex_list_def scan_list_def list_ok_def ListVisibilityPublic_def ActorTypeAdmin_def split: if_splits)
  show "questions_ok (catalog_of ex_tables)"
    by (auto simp: questions_ok_def ex_tables_simps ex_row_def question_of_def question_ok_def options_ok_def theme_usable_def split: if_splits)
  show "themes_ok lower (catalog_of ex_tables)"
    by (auto simp: themes_ok_def ex_tables_simps)
  show "\<exists>ids. numbered (catalog_of ex_tables) lid ids" for lid
  proof (cases "lid = ''L''")
    case True
    then show ?thesis using ex_numbered by auto
  next
    case False
    then have "numbered (catalog_of ex_tables) lid []" by (simp add: numbered_position ex_position)
    then show ?thesis ..
  qed
qed

lemma ex_lookup:
  "fmlookup (c_lists (catalog_of ex_tables)) ''L'' = Some (scan_list ''L'' ex_list)"
  "canEditList (extractActor (cx_Actor (ex_ctx ''admin'' ''root''))) (scan_list ''L'' ex_list)"
  "canReadList (extractActor (cx_Actor (ex_ctx ty i))) (scan_list ''L'' ex_list)"
  by (simp_all add: ex_tables_simps canEditList_def canReadList_def extractActor_def ex_ctx_def scan_list_def ex_list_def
      ListVisibilityPublic_def ListVisibilityPrivate_def ActorTypeAdmin_def)

section \<open>The contract\<close>

text \<open>
  C24: the tables implement the interface. On every connection, whatever it loses, each statement of
  the code does on the rows what \<open>store.go\<close> promises of the operation (\<open>catalog_store\<close>), or fails
  before or after its whole effect; and it never fails without need on a connection that is up.
\<close>

theorem postgres_catalog:
  assumes "pg_connection L alive"
  shows "catalog_store (pgQuestionListStore L) (pgThemeStore L) pg_cat micros (pc_lower L) text_param pg_ok (pg_up alive)"
  by (rule pg_connection.pg_store[OF assms])

theorem postgres_catalog_witness:
  "catalog_store (pgQuestionListStore mem_pg) (pgThemeStore mem_pg) pg_cat micros (map ascii_lower) text_param pg_ok (pg_up mem_alive)"
  using postgres_catalog[OF mem_pg_connection] by (simp add: mem_pg_def)

section \<open>Whatever fails\<close>

lemma pg_handled:
  assumes "pg_connection L alive" and "pg_ok st" and "named_list req \<noteq> Some ''''"
  shows "pg_ok (fst (pg_serve L cx req st))"
    and "catalog_step (pc_lower L) (actor cx) (pg_cat st) (pg_cat (fst (pg_serve L cx req st)))"
    and "discloses (snd (pg_serve L cx req st)) \<Longrightarrow>
      (case named_list req of None \<Rightarrow> False | Some lid \<Rightarrow> editable (actor cx) (pg_cat st) lid)"
proof -
  note cs = pg_connection.pg_store[OF assms(1)]
  from catalog_store.serve_catalog_handled[OF cs assms(2,3), of cx]
  show "pg_ok (fst (pg_serve L cx req st))"
    and "catalog_step (pc_lower L) (actor cx) (pg_cat st) (pg_cat (fst (pg_serve L cx req st)))"
    and "discloses (snd (pg_serve L cx req st)) \<Longrightarrow>
      (case named_list req of None \<Rightarrow> False | Some lid \<Rightarrow> editable (actor cx) (pg_cat st) lid)"
    by (auto simp: catalog_store.handled_def[OF cs] pg_serve_def actor_def split: option.splits)
qed

lemma pg_ok_rows: "pg_ok st \<Longrightarrow> rows_ok (pg_cat st)"
  unfolding pg_ok_def pg_cat_def by (rule rows_ok_catalog)

text \<open>
  C25: the catalog stays sound. After any requests, one after another, on any connection: every list
  has a name and an owner that fits its visibility; every question has a text, at least two options
  with different IDs, the correct one among them, and a theme that is global or of its list; the
  questions of each list are numbered from 0 without gaps; every theme has a trimmed name of at most
  100 characters, unique in its scope.
\<close>

theorem catalog_stays_sound:
  assumes "pg_connection L alive" and "pg_ok st" and "catalog_ok (pc_lower L) (pg_cat st)"
    and "\<forall>(cx, req) \<in> set reqs. named_list req \<noteq> Some ''''"
  shows "pg_ok (serve_all (pgQuestionListStore L) (pgThemeStore L) reqs st) \<and>
    catalog_ok (pc_lower L) (pg_cat (serve_all (pgQuestionListStore L) (pgThemeStore L) reqs st))"
  using assms(2-)
proof (induction reqs arbitrary: st)
  case (Cons r reqs)
  obtain cx req where r: "r = (cx, req)" by fastforce
  have req: "named_list req \<noteq> Some ''''" using Cons.prems(3) by (simp add: r)
  note h = pg_handled[OF assms(1) Cons.prems(1) req, of cx]
  have "catalog_ok (pc_lower L) (pg_cat (fst (pg_serve L cx req st)))"
    by (rule catalog_ok_step[OF h(2) Cons.prems(2) pg_ok_rows[OF Cons.prems(1)]])
  then show ?case using Cons.IH[OF h(1)] Cons.prems(3) by (simp add: r pg_serve_def)
qed simp

theorem catalog_stays_sound_witness:
  "let st = serve_all (pgQuestionListStore mem_pg) (pgThemeStore mem_pg)
       [(ex_ctx ''admin'' ''root'', AddQuestion ''L'' (Some ex_request)), (ex_ctx ''admin'' ''root'', DeleteQuestion ''L'' ''q1'')]
       (ex_pg [Delivered, Delivered, LostReply])
   in pg_ok st \<and> catalog_ok (map ascii_lower) (pg_cat st)"
  using catalog_stays_sound[OF mem_pg_connection, of "ex_pg [Delivered, Delivered, LostReply]"
      "[(ex_ctx ''admin'' ''root'', AddQuestion ''L'' (Some ex_request)), (ex_ctx ''admin'' ''root'', DeleteQuestion ''L'' ''q1'')]"]
  by (simp add: ex_catalog_ok Let_def) (simp add: mem_pg_def)

text \<open>
  C26: only those who may change the catalog change it. On any connection, a request changes a
  list, its questions or its themes only if its actor may edit the list (an admin a public one, the
  owner a private one), except that questions lose a global theme that is deleted; it changes global
  themes only for an admin; and the list it creates is public only for an admin, private only for a
  user.
\<close>

theorem only_editors_change:
  assumes "pg_connection L alive" and "pg_ok st" and "named_list req \<noteq> Some ''''"
    and "pg_serve L cx req st = (st', r)"
  shows "(\<forall>lid. lid |\<in>| fmdom (c_lists (pg_cat st)) \<and> lid \<noteq> '''' \<and> \<not> editable (actor cx) (pg_cat st) lid \<longrightarrow>
      untouched (pg_cat st) (pg_cat st') lid) \<and>
    (da_Type (actor cx) \<noteq> ActorTypeAdmin \<longrightarrow> global_untouched (pg_cat st) (pg_cat st')) \<and>
    (\<forall>i l. fmlookup (c_lists (pg_cat st')) i = Some l \<and> i |\<notin>| fmdom (c_lists (pg_cat st)) \<longrightarrow>
      (ql_Visibility l = ListVisibilityPublic \<longrightarrow> da_Type (actor cx) = ActorTypeAdmin) \<and>
      (ql_Visibility l = ListVisibilityPrivate \<longrightarrow> da_Type (actor cx) = ActorTypeUser))"
proof -
  have step: "catalog_step (pc_lower L) (actor cx) (pg_cat st) (pg_cat st')"
    using pg_handled(2)[OF assms(1-3), of cx] assms(4) by simp
  show ?thesis
    using step_untouched[OF step] step_global[OF step] step_new_list[OF step] by blast
qed

theorem only_editors_change_witness:
  "untouched (pg_cat (ex_pg [])) (pg_cat (fst (pg_serve mem_pg (ex_ctx ''user'' ''eve'') (DeleteList ''L'') (ex_pg [])))) ''L''"
  using only_editors_change[OF mem_pg_connection, of "ex_pg []" "DeleteList ''L''" "ex_ctx ''user'' ''eve''"
      "fst (pg_serve mem_pg (ex_ctx ''user'' ''eve'') (DeleteList ''L'') (ex_pg []))"
      "snd (pg_serve mem_pg (ex_ctx ''user'' ''eve'') (DeleteList ''L'') (ex_pg []))"]
  by (simp add: ex_tables_simps editable_iff canEditList_def actor_def extractActor_def ex_ctx_def scan_list_def ex_list_def
      ListVisibilityPublic_def ActorTypeAdmin_def)



section \<open>On a connection that is up\<close>

text \<open>
  C28: reordering. On a connection that is up, an editor's request to reorder the questions of a list
  succeeds exactly if it names every question of the list once; then the list has the new order and the
  response is the questions in it, and otherwise it is refused as \<open>invalid_order\<close> and nothing changes.
\<close>

theorem reorder_questions:
  assumes "pg_connection L alive" and "pg_up alive st"
    and "fmlookup (c_lists (pg_cat st)) lid = Some l" and "canEditList (actor cx) l"
    and "numbered (pg_cat st) lid ids" and "list_all text_param (lid # ids)"
  shows "\<exists>st' r. pg_serve L cx (ReorderQuestions lid (Some new)) st = (st', r) \<and> pg_up alive st' \<and>
    (if mset new = mset ids
     then r = writeJSON 200 (questions_json (listed (positioned lid new (pg_cat st)) new)) \<and>
       pg_cat st' = positioned lid new (pg_cat st) \<and> numbered (pg_cat st') lid new
     else r = writeErrorCode 400 ''invalid_order'' ''question_ids must list every question of the list exactly once'' \<and>
       pg_cat st' = pg_cat st)"
proof (cases "mset new = mset ids")
  case True
  show ?thesis
    by (rule catalog_store.reorder_runs[OF pg_connection.pg_store[OF assms(1)] assms(2,3) assms(4)[unfolded actor_def] assms(5,6) True])
      (simp add: pg_serve_def True)
next
  case False
  show ?thesis
    by (rule catalog_store.reorder_refused[OF pg_connection.pg_store[OF assms(1)] assms(2,3) assms(4)[unfolded actor_def] assms(5) _ False])
      (use assms(6) False in \<open>simp_all add: pg_serve_def\<close>)
qed

theorem reorder_questions_witness:
  "snd (pg_serve mem_pg (ex_ctx ''admin'' ''root'') (ReorderQuestions ''L'' (Some [''q1'', ''q1''])) (ex_pg [])) =
     writeErrorCode 400 ''invalid_order'' ''question_ids must list every question of the list exactly once'' \<and>
   numbered (pg_cat (fst (pg_serve mem_pg (ex_ctx ''admin'' ''root'') (ReorderQuestions ''L'' (Some [''q2'', ''q1''])) (ex_pg [])))) ''L'' [''q2'', ''q1'']"
  using reorder_questions[OF mem_pg_connection, of "ex_pg []" "''L''" "scan_list ''L'' ex_list" "ex_ctx ''admin'' ''root''" "[''q1'', ''q2'']" "[''q1'', ''q1'']"]
    reorder_questions[OF mem_pg_connection, of "ex_pg []" "''L''" "scan_list ''L'' ex_list" "ex_ctx ''admin'' ''root''" "[''q1'', ''q2'']" "[''q2'', ''q1'']"]
  by (auto simp: ex_lookup ex_tables_simps ex_numbered text_param_def actor_def)

text \<open>
  C29: deletion. On a connection that is up, deleting a question leaves the other questions of the list
  in their order, numbered from 0 without a gap, and every other list as it was.
\<close>

theorem delete_question:
  assumes "pg_connection L alive" and "pg_up alive st"
    and "fmlookup (c_lists (pg_cat st)) lid = Some l" and "canEditList (actor cx) l"
    and "numbered (pg_cat st) lid ids" and "qid \<in> set ids" and "text_param lid" and "text_param qid"
  shows "\<exists>st'. pg_serve L cx (DeleteQuestion lid qid) st = (st', noContent) \<and> pg_up alive st' \<and>
    numbered (pg_cat st') lid (removeAll qid ids) \<and>
    pg_cat st' = positioned lid (removeAll qid ids) (drop_question qid (pg_cat st))"
  by (rule catalog_store.delete_runs[OF pg_connection.pg_store[OF assms(1)] assms(2,3) assms(4)[unfolded actor_def] assms(5,7,8,6)])
    (simp add: pg_serve_def)

theorem delete_question_witness:
  "numbered (pg_cat (fst (pg_serve mem_pg (ex_ctx ''admin'' ''root'') (DeleteQuestion ''L'' ''q1'') (ex_pg [])))) ''L'' [''q2'']"
  using delete_question[OF mem_pg_connection, of "ex_pg []" "''L''" "scan_list ''L'' ex_list" "ex_ctx ''admin'' ''root''" "[''q1'', ''q2'']" "''q1''"]
  by (auto simp: ex_lookup ex_tables_simps ex_numbered text_param_def actor_def)

text \<open>
  C30: what is added is listed. On a connection that is up, a valid question that an editor adds is
  stored under a new ID at the end of its list, and listing the list then gives the questions it had
  and, last, the question as it was sent.
\<close>

theorem add_then_list:
  assumes "pg_connection L alive" and "pg_up alive st"
    and "fmlookup (c_lists (pg_cat st)) lid = Some l" and "canEditList (actor cx) l" and "canReadList (actor cx) l"
    and "numbered (pg_cat st) lid ids" and "length ids < 2 ^ 31"
    and "decodeQuestion (cx_uuid cx) body = Inr (req, opts, k)"
    and "cx_uuid cx k |\<notin>| fmdom (c_questions (pg_cat st))" and "theme_usable (pg_cat st) lid (qq_ThemeID req)"
    and "list_all text_param (question_texts (new_question (cx_uuid cx k) lid (length ids) req opts))"
  shows "\<exists>st1 st2. pg_serve L cx (AddQuestion lid body) st = (st1, writeJSON 201 (JObj [(''question_id'', JStr (cx_uuid cx k))])) \<and>
    pg_serve L cx (ListQuestions lid None) st1 = (st2, writeJSON 200 (questions_json (listed (pg_cat st) ids @
      [with_theme (pg_cat st) (new_question (cx_uuid cx k) lid (length ids) req opts)])))"
proof -
  note cs = pg_connection.pg_store[OF assms(1)] and edit = assms(4)[unfolded actor_def] and reads = assms(5)[unfolded actor_def]
  let ?q = "new_question (cx_uuid cx k) lid (length ids) req opts"
  obtain st1 where 1: "pg_serve L cx (AddQuestion lid body) st = (st1, writeJSON 201 (JObj [(''question_id'', JStr (cx_uuid cx k))]))"
    "pg_up alive st1" "pg_cat st1 = set_question ?q (pg_cat st)" "numbered (pg_cat st1) lid (ids @ [cx_uuid cx k])"
    by (rule catalog_store.add_runs[OF cs assms(2,3) edit assms(6,8-11,7)]) (simp add: pg_serve_def)
  have l: "fmlookup (c_lists (pg_cat st1)) lid = Some l" using assms(3) by (simp add: 1(3) set_question_def)
  have t: "text_param lid" using assms(11) by (simp add: question_texts_def new_question_def)
  have "listed (pg_cat st1) (ids @ [cx_uuid cx k]) = listed (pg_cat st) ids @ [with_theme (pg_cat st) ?q]"
    using catalog_store.listed_set_question[OF cs, of ?q ids "pg_cat st"] assms(6,9)
    by (auto simp: 1(3) new_question_def numbered_def fmlookup_iff_dom)
  moreover obtain st2 where "pg_serve L cx (ListQuestions lid None) st1 =
      (st2, writeJSON 200 (questions_json (listed (pg_cat st1) (ids @ [cx_uuid cx k]))))"
    by (rule catalog_store.list_runs[OF cs 1(2) l edit reads 1(4) t]) (simp add: pg_serve_def)
  ultimately show ?thesis using 1(1) by simp
qed

theorem add_then_list_witness:
  "let cx = ex_ctx ''admin'' ''root''; st1 = fst (pg_serve mem_pg cx (AddQuestion ''L'' (Some ex_request)) (ex_pg [])) in
   \<exists>st2. pg_serve mem_pg cx (ListQuestions ''L'' None) st1 = (st2, writeJSON 200 (questions_json (listed (pg_cat (ex_pg [])) [''q1'', ''q2''] @
     [new_question ''u0'' ''L'' 2 ex_request [\<lparr>or_ID = ''a'', or_Text = ''6''\<rparr>, \<lparr>or_ID = ''b'', or_Text = ''7''\<rparr>]])))"
proof -
  let ?cx = "ex_ctx ''admin'' ''root''"
  let ?opts = "[\<lparr>or_ID = ''a'', or_Text = ''6''\<rparr>, \<lparr>or_ID = ''b'', or_Text = ''7''\<rparr>]"
  have u: "cx_uuid ?cx 0 = ''u0''" by (simp add: ex_ctx_def) code_simp
  have d: "decodeQuestion (cx_uuid ?cx) (Some ex_request) = Inr (ex_request, ?opts, 0)"
    by (simp add: decodeQuestion_def ex_request_def)
  have t: "theme_usable (catalog_of ex_tables) ''L'' (qq_ThemeID ex_request)"
    "list_all text_param (question_texts (new_question ''u0'' ''L'' 2 ex_request ?opts))"
    "with_theme c (new_question ''u0'' ''L'' 2 ex_request ?opts) = new_question ''u0'' ''L'' 2 ex_request ?opts" for c
    by (simp_all add: theme_usable_def ex_request_def question_texts_def new_question_def text_param_def with_theme_def)
  have two: "Suc (Suc 0) = 2" by simp
  show ?thesis
    using add_then_list[OF mem_pg_connection, of "ex_pg []" "''L''" "scan_list ''L'' ex_list" ?cx "[''q1'', ''q2'']" "Some ex_request" ex_request ?opts 0]
    by (auto simp: ex_lookup ex_tables_simps ex_numbered text_param_def actor_def u d Let_def two t)
qed

end
