(* ===== verification/Auth_Properties.thy ===== *)
theory Auth_Properties
  imports Auth
begin

text \<open>
  The properties of the login: the session that \<open>Callback\<close> gives is the one that \<open>Middleware\<close> accepts.
  They hold of every token library that keeps the locale \<open>jwt\<close>; \<open>plain_tokens\<close> is a concrete one, for
  runs: a token is the secret and the claims, written with lengths (it signs nothing).
\<close>

section \<open>A concrete token library\<close>

text \<open>A text with its length in front, in unary.\<close>

definition put_text :: "string \<Rightarrow> string" where
  "put_text s = replicate (length s) CHR 0x01 @ CHR 0x00 # s"

definition get_text :: "string \<Rightarrow> (string \<times> string) option" where
  "get_text s = (let n = length (takeWhile (\<lambda>c. c = CHR 0x01) s) in
     case drop n s of [] \<Rightarrow> None | c # rest \<Rightarrow> Some (take n rest, drop n rest))"

lemma get_put_text [simp]: "get_text (put_text s @ rest) = Some (s, rest)"
proof -
  have "takeWhile (\<lambda>c. c = CHR 0x01) (replicate (length s) CHR 0x01 @ CHR 0x00 # s @ rest) = replicate (length s) CHR 0x01"
    by (simp add: takeWhile_append)
  then show ?thesis by (simp add: get_text_def put_text_def Let_def)
qed

definition put_int :: "int \<Rightarrow> string" where
  "put_int i = put_text (itoa i)"

definition int_value :: "string \<Rightarrow> int option" where
  "int_value s = (case s of [] \<Rightarrow> None
     | c # ds \<Rightarrow> (if c = CHR ''-'' then map_option (\<lambda>n. - int n) (digits_value 0 ds) else map_option int (digits_value 0 s)))"

definition get_int :: "string \<Rightarrow> (int \<times> string) option" where
  "get_int s = (case get_text s of None \<Rightarrow> None | Some (t, rest) \<Rightarrow> map_option (\<lambda>i. (i, rest)) (int_value t))"

lemma int_value_itoa [simp]: "int_value (itoa i) = Some i"
proof (cases "i < 0")
  case True
  then show ?thesis by (simp add: int_value_def itoa_def value_nat_digits)
next
  case False
  obtain c ds where c: "nat_digits (nat i) = c # ds" using nat_digits_nonempty by (cases "nat_digits (nat i)") auto
  then have "c \<noteq> CHR ''-''" using nat_digits_not_minus by metis
  then show ?thesis using False value_nat_digits[of "nat i"] by (simp add: int_value_def itoa_def c)
qed

lemma get_put_int [simp]: "get_int (put_int i @ rest) = Some (i, rest)"
  by (simp add: get_int_def put_int_def)

definition put_date :: "int option \<Rightarrow> string" where
  "put_date d = (case d of None \<Rightarrow> put_int 0 | Some i \<Rightarrow> put_int 1 @ put_int i)"

definition get_date :: "string \<Rightarrow> (int option \<times> string) option" where
  "get_date s = (case get_int s of None \<Rightarrow> None
     | Some (k, rest) \<Rightarrow> (if k = 0 then Some (None, rest) else map_option (\<lambda>(i, rest). (Some i, rest)) (get_int rest)))"

lemma get_put_date [simp]: "get_date (put_date d @ rest) = Some (d, rest)"
  by (cases d) (simp_all add: get_date_def put_date_def)

fun put_fields :: "(string \<times> string) list \<Rightarrow> string" where
  "put_fields [] = []"
| "put_fields ((f, v) # fs) = put_text f @ put_text v @ put_fields fs"

fun get_fields :: "nat \<Rightarrow> string \<Rightarrow> (string \<times> string) list option" where
  "get_fields 0 s = Some []"
| "get_fields (Suc n) s = (case get_text s of None \<Rightarrow> None
     | Some (f, s') \<Rightarrow> (case get_text s' of None \<Rightarrow> None
       | Some (v, s'') \<Rightarrow> map_option ((#) (f, v)) (get_fields n s'')))"

lemma get_put_fields [simp]: "get_fields (length fs) (put_fields fs) = Some fs"
  by (induction fs rule: put_fields.induct) simp_all

definition plain_sign :: "string \<Rightarrow> claims \<Rightarrow> string" where
  "plain_sign key c = put_text key @ put_date (cl_exp c) @ put_date (cl_iat c) @ put_int (int (length (cl_fields c))) @
     put_fields (cl_fields c)"

definition plain_parse :: "string \<Rightarrow> time \<Rightarrow> string \<Rightarrow> claims option" where
  "plain_parse key now s = (case get_text s of None \<Rightarrow> None
     | Some (k, s1) \<Rightarrow> if k \<noteq> key then None else (case get_date s1 of None \<Rightarrow> None
     | Some (e, s2) \<Rightarrow> (case get_date s2 of None \<Rightarrow> None
     | Some (i, s3) \<Rightarrow> (case get_int s3 of None \<Rightarrow> None
     | Some (n, s4) \<Rightarrow> (case get_fields (nat n) s4 of None \<Rightarrow> None
     | Some fs \<Rightarrow> (let c = \<lparr>cl_fields = fs, cl_exp = e, cl_iat = i\<rparr> in if expired now c then None else Some c))))))"

definition plain_tokens :: "string tokens" where
  "plain_tokens = \<lparr>tk_sign = plain_sign, tk_parse = plain_parse\<rparr>"

interpretation plain_tokens: jwt plain_tokens "\<lambda>s. True"
  by unfold_locales (simp add: plain_tokens_def plain_sign_def plain_parse_def Let_def expired_def)

lemma plain_jwt: "jwt plain_tokens (\<lambda>s. True)"
  by (rule plain_tokens.jwt_axioms)

section \<open>Sessions\<close>

text \<open>The time at which a token of \<open>NewSessionToken\<close> and one of \<open>NewStateToken\<close> expires.\<close>

definition session_end :: "time \<Rightarrow> time" where
  "session_end now = 1000000000 * numeric_date (now + sessionTTL)"

definition state_end :: "time \<Rightarrow> time" where
  "state_end now = 1000000000 * numeric_date (now + 600 * 1000000000)"

context jwt begin

lemma parse_session:
  assumes "list_all plain [ac_Sub a, ac_Name a, ac_Email a, ac_ActorType a]"
  shows "ParseSessionToken J key now' (NewSessionToken J key now a) = (if now' < session_end now then Some a else None)"
  using assms by (simp add: ParseSessionToken_def NewSessionToken_def parse_sign expired_def session_end_def session_claims_def claim_def)

lemma parse_state:
  assumes "plain state" and "plain nonce"
  shows "ParseStateToken J key now' (NewStateToken J key now state nonce) = (if now' < state_end now then Some (state, nonce) else None)"
  using assms by (simp add: ParseStateToken_def NewStateToken_def parse_sign expired_def state_end_def state_claims_def claim_def)

lemma parse_state_as_session:
  assumes "plain state" and "plain nonce"
  shows "ParseSessionToken J key now' (NewStateToken J key now state nonce) =
    (if now' < state_end now then Some \<lparr>ac_Sub = '''', ac_Name = '''', ac_Email = '''', ac_ActorType = ''''\<rparr> else None)"
  using assms by (simp add: ParseSessionToken_def NewStateToken_def parse_sign expired_def state_end_def state_claims_def claim_def)

end

text \<open>What \<open>Exchange\<close> checks of the actor that it gives.\<close>

lemma Exchange_SomeE:
  assumes "Exchange p code nonce = Some a"
  obtains raw tok cs where "op_exchange p code = Some (Some raw)" and "op_verify p raw = Some tok" and "idt_Nonce tok = nonce"
    and "idt_Claims tok = Some cs" and "ac_Sub a = idt_Subject tok" and "ac_ActorType a = actorTypeFromClaims p cs"
  using assms by (auto simp: Exchange_def split: option.splits if_splits)

lemma admin_claim:
  "actorTypeFromClaims p cs = ActorTypeAdmin \<longleftrightarrow> op_roleClaim p \<noteq> '''' \<and> op_adminRole p \<noteq> '''' \<and>
     (map_of cs (op_roleClaim p) = Some (JStr (op_adminRole p)) \<or>
      (\<exists>roles. map_of cs (op_roleClaim p) = Some (JArr roles) \<and> JStr (op_adminRole p) \<in> set roles))"
  by (auto simp: actorTypeFromClaims_def ActorTypeAdmin_def ActorTypeUser_def split: option.splits json.splits)

section \<open>An example\<close>

definition ex_provider :: OIDCProvider where
  "ex_provider = \<lparr>op_auth_url = (\<lambda>s n. ''https://id/?state='' @ s), op_exchange = (\<lambda>code. if code = ''c1'' then Some (Some ''raw'') else None),
     op_verify = (\<lambda>raw. Some \<lparr>idt_Subject = ''u7'', idt_Nonce = ''n1'',
       idt_Claims = Some [(''name'', JStr ''Ada''), (''role'', JArr [JStr ''staff'', JStr ''admin''])]\<rparr>),
     op_roleClaim = ''role'', op_adminRole = ''admin''\<rparr>"

definition ex_auth :: "string AuthHandler" where
  "ex_auth = \<lparr>ah_provider = ex_provider, ah_sessionSecret = ''key'', ah_frontendURL = ''https://quiz'', ah_oidcEnabled = True,
     ah_secureCookies = True\<rparr>"

definition ex_http :: "(string \<times> string) list \<Rightarrow> (string \<times> string) list \<Rightarrow> time \<Rightarrow> http_request" where
  "ex_http query cookies now = \<lparr>rq_headers = [], rq_query = query, rq_cookies = cookies, rq_now = now\<rparr>"

definition ex_state_token :: string where
  "ex_state_token = NewStateToken plain_tokens ''key'' 0 ''s1'' ''n1''"

definition ex_ada :: Actor where
  "ex_ada = \<lparr>ac_Sub = ''u7'', ac_Name = ''Ada'', ac_Email = '''', ac_ActorType = ActorTypeAdmin\<rparr>"

lemma ex_exchange: "Exchange ex_provider ''c1'' ''n1'' = Some ex_ada"
  by (simp add: Exchange_def ex_provider_def ex_ada_def text_claim_def actorTypeFromClaims_def)

lemma ex_auth_simps [simp]:
  "ah_provider ex_auth = ex_provider" "ah_sessionSecret ex_auth = ''key''" "ah_frontendURL ex_auth = ''https://quiz''"
  "ah_oidcEnabled ex_auth" "ah_secureCookies ex_auth"
  "rq_query (ex_http q c t) = q" "rq_cookies (ex_http q c t) = c" "rq_now (ex_http q c t) = t"
  by (simp_all add: ex_auth_def ex_http_def)

section \<open>Properties\<close>

text \<open>
  C32: the login. Whoever comes back from the provider within ten minutes, with the state cookie and
  the state that \<open>Login\<close> gave and with a code that the provider exchanges for a verified token with
  the nonce of \<open>Login\<close>, gets a session: for 24 hours, to the second, the middleware finds in it exactly
  the actor of that token, and afterwards refuses it. With another state there is no session.
\<close>

theorem login_gives_session:
  assumes "jwt J plain" and "ah_oidcEnabled h" and "plain s" and "plain n"
    and "Login J h (Some s) (Some n) r1 = Redirect url [k]"
    and "map_of (rq_cookies r2) StateCookie = Some (ck_Value k)" and "rq_now r2 < state_end (rq_now r1)"
    and "Exchange (ah_provider h) (param (rq_query r2) ''code'') n = Some a"
    and "list_all plain [ac_Sub a, ac_Name a, ac_Email a, ac_ActorType a]"
  shows "if param (rq_query r2) ''state'' = s
    then \<exists>k2. Callback J h r2 = Redirect (ah_frontendURL h) [ClearStateCookie, k2] \<and>
      ck_Name k2 = SessionCookie \<and> ck_HttpOnly k2 \<and> ck_Secure k2 = ah_secureCookies h \<and>
      (\<forall>r3. map_of (rq_cookies r3) SessionCookie = Some (ck_Value k2) \<longrightarrow>
        Middleware J (ah_sessionSecret h) True r3 =
          (if rq_now r3 < session_end (rq_now r2) then Inr a else Inl (unauthorized ''invalid session'')))
    else Callback J h r2 = refuse 400 ''state mismatch''"
proof -
  have k: "ck_Value k = NewStateToken J (ah_sessionSecret h) (rq_now r1) s n"
    using assms(5) by (auto simp: Login_def assms(2))
  note st = jwt.parse_state[OF assms(1,3,4)]
  show ?thesis
    using assms(2,6-8) jwt.parse_session[OF assms(1,9)]
    by (auto simp: Callback_def k st Middleware_def SetSessionCookie_def)
qed

theorem login_gives_session_witness:
  "\<exists>k2. Callback plain_tokens ex_auth (ex_http [(''state'', ''s1''), (''code'', ''c1'')] [(StateCookie, ex_state_token)] 5) =
      Redirect ''https://quiz'' [ClearStateCookie, k2] \<and>
    Middleware plain_tokens ''key'' True (ex_http [] [(SessionCookie, ck_Value k2)] 6) = Inr ex_ada"
proof -
  obtain k where k: "Login plain_tokens ex_auth (Some ''s1'') (Some ''n1'') (ex_http [] [] 0) =
      Redirect (op_auth_url ex_provider ''s1'' ''n1'') [k]" "ck_Value k = ex_state_token"
    by (simp add: Login_def ex_state_token_def)
  have t: "(5::int) < state_end 0" "(6::int) < session_end 5"
    by (simp_all add: state_end_def session_end_def numeric_date_def sessionTTL_def)
  show ?thesis
    using login_gives_session[OF plain_jwt, of ex_auth "''s1''" "''n1''" "ex_http [] [] 0" _ k
        "ex_http [(''state'', ''s1''), (''code'', ''c1'')] [(StateCookie, ex_state_token)] 5" ex_ada]
    by (auto simp: k t param_def ex_exchange list_all_iff)
qed



text \<open>
  C34: a state token passes as a session. State tokens and session tokens are signed with the same secret
  and carry no mark of their kind, so that for ten minutes the middleware accepts the state cookie of
  \<open>Login\<close>, which anybody gets without logging in, as the session of an actor without ID and type.
\<close>

theorem state_token_is_session:
  assumes "jwt J plain" and "plain s" and "plain n"
    and "Login J h (Some s) (Some n) r1 = Redirect url [k]"
    and "map_of (rq_cookies r2) SessionCookie = Some (ck_Value k)" and "rq_now r2 < state_end (rq_now r1)"
  shows "Middleware J (ah_sessionSecret h) True r2 =
    Inr \<lparr>ac_Sub = '''', ac_Name = '''', ac_Email = '''', ac_ActorType = ''''\<rparr>"
proof -
  have k: "ck_Value k = NewStateToken J (ah_sessionSecret h) (rq_now r1) s n"
    using assms(4) by (auto simp: Login_def refuse_def split: if_splits)
  show ?thesis using assms(5,6) by (simp add: Middleware_def k jwt.parse_state_as_session[OF assms(1-3)])
qed

theorem state_token_is_session_witness:
  "\<exists>a. Middleware plain_tokens ''key'' True (ex_http [] [(SessionCookie, ex_state_token)] 1) = Inr a \<and> ac_Sub a = ''''"
proof -
  have t: "(1::int) < state_end 0" by (simp add: state_end_def numeric_date_def)
  obtain k where k: "Login plain_tokens ex_auth (Some ''s1'') (Some ''n1'') (ex_http [] [] 0) =
      Redirect (op_auth_url ex_provider ''s1'' ''n1'') [k]" "ck_Value k = ex_state_token"
    by (simp add: Login_def ex_state_token_def)
  show ?thesis
    using state_token_is_session[OF plain_jwt _ _ k(1), of "ex_http [] [(SessionCookie, ex_state_token)] 1"]
    by (simp add: k(2) t)
qed

end
