(* ===== verification/Game_Handlers.thy ===== *)
theory Game_Handlers
  imports Question_Lists Game_Manager
begin

text \<open>
  The HTTP handlers of games, \<open>internal/handler/game.go\<close> (its WebSocket handler is \<open>Ws_Handler\<close>). A
  handler runs over a \<open>world\<close>: the state store of the games, the database, and the events sent so
  far. The stores are the fields of the handler, of any implementation; the two of the relational
  copy may be missing. \<open>time.Now()\<close> is \<open>cx_now\<close>, and \<open>cx_later\<close> where a handler reads the clock again.
  The logger is left out.

  \<open>NilPanic\<close>, which no well-formed game reaches, is no error value: the request ends with the empty
  500 of the router's \<open>Recoverer\<close>.
\<close>

record game_ctx = ctx +
  cx_later :: time

record ('st, 'd) world =
  wd_game :: 'st
  wd_db :: 'd
  wd_events :: "effect list"

record ('st, 'd) GameHandler =
  gh_manager :: "'st StateStore"
  gh_gameStore :: "'d GameStore option"
  gh_playerStore :: "'d PlayerStore option"
  gh_questionListStore :: "'d QuestionListStore"
  gh_cfg :: EngineConfig

section \<open>Closing a question: persistence\<close>

text \<open>Every error of a best-effort write is logged and dropped.\<close>

fun persist_lives :: "'d PlayerStore \<Rightarrow> LifeDelta list \<Rightarrow> 'd \<Rightarrow> 'd" where
  "persist_lives P [] d = d"
| "persist_lives P (delta # deltas) d = persist_lives P deltas
     (fst (ps_UpdatePlayerLives P (ld_PlayerID delta) (ld_LivesLeft delta) (ld_Active delta) d))"

definition persistClose :: "('st, 'd) GameHandler \<Rightarrow> string \<Rightarrow> CloseQuestionResult \<Rightarrow> 'd \<Rightarrow> 'd" where
  "persistClose h gameID result d =
     (let d1 = (case gh_playerStore h of None \<Rightarrow> d | Some P \<Rightarrow> persist_lives P (cr_LifeDeltas result) d)
      in case gh_gameStore h of None \<Rightarrow> d1
         | Some G \<Rightarrow> if cr_GameOver result then fst (gs_UpdateGameStatus G gameID GameStatusFinished d1) else d1)"

section \<open>Calls\<close>

definition on_game :: "('st \<Rightarrow> 'st \<times> 'r) \<Rightarrow> ('st, 'd) world \<Rightarrow> ('st, 'd) world \<times> 'r" where
  "on_game f w = (w\<lparr>wd_game := fst (f (wd_game w))\<rparr>, snd (f (wd_game w)))"

definition on_db :: "('d \<Rightarrow> 'd \<times> 'r) \<Rightarrow> ('st, 'd) world \<Rightarrow> ('st, 'd) world \<times> 'r" where
  "on_db f w = (w\<lparr>wd_db := fst (f (wd_db w))\<rparr>, snd (f (wd_db w)))"

text \<open>A call whose error is only logged.\<close>

definition best_effort :: "('d \<Rightarrow> 'd \<times> 'r) \<Rightarrow> ('st, 'd) world \<Rightarrow> ('st, 'd) world" where
  "best_effort f w = fst (on_db f w)"

text \<open>
  An operation of the engine: its events go out in order; the manager calls \<open>persistClose\<close>, which
  \<open>NewGameHandler\<close> registers, where the operation calls the hook.
\<close>

definition run_effect :: "('st, 'd) GameHandler \<Rightarrow> effect \<Rightarrow> ('st, 'd) world \<Rightarrow> ('st, 'd) world" where
  "run_effect h eff w = (case eff of
       QuestionClosedHook gameID result \<Rightarrow> w\<lparr>wd_db := persistClose h gameID result (wd_db w)\<rparr>
     | _ \<Rightarrow> w\<lparr>wd_events := wd_events w @ [eff]\<rparr>)"

definition on_engine :: "('st, 'd) GameHandler \<Rightarrow> ('st \<Rightarrow> ('st, 'a) outcome) \<Rightarrow> ('st, 'd) world \<Rightarrow> ('st, 'd) world \<times> (game_error + 'a)" where
  "on_engine h f w = (case f (wd_game w) of (st, effs, r) \<Rightarrow> (fold (run_effect h) effs (w\<lparr>wd_game := st\<rparr>), r))"

text \<open>One round of the deadline loop, with the hook of its closes.\<close>

definition deadline_tick :: "('st, 'd) GameHandler \<Rightarrow> time \<Rightarrow> ('st, 'd) world \<Rightarrow> ('st, 'd) world" where
  "deadline_tick h now w = (case CloseDue (gh_manager h) now (wd_game w) of
     (st, effs, n) \<Rightarrow> fold (run_effect h) effs (w\<lparr>wd_game := st\<rparr>))"

section \<open>Errors\<close>

definition recovered :: response where
  "recovered = \<lparr>rp_status = 500, rp_body = None\<rparr>"

text \<open>The texts of the errors of \<open>engine.go\<close>; \<open>other\<close> is the text of an error of the storage.\<close>

definition error_text :: "string \<Rightarrow> game_error \<Rightarrow> string" where
  "error_text other err = (case err of
       ErrGameNotFound \<Rightarrow> ''game not found'' | ErrGameAlreadyStarted \<Rightarrow> ''game already started''
     | ErrGameNotRunning \<Rightarrow> ''game is not running'' | ErrGameFinished \<Rightarrow> ''game is finished''
     | ErrPlayerNotFound \<Rightarrow> ''player not found'' | ErrPlayerAlreadyJoined \<Rightarrow> ''player already joined''
     | ErrPlayerEliminated \<Rightarrow> ''player is eliminated'' | ErrAlreadyAnswered \<Rightarrow> ''player already answered this question''
     | ErrNoMoreQuestions \<Rightarrow> ''no more questions'' | ErrNoActiveQuestion \<Rightarrow> ''no active question''
     | ErrWrongQuestion \<Rightarrow> ''question id does not match active question'' | ErrQuestionOpen \<Rightarrow> ''current question is still open''
     | ErrInvalidOption \<Rightarrow> ''option id does not match any option of the question'' | ErrBusy \<Rightarrow> ''game is busy, retry''
     | _ \<Rightarrow> other)"

definition writeEngineError :: "game_error \<Rightarrow> response" where
  "writeEngineError err =
     (if err = ErrGameNotFound then writeError 404 ''game not found''
      else if err = ErrBusy then writeErrorCode 503 ''game_busy'' ''game is busy, retry''
      else if err = NilPanic then recovered
      else writeError 500 ''internal error'')"

definition writeGameError :: "game_error \<Rightarrow> response" where
  "writeGameError err = (let conflict = (\<lambda>code. writeErrorCode 409 code (error_text '''' err)) in case err of
       ErrNoMoreQuestions \<Rightarrow> conflict ''no_more_questions''
     | ErrGameFinished \<Rightarrow> conflict ''game_finished''
     | ErrGameNotRunning \<Rightarrow> conflict ''game_not_running''
     | ErrNoActiveQuestion \<Rightarrow> conflict ''no_active_question''
     | ErrQuestionOpen \<Rightarrow> conflict ''question_open''
     | _ \<Rightarrow> writeEngineError err)"

section \<open>JSON\<close>

text \<open>A nil slice is null.\<close>

definition nullable_ids :: "string list \<Rightarrow> json" where
  "nullable_ids ids = (if ids = [] then JNull else JArr (map JStr ids))"

definition PlayerScore_json :: "PlayerScore \<Rightarrow> json" where
  "PlayerScore_json p = JObj [(''id'', JStr (PlayerScore.ps_ID p)), (''name'', JStr (PlayerScore.ps_Name p)),
     (''lives'', JInt (PlayerScore.ps_Lives p)), (''active'', JBool (PlayerScore.ps_Active p))]"

definition Option_json :: "qoption \<Rightarrow> json" where
  "Option_json opt = JObj [(''id'', JStr (o_ID opt)), (''text'', JStr (o_Text opt))]"

definition QuestionTheme_json :: "question_theme \<Rightarrow> json" where
  "QuestionTheme_json t = JObj [(''id'', JStr (qt_ID t)), (''name'', JStr (qt_Name t)), (''scope'', JStr (qt_Scope t))]"

definition QuestionPayload_json :: "QuestionPayload \<Rightarrow> json" where
  "QuestionPayload_json p = JObj
     ([(''question_id'', JStr (qp_question_id p)), (''index'', JInt (qp_index p)), (''total'', JInt (qp_total p)),
       (''is_last'', JBool (qp_is_last p)), (''text'', JStr (qp_text p)), (''options'', JArr (map Option_json (qp_options p))),
       (''theme'', case qp_theme p of None \<Rightarrow> JNull | Some t \<Rightarrow> QuestionTheme_json t)]
      @ (case qp_timeout p of None \<Rightarrow> [] | Some (t, at) \<Rightarrow> [(''answer_timeout_seconds'', JInt t), (''closes_at'', JTime at)])
      @ (case qp_answered_by p of None \<Rightarrow> [] | Some ids \<Rightarrow> [(''answered_by'', JArr (map JStr ids))]))"

definition current_question_json :: "State \<Rightarrow> json" where
  "current_question_json s = (case CurrentQuestion s of None \<Rightarrow> JNull | Some p \<Rightarrow> QuestionPayload_json p)"

definition gameView :: "State \<Rightarrow> string \<Rightarrow> json" where
  "gameView s actorID = (let (isHost, myPlayers) = ActorView s actorID in JObj
     [(''id'', JStr (s_ID s)), (''status'', JStr (s_Status s)), (''owner_id'', JStr (s_OwnerID s)),
      (''question_list_id'', JStr (s_QuestionListID s)), (''players'', JArr (map PlayerScore_json (Scoreboard s))),
      (''current_q_idx'', JInt (s_CurrentQIdx s)), (''question_open'', JBool (s_QuestionOpen s)),
      (''current_question'', current_question_json s), (''total_questions'', JInt (s_TotalQuestions s)),
      (''remaining_questions'', JInt (RemainingQuestions s)), (''end_reason'', JStr (s_EndReason s)),
      (''me'', JObj [(''is_host'', JBool isHost), (''player_ids'', JArr (map JStr myPlayers))])])"

definition CloseQuestionResult_json :: "CloseQuestionResult \<Rightarrow> json" where
  "CloseQuestionResult_json r = JObj
     [(''life_lost'', nullable_ids (cr_LifeLost r)), (''eliminated'', nullable_ids (cr_Eliminated r)),
      (''game_over'', JBool (cr_GameOver r)), (''winner'', JStr (cr_Winner r)),
      (''survivors'', if cr_GameOver r then JArr (map JStr (cr_Survivors r)) else JNull),
      (''reason'', JStr (cr_Reason r)), (''remaining_questions'', JInt (cr_RemainingQuestions r)),
      (''players'', JArr (map PlayerScore_json (cr_Players r)))]"

section \<open>Creating and joining\<close>

record createGameRequest =
  cg_OwnerName :: string
  cg_QuestionListID :: string
  cg_InitialLives :: "int option"
  cg_AnswerTimeoutSeconds :: "int option"

definition create_config :: "EngineConfig \<Rightarrow> createGameRequest \<Rightarrow> response + EngineConfig" where
  "create_config cfg req = (case cg_InitialLives req of
       Some n \<Rightarrow> if n < 1 then Inl (writeError 400 ''initial_lives must be at least 1'')
                 else (case cg_AnswerTimeoutSeconds req of
                     Some t \<Rightarrow> if t < 0 then Inl (writeError 400 ''answer_timeout_seconds must be non-negative'')
                               else Inr (cfg\<lparr>InitialLives := n, AnswerTimeoutSeconds := t\<rparr>)
                   | None \<Rightarrow> Inr (cfg\<lparr>InitialLives := n\<rparr>))
     | None \<Rightarrow> (case cg_AnswerTimeoutSeconds req of
           Some t \<Rightarrow> if t < 0 then Inl (writeError 400 ''answer_timeout_seconds must be non-negative'')
                     else Inr (cfg\<lparr>AnswerTimeoutSeconds := t\<rparr>)
         | None \<Rightarrow> Inr cfg))"

text \<open>The snapshot of a question that a game keeps.\<close>

definition game_question :: "QuestionRecord \<Rightarrow> question" where
  "game_question q = \<lparr>q_ID = qr_ID q, q_QuestionListID = qr_QuestionListID q, q_Text = qr_Text q,
     q_Options = map (\<lambda>opt. \<lparr>o_ID = or_ID opt, o_Text = or_Text opt\<rparr>) (qr_Options q),
     q_CorrectOptionID = qr_CorrectOptionID q, q_OrderIndex = qr_OrderIndex q,
     q_Theme = map_option (\<lambda>t. \<lparr>qt_ID = tref_ID t, qt_Name = tref_Name t, qt_Scope = tref_Scope t\<rparr>) (qr_Theme q)\<rparr>"

text \<open>The rows of a new game and of its owner.\<close>

definition persist_create :: "('st, 'd) GameHandler \<Rightarrow> string \<Rightarrow> string \<Rightarrow> createGameRequest \<Rightarrow> EngineConfig \<Rightarrow> time
    \<Rightarrow> ('st, 'd) world \<Rightarrow> ('st, 'd) world" where
  "persist_create h gameID ownerID req cfg now w = (case gh_gameStore h of
       None \<Rightarrow> w
     | Some G \<Rightarrow>
         (let w1 = best_effort (gs_CreateGame G \<lparr>gr_ID = gameID, gr_OwnerID = ownerID, gr_QuestionListID = cg_QuestionListID req,
                gr_Status = GameStatusWaiting, gr_CreatedAt = now, gr_UpdatedAt = now\<rparr>) w
          in case gh_playerStore h of
               None \<Rightarrow> w1
             | Some P \<Rightarrow> best_effort (ps_CreatePlayer P \<lparr>pr_ID = ownerID, pr_GameID = gameID, pr_Name = cg_OwnerName req,
                 pr_Lives = InitialLives cfg, pr_Active = True, pr_CreatedAt = now\<rparr>) w1))"

definition loadGameQuestions :: "('st, 'd) GameHandler \<Rightarrow> game_ctx \<Rightarrow> string \<Rightarrow> ('st, 'd) world
    \<Rightarrow> ('st, 'd) world \<times> (response + question list)" where
  "loadGameQuestions h cx lid w = and_then
     (fail_with (\<lambda>e. writeError 404 ''question list not found'') (on_db (qs_GetQuestionList (gh_questionListStore h) lid) w))
     (\<lambda>w l. require (canReadList (extractActor (cx_Actor cx)) l) (writeError 403 (''cannot use another user'' @ CHR 0x27 # ''s private list'')) w
       (\<lambda>w. and_then
         (fail_with (\<lambda>e. writeError 500 ''failed to load questions'') (on_db (qs_ListQuestions (gh_questionListStore h) lid) w))
         (\<lambda>w qrecs. require (qrecs \<noteq> []) (writeErrorCode 400 ''empty_question_list'' ''question list has no questions'') w
           (\<lambda>w. (w, Inr (map game_question qrecs))))))"

definition CreateGame :: "('st, 'd) GameHandler \<Rightarrow> game_ctx \<Rightarrow> createGameRequest option \<Rightarrow> ('st, 'd) world \<Rightarrow> ('st, 'd) world \<times> response" where
  "CreateGame h cx body w = (case body of
       None \<Rightarrow> (w, writeError 400 ''owner_name is required'')
     | Some req \<Rightarrow>
         if cg_OwnerName req = '''' then (w, writeError 400 ''owner_name is required'')
         else if cg_QuestionListID req = '''' then (w, writeError 400 ''question_list_id is required'')
         else (case create_config (gh_cfg h) req of
             Inl r \<Rightarrow> (w, r)
           | Inr cfg \<Rightarrow> answered (and_then (loadGameQuestions h cx (cg_QuestionListID req) w) (\<lambda>w questions.
               let gameID = cx_uuid cx 0; ownerID = cx_uuid cx 1 in and_then
               (fail_with (\<lambda>e. writeError 500 ''failed to create game'') (on_game (Manager_Create (gh_manager h) gameID ownerID
                  (cg_QuestionListID req) questions cfg (cx_now cx)) w)) (\<lambda>w eng. and_then
               (fail_with (\<lambda>e. writeError 500 ''failed to add owner'') (on_engine h (AddPlayer (gh_manager h) eng ownerID
                  (cg_OwnerName req) (da_ID (extractActor (cx_Actor cx)))) w)) (\<lambda>w u.
               (persist_create h gameID ownerID req cfg (cx_later cx) w, Inr (writeJSON 201 (JObj
                  [(''game_id'', JStr gameID), (''owner_id'', JStr ownerID), (''question_list_id'', JStr (cg_QuestionListID req)),
                   (''total_questions'', JInt (int (length questions)))])))))))))"

definition getEngine :: "('st, 'd) GameHandler \<Rightarrow> string \<Rightarrow> ('st, 'd) world \<Rightarrow> ('st, 'd) world \<times> (response + string)" where
  "getEngine h gameID w = fail_with writeEngineError (on_game (Manager_Get (gh_manager h) gameID) w)"

definition loadState :: "('st, 'd) GameHandler \<Rightarrow> string \<Rightarrow> ('st, 'd) world \<Rightarrow> ('st, 'd) world \<times> (response + State)" where
  "loadState h gameID w = and_then (getEngine h gameID w)
     (\<lambda>w eng. fail_with writeEngineError (on_game (Engine_State (gh_manager h) eng) w))"

text \<open>The row of a player who joined: with the lives of the game, or the default ones if it cannot be read.\<close>

definition persist_join :: "('st, 'd) GameHandler \<Rightarrow> game_ctx \<Rightarrow> string \<Rightarrow> string \<Rightarrow> string \<Rightarrow> ('st, 'd) world \<Rightarrow> ('st, 'd) world" where
  "persist_join h cx gameID playerID name w = (case gh_playerStore h of
       None \<Rightarrow> w
     | Some P \<Rightarrow>
         (let (w1, r) = on_game (Engine_State (gh_manager h) gameID) w;
              lives = (case r of Inl e \<Rightarrow> InitialLives (gh_cfg h) | Inr s \<Rightarrow> InitialLives (s_Config s))
          in best_effort (ps_CreatePlayer P \<lparr>pr_ID = playerID, pr_GameID = gameID, pr_Name = name, pr_Lives = lives,
               pr_Active = True, pr_CreatedAt = cx_now cx\<rparr>) w1))"

definition JoinGame :: "('st, 'd) GameHandler \<Rightarrow> game_ctx \<Rightarrow> string \<Rightarrow> string option \<Rightarrow> ('st, 'd) world \<Rightarrow> ('st, 'd) world \<times> response" where
  "JoinGame h cx gameID body w = (case body of
       None \<Rightarrow> (w, writeError 400 ''player_name is required'')
     | Some name \<Rightarrow>
         if name = '''' then (w, writeError 400 ''player_name is required'')
         else answered (and_then (getEngine h gameID w) (\<lambda>w eng. let playerID = cx_uuid cx 0 in and_then
           (fail_with (\<lambda>e. if e = ErrGameAlreadyStarted then writeError 409 ''game already started'' else writeEngineError e)
             (on_engine h (AddPlayer (gh_manager h) eng playerID name (da_ID (extractActor (cx_Actor cx)))) w)) (\<lambda>w u.
           (persist_join h cx gameID playerID name w,
            Inr (writeJSON 200 (JObj [(''game_id'', JStr gameID), (''player_id'', JStr playerID)])))))))"

section \<open>Reading\<close>

definition GetGame :: "('st, 'd) GameHandler \<Rightarrow> game_ctx \<Rightarrow> string \<Rightarrow> ('st, 'd) world \<Rightarrow> ('st, 'd) world \<times> response" where
  "GetGame h cx gameID w = answered (and_then (loadState h gameID w)
     (\<lambda>w s. (w, Inr (writeJSON 200 (gameView s (da_ID (extractActor (cx_Actor cx))))))))"

fun my_games :: "string \<Rightarrow> State list \<Rightarrow> json list" where
  "my_games actorID [] = []"
| "my_games actorID (s # ss) = (let (isHost, playerIDs) = ActorView s actorID in
     if \<not> isHost \<and> playerIDs = [] then my_games actorID ss
     else JObj [(''id'', JStr (s_ID s)), (''status'', JStr (s_Status s)), (''question_list_id'', JStr (s_QuestionListID s)),
            (''total_questions'', JInt (s_TotalQuestions s)), (''created_at'', JTime (s_CreatedAt s)),
            (''is_host'', JBool isHost), (''player_ids'', JArr (map JStr playerIDs))] # my_games actorID ss)"

definition ListMyGames :: "('st, 'd) GameHandler \<Rightarrow> game_ctx \<Rightarrow> ('st, 'd) world \<Rightarrow> ('st, 'd) world \<times> response" where
  "ListMyGames h cx w = (let actorID = da_ID (extractActor (cx_Actor cx)) in answered (and_then
     (fail_with writeEngineError (on_game (GamesOf (gh_manager h) actorID) w))
     (\<lambda>w states. (w, Inr (writeJSON 200 (JArr (my_games actorID states)))))))"

section \<open>The host's requests\<close>

text \<open>Load the game and check that the actor is its host.\<close>

definition host_only :: "('st, 'd) GameHandler \<Rightarrow> game_ctx \<Rightarrow> string \<Rightarrow> string \<Rightarrow> ('st, 'd) world \<Rightarrow> ('st, 'd) world \<times> (response + string)" where
  "host_only h cx refusal gameID w = and_then (getEngine h gameID w) (\<lambda>w eng. and_then
     (fail_with writeEngineError (on_game (Engine_State (gh_manager h) eng) w))
     (\<lambda>w s. if HostActorID s \<noteq> da_ID (extractActor (cx_Actor cx)) then (w, Inl (writeError 403 refusal)) else (w, Inr eng)))"

definition StartQuestion :: "('st, 'd) GameHandler \<Rightarrow> game_ctx \<Rightarrow> string \<Rightarrow> ('st, 'd) world \<Rightarrow> ('st, 'd) world \<times> response" where
  "StartQuestion h cx gameID w = answered (and_then (host_only h cx ''only the game host can start questions'' gameID w) (\<lambda>w eng. and_then
     (fail_with writeGameError (on_engine h (StartNextQuestion (gh_manager h) eng (cx_now cx)) w)) (\<lambda>w u.
     (case gh_gameStore h of None \<Rightarrow> w | Some G \<Rightarrow> best_effort (gs_UpdateGameStatus G gameID GameStatusRunning) w,
      Inr (writeJSON 200 (JObj [(''status'', JStr ''question started'')]))))))"

definition CloseGameQuestion :: "('st, 'd) GameHandler \<Rightarrow> game_ctx \<Rightarrow> string \<Rightarrow> ('st, 'd) world \<Rightarrow> ('st, 'd) world \<times> response" where
  "CloseGameQuestion h cx gameID w = answered (and_then (host_only h cx ''only the game host can close questions'' gameID w) (\<lambda>w eng. and_then
     (fail_with writeGameError (on_engine h (CloseQuestion (gh_manager h) eng) w)) (\<lambda>w result.
     (w, Inr (writeJSON 200 (CloseQuestionResult_json result))))))"

section \<open>Routes\<close>

datatype game_request =
    PostGame "createGameRequest option" | ListGames | ReadGame string | PostJoin string "string option"
  | PostStart string | PostClose string

fun serve_game :: "('st, 'd) GameHandler \<Rightarrow> game_ctx \<Rightarrow> game_request \<Rightarrow> ('st, 'd) world \<Rightarrow> ('st, 'd) world \<times> response" where
  "serve_game h cx (PostGame body) = CreateGame h cx body"
| "serve_game h cx ListGames = ListMyGames h cx"
| "serve_game h cx (ReadGame gid) = GetGame h cx gid"
| "serve_game h cx (PostJoin gid body) = JoinGame h cx gid body"
| "serve_game h cx (PostStart gid) = StartQuestion h cx gid"
| "serve_game h cx (PostClose gid) = CloseGameQuestion h cx gid"

end
