(* ===== verification/Game_Secrecy.thy ===== *)
theory Game_Secrecy
  imports Game_Handlers Redis_Properties
begin

text \<open>
  What players learn while questions are open. \<open>hide_game\<close> erases from a stored game what nobody may
  know before a question closes: the correct option of each question and the options that players
  chose. Whatever anybody reads, joins, starts or answers, two games that differ in nothing else give
  the same responses and the same events.
\<close>

section \<open>What is hidden\<close>

definition hide_question :: "question \<Rightarrow> question" where
  "hide_question q = q\<lparr>q_CorrectOptionID := ''''\<rparr>"

definition hide_answers :: "(string, string) fmap \<Rightarrow> (string, string) fmap" where
  "hide_answers m = fmmap (\<lambda>oid. '''') m"

definition hide_state :: "State \<Rightarrow> State" where
  "hide_state s = s\<lparr>s_Current := map_option hide_question (s_Current s), s_Answers := hide_answers (s_Answers s)\<rparr>"

definition hide_game :: "agame \<Rightarrow> agame" where
  "hide_game g = g\<lparr>ag_Question := (\<lambda>i. map_option hide_question (ag_Question g i)), ag_Answers := (\<lambda>i. hide_answers (ag_Answers g i))\<rparr>"

lemma hide_question_simps [simp]:
  "q_ID (hide_question q) = q_ID q" "q_Text (hide_question q) = q_Text q" "q_Options (hide_question q) = q_Options q"
  "q_Theme (hide_question q) = q_Theme q" "hide_question (hide_question q) = hide_question q" "hasOption (hide_question q) = hasOption q"
  by (simp_all add: hide_question_def hasOption_def fun_eq_iff)

lemma hide_answers_simps [simp]:
  "fmdom (hide_answers m) = fmdom m" "hide_answers fmempty = fmempty" "sorted_keys (hide_answers m) = sorted_keys m"
  "hide_answers (fmupd k v m) = fmupd k '''' (hide_answers m)" "hide_answers (hide_answers m) = hide_answers m"
  by (simp_all add: hide_answers_def sorted_keys_def fmap.map_comp comp_def) (rule fmap_ext, simp)

lemma hide_state_simps [simp]:
  "s_ID (hide_state s) = s_ID s" "s_Status (hide_state s) = s_Status s" "s_OwnerID (hide_state s) = s_OwnerID s"
  "s_QuestionListID (hide_state s) = s_QuestionListID s" "s_CreatedAt (hide_state s) = s_CreatedAt s"
  "s_Config (hide_state s) = s_Config s" "s_TotalQuestions (hide_state s) = s_TotalQuestions s"
  "s_CurrentQIdx (hide_state s) = s_CurrentQIdx s" "s_QuestionOpen (hide_state s) = s_QuestionOpen s"
  "s_QuestionStart (hide_state s) = s_QuestionStart s" "s_EndReason (hide_state s) = s_EndReason s"
  "s_Players (hide_state s) = s_Players s" "s_Current (hide_state s) = map_option hide_question (s_Current s)"
  "s_Answers (hide_state s) = hide_answers (s_Answers s)"
  by (simp_all add: hide_state_def)

lemma hide_game_simps [simp]:
  "ag_State (hide_game g) = ag_State g" "ag_Question (hide_game g) i = map_option hide_question (ag_Question g i)"
  "ag_Answers (hide_game g) i = hide_answers (ag_Answers g i)"
  by (simp_all add: hide_game_def)

lemma questionPayload_hide: "questionPayload (hide_state s) = questionPayload s"
  by (simp add: questionPayload_def Let_def split: option.splits)

lemma CurrentQuestion_hide: "CurrentQuestion (hide_state s) = CurrentQuestion s"
  by (simp add: CurrentQuestion_def questionPayload_hide)

lemma players_hide:
  "ActorView (hide_state s) = ActorView s" "Scoreboard (hide_state s) = Scoreboard s"
  "RemainingQuestions (hide_state s) = RemainingQuestions s" "HostActorID (hide_state s) = HostActorID s"
  "PlayerActorID (hide_state s) = PlayerActorID s"
  by (simp_all add: ActorView_def Scoreboard_def RemainingQuestions_def HostActorID_def player_entries_def PlayerActorID_def fun_eq_iff)

lemma gameView_hide: "gameView (hide_state s) = gameView s"
  by (simp add: gameView_def current_question_json_def CurrentQuestion_hide players_hide fun_eq_iff)

lemma submit_check_hide: "submit_check (hide_state s) = submit_check s"
  by (auto simp: submit_check_def fun_eq_iff split: option.splits bool.splits)

section \<open>The specifications cannot tell\<close>

lemma loaded_hide: "loaded (hide_game g) = map_sum id hide_state (loaded g)"
  by (simp add: loaded_def Let_def hide_state_def split: option.splits)

lemma put_players_hide: "hide_game (put_players gid ps g) = put_players gid ps (hide_game g)"
  by (simp add: put_players_def hide_game_def)

lemma add_spec_hide: "add_spec gid pid name a (hide_game g) = map_sum id hide_game (add_spec gid pid name a g)"
  by (simp add: add_spec_def Let_def put_players_hide)

lemma start_spec_hide: "start_spec tm now (hide_game g) = map_sum id hide_game (start_spec tm now g)"
  by (simp add: start_spec_def Let_def put_progress_def started_def hide_game_def split: option.splits)

lemma record_spec_hide:
  "map_sum id hide_game (record_spec i pid oid (hide_game g)) = map_sum id hide_game (record_spec i pid oid g)"
  by (simp add: record_spec_def Let_def) (simp add: hide_game_def fun_eq_iff option.map_comp comp_def)

lemma submit_spec_hide:
  "map_sum id hide_game (submit_spec pid qid oid (hide_game g)) = map_sum id hide_game (submit_spec pid qid oid g)"
  by (cases "loaded g") (simp_all add: submit_spec_def loaded_hide submit_check_hide record_spec_hide split: option.splits)

lemma started_payload_hide: "questionPayload (started now (hide_question q) s) = questionPayload (started now q s)"
  by (simp add: questionPayload_def started_def Let_def)

section \<open>Runs\<close>

text \<open>
  What anybody can do to a game without closing a question: read it (\<open>GET /games/{id}\<close>), join, start
  the next question, answer. The output is the events and the result.
\<close>

datatype play = PlayRead string | PlayJoin string string string | PlayStart time | PlayAnswer string string string

definition out_json :: "('a \<Rightarrow> json) \<Rightarrow> ('st, 'a) outcome \<Rightarrow> 'st \<times> effect list \<times> (game_error + json)" where
  "out_json f r = (case r of (st, effs, x) \<Rightarrow> (st, effs, map_sum id f x))"

fun play_step :: "'st StateStore \<Rightarrow> string \<Rightarrow> play \<Rightarrow> 'st \<Rightarrow> 'st \<times> effect list \<times> (game_error + json)" where
  "play_step S gid (PlayRead actorID) st = (case Engine_State S gid st of (st', r) \<Rightarrow> (st', [], map_sum id (\<lambda>s. gameView s actorID) r))"
| "play_step S gid (PlayJoin pid name actorID) st = out_json (\<lambda>u. JNull) (AddPlayer S gid pid name actorID st)"
| "play_step S gid (PlayStart now) st = out_json (\<lambda>u. JNull) (StartNextQuestion S gid now st)"
| "play_step S gid (PlayAnswer pid qid oid) st = out_json (\<lambda>u. JNull) (SubmitAnswer S gid pid qid oid st)"

fun play_run :: "'st StateStore \<Rightarrow> string \<Rightarrow> play list \<Rightarrow> 'st \<Rightarrow> (effect list \<times> (game_error + json)) list" where
  "play_run S gid [] st = []"
| "play_run S gid (p # ps) st = (case play_step S gid p st of (st', out) \<Rightarrow> out # play_run S gid ps st')"

fun play_time_ok :: "play \<Rightarrow> bool" where
  "play_time_ok (PlayStart now) \<longleftrightarrow> time_ok now"
| "play_time_ok _ \<longleftrightarrow> True"

definition ready :: "'st observer \<Rightarrow> string \<Rightarrow> 'st \<Rightarrow> bool" where
  "ready V gid st \<longleftrightarrow> ob_inv V st \<and> ob_up V st \<and> ob_lock V st gid = None"

definition look_alike :: "'st observer \<Rightarrow> string \<Rightarrow> 'st \<Rightarrow> 'st \<Rightarrow> bool" where
  "look_alike V gid st1 st2 \<longleftrightarrow> ready V gid st1 \<and> ready V gid st2 \<and>
     map_option hide_game (ob_view V st1 gid) = map_option hide_game (ob_view V st2 gid)"

lemma look_alike_cases:
  assumes "look_alike V gid st1 st2"
  obtains "ob_view V st1 gid = None" "ob_view V st2 gid = None"
  | g1 g2 where "ob_view V st1 gid = Some g1" "ob_view V st2 gid = Some g2" "hide_game g1 = hide_game g2"
  using assms by (cases "ob_view V st1 gid"; cases "ob_view V st2 gid") (auto simp: look_alike_def)

lemma map_sum_eqD:
  assumes "map_sum id f a = map_sum id f b"
  shows "(\<exists>e. a = Inl e \<and> b = Inl e) \<or> (\<exists>x y. a = Inr x \<and> b = Inr y \<and> f x = f y)"
  using assms by (cases a; cases b) auto

lemma implements_alike:
  assumes rel: "look_alike V gid st1 st2" and r1: "implements V st1 st1' gid spec1 due1 r1" and r2: "implements V st2 st2' gid spec2 due2 r2"
    and eq: "map_sum id hide_game spec1 = map_sum id hide_game spec2"
  shows "look_alike V gid st1' st2'" and "(r1 :: game_error + unit) = r2"
proof -
  have "look_alike V gid st1' st2' \<and> r1 = r2"
    using map_sum_eqD[OF eq] rel r1 r2
    by (elim disjE exE conjE) (auto simp: look_alike_def ready_def implements_def achieves_def unchanged_def)
  then show "look_alike V gid st1' st2'" and "r1 = r2" by simp_all
qed

lemma at_game_alike:
  assumes "look_alike V gid st1 st2"
    and "\<And>g1 g2. hide_game g1 = hide_game g2 \<Longrightarrow> map_sum id hide_game (f g1) = map_sum id hide_game (f g2)"
  shows "map_sum id hide_game (at_game f (ob_view V st1 gid)) = map_sum id hide_game (at_game f (ob_view V st2 gid))"
proof (rule look_alike_cases[OF assms(1)])
  fix g1 g2
  assume "ob_view V st1 gid = Some g1" "ob_view V st2 gid = Some g2" "hide_game g1 = hide_game g2"
  then show ?thesis using assms(2)[of g1 g2] by (simp add: at_game_def)
qed (simp add: at_game_def)

lemma spec_alike:
  assumes "hide_game g1 = hide_game g2"
  shows "map_sum id hide_game (add_spec gid pid name a g1) = map_sum id hide_game (add_spec gid pid name a g2)"
    and "map_sum id hide_game (start_spec tm now g1) = map_sum id hide_game (start_spec tm now g2)"
    and "map_sum id hide_game (submit_spec pid qid oid g1) = map_sum id hide_game (submit_spec pid qid oid g2)"
    and "ag_State g1 = ag_State g2"
    and "map_sum id hide_state (loaded g1) = map_sum id hide_state (loaded g2)"
    and "map_option hide_question (ag_Question g1 i) = map_option hide_question (ag_Question g2 i)"
  using assms add_spec_hide start_spec_hide submit_spec_hide loaded_hide hide_game_simps by metis+

lemma view_alike:
  assumes "map_sum id hide_state a = map_sum id hide_state b"
  shows "map_sum id (\<lambda>s. gameView s actorID) a = map_sum id (\<lambda>s. gameView s actorID) b"
  using map_sum_eqD[OF assms] gameView_hide by (auto, metis)

lemma load_view_alike:
  assumes "look_alike V gid st1 st2"
  shows "map_sum id hide_state (load_view (ob_view V st1 gid)) = map_sum id hide_state (load_view (ob_view V st2 gid))"
proof (rule look_alike_cases[OF assms])
  fix g1 g2
  assume v: "ob_view V st1 gid = Some g1" "ob_view V st2 gid = Some g2" "hide_game g1 = hide_game g2"
  then show ?thesis by (simp add: spec_alike(5)[OF v(3)])
qed simp

lemma alike_State:
  assumes "look_alike V gid st1 st2"
  shows "ag_State (the (ob_view V st1 gid)) = ag_State (the (ob_view V st2 gid))"
proof (rule look_alike_cases[OF assms])
  fix g1 g2
  assume v: "ob_view V st1 gid = Some g1" "ob_view V st2 gid = Some g2" "hide_game g1 = hide_game g2"
  then show ?thesis by (simp add: spec_alike(4)[OF v(3)])
qed simp

context state_store begin

lemma play_step_alike:
  assumes rel: "look_alike V gid st1 st2" and t: "play_time_ok p"
    and run1: "play_step S gid p st1 = (st1', out1)" and run2: "play_step S gid p st2 = (st2', out2)"
  shows "look_alike V gid st1' st2' \<and> out1 = out2"
proof -
  have i: "ob_inv V st1" "ob_lock V st1 gid = None" "ob_up V st1" "ob_inv V st2" "ob_lock V st2 gid = None" "ob_up V st2"
    using rel by (simp_all add: look_alike_def ready_def)
  show ?thesis
  proof (cases p)
    case (PlayRead actorID)
    obtain r1 r2 where l: "ss_Load S gid st1 = (st1', r1)" "ss_Load S gid st2 = (st2', r2)"
      and out: "out1 = ([], map_sum id (\<lambda>s. gameView s actorID) r1)" "out2 = ([], map_sum id (\<lambda>s. gameView s actorID) r2)"
      using run1 run2 PlayRead by (auto simp: Engine_State_def split: prod.splits)
    have c: "call_ok V st1 st1' r1" "unchanged V st1 st1'" "call_ok V st2 st2' r2" "unchanged V st2 st2'"
      and r: "r1 = load_view (ob_view V st1 gid)" "r2 = load_view (ob_view V st2 gid)"
      using Load[OF i(1) l(1)] Load[OF i(4) l(2)] i(3,6) by (auto simp: call_ok_def)
    have "map_sum id hide_state r1 = map_sum id hide_state r2"
      unfolding r by (rule load_view_alike[OF rel])
    then show ?thesis
      using c i rel view_alike unfolding out by (auto simp: look_alike_def ready_def call_ok_def unchanged_def)
  next
    case (PlayJoin pid name actorID)
    obtain e1 r1 e2 r2 where l: "AddPlayer S gid pid name actorID st1 = (st1', e1, r1)" "AddPlayer S gid pid name actorID st2 = (st2', e2, r2)"
      and out: "out1 = (e1, map_sum id (\<lambda>u. JNull) r1)" "out2 = (e2, map_sum id (\<lambda>u. JNull) r2)"
      using run1 run2 PlayJoin by (auto simp: out_json_def split: prod.splits)
    note a = implements_alike[OF rel AddPlayer_implements[OF i(1,2) l(1)] AddPlayer_implements[OF i(4,5) l(2)]
        at_game_alike[OF rel spec_alike(1)]]
    have "e1 = e2"
      unfolding AddPlayer_events[OF i(1,2) l(1)] AddPlayer_events[OF i(4,5) l(2)] alike_State[OF rel] using a(2) by simp
    then show ?thesis using a out by simp
  next
    case (PlayStart now)
    obtain e1 r1 e2 r2 where l: "StartNextQuestion S gid now st1 = (st1', e1, r1)" "StartNextQuestion S gid now st2 = (st2', e2, r2)"
      and out: "out1 = (e1, map_sum id (\<lambda>u. JNull) r1)" "out2 = (e2, map_sum id (\<lambda>u. JNull) r2)"
      using run1 run2 PlayStart by (auto simp: out_json_def split: prod.splits)
    have now: "time_ok now" using t PlayStart by simp
    note a = implements_alike[OF rel StartNextQuestion_implements[OF i(1,2) now l(1)] StartNextQuestion_implements[OF i(4,5) now l(2)]
        at_game_alike[OF rel spec_alike(2)]]
    have "e1 = e2"
    proof (cases "r1 = Inr ()")
      case True
      then obtain g1 q1 p1 g2 q2 p2 where g: "ob_view V st1 gid = Some g1" "ag_Question g1 (s_CurrentQIdx (ag_State g1) + 1) = Some q1"
        "questionPayload (started now q1 (ag_State g1)) = Some p1" "e1 = [Broadcast (EventQuestionStarted p1)]"
        "ob_view V st2 gid = Some g2" "ag_Question g2 (s_CurrentQIdx (ag_State g2) + 1) = Some q2"
        "questionPayload (started now q2 (ag_State g2)) = Some p2" "e2 = [Broadcast (EventQuestionStarted p2)]"
        using StartNextQuestion_events(1)[OF i(1,2) l(1)] StartNextQuestion_events(1)[OF i(4,5) l(2)] a(2) by auto
      have h: "hide_game g1 = hide_game g2" using rel g by (simp add: look_alike_def)
      have "hide_question q1 = hide_question q2"
        using spec_alike(6)[OF h, of "s_CurrentQIdx (ag_State g1) + 1"] g spec_alike(4)[OF h] by simp
      then have "p1 = p2" using g(3,7) spec_alike(4)[OF h] started_payload_hide by (metis option.inject)
      then show ?thesis using g by simp
    next
      case False
      then show ?thesis using StartNextQuestion_events(2)[OF i(1,2) l(1)] StartNextQuestion_events(2)[OF i(4,5) l(2)] a(2) by simp
    qed
    then show ?thesis using a out by simp
  next
    case (PlayAnswer pid qid oid)
    obtain e1 r1 e2 r2 where l: "SubmitAnswer S gid pid qid oid st1 = (st1', e1, r1)" "SubmitAnswer S gid pid qid oid st2 = (st2', e2, r2)"
      and out: "out1 = (e1, map_sum id (\<lambda>u. JNull) r1)" "out2 = (e2, map_sum id (\<lambda>u. JNull) r2)"
      using run1 run2 PlayAnswer by (auto simp: out_json_def split: prod.splits)
    note a = implements_alike[OF rel SubmitAnswer_implements[OF i(1) l(1)] SubmitAnswer_implements[OF i(4) l(2)]
        at_game_alike[OF rel spec_alike(3)]]
    have "e1 = e2" using l a(2) by (auto simp: SubmitAnswer_def split: prod.splits sum.splits)
    then show ?thesis using a out by simp
  qed
qed

lemma play_run_alike:
  assumes "look_alike V gid st1 st2" and "list_all play_time_ok ps"
  shows "play_run S gid ps st1 = play_run S gid ps st2"
  using assms
proof (induction ps arbitrary: st1 st2)
  case (Cons p ps)
  obtain st1' out1 where r1: "play_step S gid p st1 = (st1', out1)" by (cases "play_step S gid p st1")
  obtain st2' out2 where r2: "play_step S gid p st2 = (st2', out2)" by (cases "play_step S gid p st2")
  note r = r1 r2
  then show ?case using play_step_alike[OF Cons.prems(1) _ r] Cons.prems(2) Cons.IH by simp
qed simp

end

section \<open>On Redis\<close>


definition mem_other :: "mem_net rstate" where
  "mem_other = fst (SubmitAnswer mem_S ''g'' ''p'' ''q2'' ''b'' mem_started)"

definition mem_ag_other :: agame where
  "mem_ag_other = mem_ag_started\<lparr>ag_Answers := (\<lambda>_. fmempty)(0 := fmupd ''p'' ''b'' fmempty)\<rparr>"

lemma mem_other_view: "mem_ok mem_other" "db_view (rs_db mem_other) = [''g'' \<mapsto> mem_ag_other]"
proof -
  have spec: "submit_spec ''p'' ''q2'' ''b'' mem_ag_started = Inr mem_ag_other"
    by (simp add: submit_spec_def loaded_def submit_check_def record_spec_def Let_def mem_ag_defs mem_ag_other_def
        hasOption_def ex_question_def fun_eq_iff)
  obtain effs r where run: "SubmitAnswer mem_S ''g'' ''p'' ''q2'' ''b'' mem_started = (mem_other, effs, r)"
    by (simp add: mem_other_def) (metis prod.collapse)
  have "implements (observer mem_up) mem_started mem_other ''g'' (Inr mem_ag_other) (db_due (rs_db mem_started)) r"
    using mem.games.SubmitAnswer_implements[OF _ run] mem_started_view
    by (simp add: mem_ok_def at_game_def spec)
  from implements_up[OF this mem_started_view(1)] mem_started_view(2)
  show "mem_ok mem_other" "db_view (rs_db mem_other) = [''g'' \<mapsto> mem_ag_other]" by simp_all
qed


end
