(* ===== verification/Game_Requests.thy ===== *)
theory Game_Requests
  imports Game_Secrecy Catalog_Properties
begin

text \<open>
  What the HTTP handlers of \<open>Game_Handlers\<close> do to the games of any store with the contract
  \<open>state_store\<close>, and, on Redis, who may change a game.
\<close>

section \<open>The state store under a handler\<close>

definition actor_id :: "('a) ctx_scheme \<Rightarrow> string" where
  "actor_id cx = da_ID (extractActor (cx_Actor cx))"

text \<open>The store is as it was for every observer, though requests have been made.\<close>

definition steady :: "'st observer \<Rightarrow> 'st \<Rightarrow> 'st \<Rightarrow> bool" where
  "steady V st st' \<longleftrightarrow> ob_inv V st' \<and> ob_lock V st' = ob_lock V st \<and> unchanged V st st' \<and> (ob_up V st \<longrightarrow> ob_up V st')"

lemma steadyI: "call_ok V st st' r \<Longrightarrow> unchanged V st st' \<Longrightarrow> steady V st st'"
  by (simp add: steady_def call_ok_def)

lemma steady_refl: "ob_inv V st \<Longrightarrow> steady V st st"
  by (simp add: steady_def unchanged_def)

lemma steady_trans: "steady V st st1 \<Longrightarrow> steady V st1 st2 \<Longrightarrow> steady V st st2"
  by (simp add: steady_def unchanged_def)

lemma steady_inv: "steady V st st' \<Longrightarrow> ob_inv V st'"
  by (simp add: steady_def)

lemma steady_view: "steady V st st' \<Longrightarrow> ob_view V st' = ob_view V st"
  by (simp add: steady_def unchanged_def)

lemma steady_lock: "steady V st st' \<Longrightarrow> ob_lock V st' = ob_lock V st"
  by (simp add: steady_def)

lemma wd_game_effects [simp]: "wd_game (fold (run_effect h) effs w) = wd_game w"
  by (induction effs arbitrary: w) (auto simp: run_effect_def split: effect.splits)

lemma wd_game_calls [simp]:
  "wd_game (fst (on_db f w)) = wd_game w" "wd_game (best_effort f w) = wd_game w"
  "wd_game (fst (on_game k w)) = fst (k (wd_game w))" "snd (on_game k w) = snd (k (wd_game w))"
  "wd_db (fst (on_game k w)) = wd_db w" "wd_events (fst (on_game k w)) = wd_events w"
  by (simp_all add: on_db_def on_game_def best_effort_def)

lemma on_engine_parts:
  "wd_game (fst (on_engine h f w)) = fst (f (wd_game w))" "snd (on_engine h f w) = snd (snd (f (wd_game w)))"
  by (simp_all add: on_engine_def split: prod.splits)

lemma map_sum_Inr: "map_sum f id r = Inr x \<longleftrightarrow> r = Inr x"
  by (cases r) auto

text \<open>\<open>Q st r\<close> describes how a step may leave the store and what it returns.\<close>

definition leaves :: "('st \<Rightarrow> (response + 'a) \<Rightarrow> bool) \<Rightarrow> ('st, 'd) world \<times> (response + 'a) \<Rightarrow> bool" where
  "leaves Q m \<longleftrightarrow> Q (wd_game (fst m)) (snd m)"

lemma leaves_and_then:
  assumes "leaves P m" and "\<And>st r. P st (Inl r) \<Longrightarrow> Q st (Inl r)"
    and "\<And>w x. P (wd_game w) (Inr x) \<Longrightarrow> leaves Q (k w x)"
  shows "leaves Q (and_then m k)"
  using assms by (cases "(m, k)" rule: and_then.cases) (auto simp: leaves_def)

lemma leaves_mono: "leaves P m \<Longrightarrow> (\<And>st r. P st r \<Longrightarrow> Q st r) \<Longrightarrow> leaves Q m"
  by (simp add: leaves_def)

lemma leaves_answered: "leaves (\<lambda>st r. Q st) m \<Longrightarrow> Q (wd_game (fst (answered m)))"
  by (simp add: leaves_def)

lemma leaves_call:
  assumes "f (wd_game w) = (st', r)" and "Q st' (map_sum e id r)"
  shows "leaves Q (fail_with e (on_game f w))"
  using assms by (simp add: leaves_def fail_with_def on_game_def)

lemma leaves_engine:
  assumes "f (wd_game w) = (st', effs, r)" and "Q st' (map_sum e id r)"
  shows "leaves Q (fail_with e (on_engine h f w))"
  using assms by (simp add: leaves_def fail_with_def on_engine_def)

context state_store begin

lemma Manager_Get_steady:
  assumes "ob_inv V st" and "Manager_Get S gid st = (st', r)"
  shows "steady V st st'" and "ob_up V st \<Longrightarrow> r = (if ob_view V st gid = None then Inl ErrGameNotFound else Inr gid)"
    and "r = Inr eng \<Longrightarrow> eng = gid"
proof -
  obtain b where e: "ss_Exists S gid st = (st', b)" "r = (case b of Inl e \<Rightarrow> Inl e | Inr ok \<Rightarrow> if ok then Inr gid else Inl ErrGameNotFound)"
    using assms(2) by (cases "ss_Exists S gid st"; cases "snd (ss_Exists S gid st)") (auto simp: Manager_Get_def)
  note E = Exists[OF assms(1) e(1)]
  show "steady V st st'" by (rule steadyI[of _ _ _ b]) (use E in simp_all)
  show "ob_up V st \<Longrightarrow> r = (if ob_view V st gid = None then Inl ErrGameNotFound else Inr gid)"
    using E e(2) by (auto simp: call_ok_def)
  show "r = Inr eng \<Longrightarrow> eng = gid" using e(2) by (auto split: sum.splits if_splits)
qed

lemma Engine_State_steady:
  assumes "ob_inv V st" and "Engine_State S gid st = (st', r)"
  shows "steady V st st'" and "r = Inl ErrStorage \<or> r = load_view (ob_view V st gid)"
    and "ob_up V st \<Longrightarrow> r = load_view (ob_view V st gid)"
proof -
  note L = Load[OF assms(1) assms(2)[unfolded Engine_State_def]]
  show "steady V st st'" by (rule steadyI[of _ _ _ r]) (use L in simp_all)
  show "r = Inl ErrStorage \<or> r = load_view (ob_view V st gid)" and "ob_up V st \<Longrightarrow> r = load_view (ob_view V st gid)"
    using L by (auto simp: call_ok_def)
qed

lemma getEngine_leaves:
  assumes "gh_manager h = S" and "ob_inv V (wd_game w)"
  shows "leaves (\<lambda>st r. steady V (wd_game w) st \<and> (\<forall>eng. r = Inr eng \<longrightarrow> eng = gid)) (getEngine h gid w)"
proof -
  obtain st' r where g: "Manager_Get S gid (wd_game w) = (st', r)" by fastforce
  show ?thesis
    unfolding getEngine_def assms(1) by (rule leaves_call[where f = "Manager_Get S gid" and w = w, OF g])
      (use Manager_Get_steady(1,3)[OF assms(2) g] in \<open>cases r; simp\<close>)
qed

lemma loaded_host: "loaded g = Inr s \<Longrightarrow> HostActorID s = HostActorID (ag_State g)"
  by (simp add: HostActorID_def loaded_fields)

lemma host_only_leaves:
  assumes "gh_manager h = S" and "ob_inv V (wd_game w)"
  shows "leaves (\<lambda>st r. steady V (wd_game w) st \<and> (\<forall>eng. r = Inr eng \<longrightarrow> eng = gid \<and>
      (\<exists>g. ob_view V (wd_game w) gid = Some g \<and> HostActorID (ag_State g) = actor_id cx))) (host_only h cx msg gid w)"
  unfolding host_only_def
proof (rule leaves_and_then[OF getEngine_leaves[OF assms, of gid]])
  fix w1 :: "('st, 'd) world" and eng
  assume 1: "steady V (wd_game w) (wd_game w1) \<and> (\<forall>eng'. Inr eng = Inr eng' \<longrightarrow> eng' = gid)"
  then have s1: "steady V (wd_game w) (wd_game w1)" and eng: "eng = gid" by simp_all
  obtain st' r where l: "Engine_State S gid (wd_game w1) = (st', r)" by fastforce
  note L = Engine_State_steady[OF steady_inv[OF s1] l]
  have s2: "steady V (wd_game w) st'" by (rule steady_trans[OF s1 L(1)])
  have "leaves (\<lambda>st x. steady V (wd_game w) st \<and> (\<forall>s. x = Inr s \<longrightarrow> load_view (ob_view V (wd_game w) gid) = Inr s))
      (fail_with writeEngineError (on_game (Engine_State (gh_manager h) eng) w1))"
    unfolding assms(1) eng by (rule leaves_call[where f = "Engine_State S gid" and w = w1, OF l]) (use L(2) s2 steady_view[OF s1] in \<open>auto simp: map_sum_Inr\<close>)
  then show "leaves (\<lambda>st r. steady V (wd_game w) st \<and> (\<forall>eng. r = Inr eng \<longrightarrow> eng = gid \<and>
      (\<exists>g. ob_view V (wd_game w) gid = Some g \<and> HostActorID (ag_State g) = actor_id cx)))
    (and_then (fail_with writeEngineError (on_game (Engine_State (gh_manager h) eng) w1))
      (\<lambda>w s. if HostActorID s \<noteq> da_ID (extractActor (cx_Actor cx)) then (w, Inl (writeError 403 msg)) else (w, Inr eng)))"
    by (rule leaves_and_then)
      (use eng load_view_InrD[OF assms(2)] loaded_host in \<open>auto simp: leaves_def actor_id_def split: if_splits, metis\<close>)
qed simp

end

section \<open>Who changes a game\<close>

lemma implements_other:
  assumes "implements V st st' gid' spec due r" and "gid \<noteq> gid'"
  shows "ob_view V st' gid = ob_view V st gid"
  using assms by (auto simp: implements_def achieves_def unchanged_def split: sum.splits)

lemma closes_other:
  assumes "closes V st st' gid' i r" and "gid \<noteq> gid'"
  shows "ob_view V st' gid = ob_view V st gid"
  using assms by (auto simp: closes_def unchanged_def split: option.splits sum.splits)

text \<open>The game \<open>g\<close> with a new player of the actor.\<close>

definition joined_by :: "string \<Rightarrow> string \<Rightarrow> string \<Rightarrow> string \<Rightarrow> agame \<Rightarrow> agame" where
  "joined_by gid actorID pid name g = put_players gid [new_player pid name (InitialLives (s_Config (ag_State g))) gid actorID] g"

context state_store begin

lemma StartQuestion_keeps:
  fixes w :: "('st, 'd) world"
  assumes h: "gh_manager h = S" and inv: "ob_inv V (wd_game w)" and free: "\<forall>gid. ob_lock V (wd_game w) gid = None"
    and now: "time_ok (cx_now cx)" and g: "ob_view V (wd_game w) gid = Some g" "HostActorID (ag_State g) \<noteq> actor_id cx"
  shows "ob_view V (wd_game (fst (StartQuestion h cx gid' w))) gid = Some g"
  unfolding StartQuestion_def
proof (rule leaves_answered[where Q = "\<lambda>st. ob_view V st gid = Some g"], rule leaves_and_then[OF host_only_leaves[OF h inv]], goal_cases)
  case (1 st r)
  then show ?case using g(1) by (simp add: steady_view)
next
  case (2 w1 eng)
  then have s: "steady V (wd_game w) (wd_game w1)" and eng: "eng = gid'" and ne: "gid \<noteq> gid'" using g by auto
  obtain st' effs r where run: "StartNextQuestion S gid' (cx_now cx) (wd_game w1) = (st', effs, r)" by (rule prod_cases3)
  have "ob_view V st' gid = Some g"
    using implements_other[OF StartNextQuestion_implements[OF steady_inv[OF s] _ now run] ne] free g(1) steady_view[OF s] steady_lock[OF s]
    by simp
  then have "leaves (\<lambda>st r. ob_view V st gid = Some g)
      (fail_with writeGameError (on_engine h (StartNextQuestion (gh_manager h) eng (cx_now cx)) w1))"
    unfolding h eng by (intro leaves_engine[where f = "StartNextQuestion S gid' (cx_now cx)" and w = w1, OF run])
  then show ?case by (rule leaves_and_then) (auto simp: leaves_def split: option.splits)
qed

lemma CloseGameQuestion_keeps:
  fixes w :: "('st, 'd) world"
  assumes h: "gh_manager h = S" and inv: "ob_inv V (wd_game w)" and free: "\<forall>gid. ob_lock V (wd_game w) gid = None"
    and wf: "games_ok V (wd_game w)" and g: "ob_view V (wd_game w) gid = Some g" "HostActorID (ag_State g) \<noteq> actor_id cx"
  shows "ob_view V (wd_game (fst (CloseGameQuestion h cx gid' w))) gid = Some g"
  unfolding CloseGameQuestion_def
proof (rule leaves_answered[where Q = "\<lambda>st. ob_view V st gid = Some g"], rule leaves_and_then[OF host_only_leaves[OF h inv]], goal_cases)
  case (1 st r)
  then show ?case using g(1) by (simp add: steady_view)
next
  case (2 w1 eng)
  then have s: "steady V (wd_game w) (wd_game w1)" and eng: "eng = gid'" and ne: "gid \<noteq> gid'" using g by auto
  obtain st' effs r where run: "closeQuestion S gid' (-1) (wd_game w1) = (st', effs, r)" by (rule prod_cases3)
  have o: "0 \<le> s_CurrentQIdx (ag_State g1)"
    if "ob_view V (wd_game w1) gid' = Some g1" "s_QuestionOpen (ag_State g1)" for g1
    using that wf_game_open(1)[of g1] wf steady_view[OF s] by (auto simp: games_ok_def)
  have f1: "ob_lock V (wd_game w1) gid' = None" using free steady_lock[OF s] by simp
  have "ob_view V st' gid = Some g"
  proof (rule closeQuestion_closes[OF steady_inv[OF s] f1 o run])
    fix cr assume "closes V (wd_game w1) st' gid' (-1) cr"
    from closes_other[OF this ne] show ?thesis using g(1) steady_view[OF s] by simp
  qed simp_all
  then have "leaves (\<lambda>st r. ob_view V st gid = Some g)
      (fail_with writeGameError (on_engine h (CloseQuestion (gh_manager h) eng) w1))"
    unfolding h eng by (intro leaves_engine[where f = "CloseQuestion S gid'" and w = w1, OF run[folded CloseQuestion_def]])
  then show ?case by (rule leaves_and_then) (auto simp: leaves_def)
qed

end

section \<open>Joining and reading\<close>

context state_store begin

lemma persist_join_steady:
  assumes "gh_manager h = S" and "ob_inv V (wd_game w)"
  shows "steady V (wd_game w) (wd_game (persist_join h cx gid pid name w))"
proof (cases "gh_playerStore h")
  case None
  then show ?thesis using assms(2) by (simp add: persist_join_def steady_refl)
next
  case (Some P)
  obtain st' r where l: "Engine_State S gid (wd_game w) = (st', r)" by fastforce
  then show ?thesis
    using Engine_State_steady(1)[OF assms(2) l] Some by (simp add: persist_join_def assms(1) Let_def on_game_def)
qed

lemma add_spec_joined: "add_spec gid pid name a g = Inr g' \<Longrightarrow> g' = joined_by gid a pid name g \<and>
    s_Status (ag_State g) = GameStatusWaiting \<and> pid |\<notin>| fmdom (s_Players (ag_State g))"
  by (auto simp: add_spec_def joined_by_def Let_def split: if_splits)

lemma JoinGame_effect:
  fixes w :: "('st, 'd) world" and cx :: game_ctx and gid' :: string and body :: "string option"
  assumes h: "gh_manager h = S" and inv: "ob_inv V (wd_game w)" and free: "\<forall>gid. ob_lock V (wd_game w) gid = None"
    and g: "ob_view V (wd_game w) gid = Some g"
  defines "after \<equiv> ob_view V (wd_game (fst (JoinGame h cx gid' body w))) gid"
  shows "after = Some g \<or> (\<exists>name. gid' = gid \<and> body = Some name \<and> name \<noteq> '''' \<and> s_Status (ag_State g) = GameStatusWaiting \<and>
      cx_uuid cx 0 |\<notin>| fmdom (s_Players (ag_State g)) \<and> after = Some (joined_by gid (actor_id cx) (cx_uuid cx 0) name g))"
proof (cases "body = None \<or> body = Some ''''")
  case True
  then show ?thesis using g by (auto simp: after_def JoinGame_def)
next
  case False
  then obtain name where body: "body = Some name" "name \<noteq> ''''" by auto
  define Q where "Q = (\<lambda>og. og = Some g \<or> gid' = gid \<and> s_Status (ag_State g) = GameStatusWaiting \<and>
      cx_uuid cx 0 |\<notin>| fmdom (s_Players (ag_State g)) \<and> og = Some (joined_by gid (actor_id cx) (cx_uuid cx 0) name g))"
  let ?run = "\<lambda>w eng. let playerID = cx_uuid cx 0 in and_then
      (fail_with (\<lambda>e. if e = ErrGameAlreadyStarted then writeError 409 ''game already started'' else writeEngineError e)
        (on_engine h (AddPlayer (gh_manager h) eng playerID name (da_ID (extractActor (cx_Actor cx)))) w)) (\<lambda>w u.
      (persist_join h cx gid' playerID name w,
       Inr (writeJSON 200 (JObj [(''game_id'', JStr gid'), (''player_id'', JStr playerID)]))))"
  have "leaves (\<lambda>st r. Q (ob_view V st gid)) (and_then (getEngine h gid' w) ?run)"
  proof (rule leaves_and_then[OF getEngine_leaves[OF h inv]], goal_cases)
    case (1 st r)
    then show ?case using g by (simp add: steady_view Q_def)
  next
    case (2 w1 eng)
    then have s: "steady V (wd_game w) (wd_game w1)" and eng: "eng = gid'" by auto
    note view = steady_view[OF s] and lock = steady_lock[OF s]
    obtain st' effs r where run: "AddPlayer S gid' (cx_uuid cx 0) name (actor_id cx) (wd_game w1) = (st', effs, r)" by (rule prod_cases3)
    have I: "implements V (wd_game w1) st' gid' (at_game (add_spec gid' (cx_uuid cx 0) name (actor_id cx)) (ob_view V (wd_game w1) gid'))
        (ob_due V (wd_game w1)) r"
      using AddPlayer_implements[OF steady_inv[OF s] _ run] free lock by simp
    have "Q (ob_view V st' gid)"
    proof (cases "gid = gid'")
      case False
      then show ?thesis using implements_other[OF I False] g view by (simp add: Q_def)
    next
      case True
      then have v: "ob_view V (wd_game w1) gid' = Some g" using g view by simp
      show ?thesis
      proof (cases "add_spec gid' (cx_uuid cx 0) name (actor_id cx) g")
        case (Inl e)
        then show ?thesis using I v True by (simp add: Q_def at_game_def implements_def achieves_def unchanged_def)
      next
        case (Inr g')
        then show ?thesis
          using I v True add_spec_joined[OF Inr] by (auto simp: Q_def at_game_def implements_def achieves_def)
      qed
    qed
    moreover have "ob_inv V st'" using I by (simp add: implements_def)
    ultimately have "leaves (\<lambda>st r. Q (ob_view V st gid) \<and> ob_inv V st)
        (fail_with (\<lambda>e. if e = ErrGameAlreadyStarted then writeError 409 ''game already started'' else writeEngineError e)
          (on_engine h (AddPlayer (gh_manager h) eng (cx_uuid cx 0) name (da_ID (extractActor (cx_Actor cx)))) w1))"
      unfolding h eng using leaves_engine[where f = "AddPlayer S gid' (cx_uuid cx 0) name (actor_id cx)" and w = w1, OF run]
      by (simp add: actor_id_def)
    then show ?case
      unfolding Let_def by (rule leaves_and_then) (use steady_view[OF persist_join_steady[OF h]] in \<open>auto simp: leaves_def\<close>)
  qed
  then have "Q after"
    unfolding after_def JoinGame_def using body by (simp add: leaves_def)
  then show ?thesis using body by (auto simp: Q_def)
qed

lemma loadState_steady:
  fixes w :: "('st, 'd) world"
  assumes h: "gh_manager h = S" and inv: "ob_inv V (wd_game w)"
  shows "leaves (\<lambda>st r. steady V (wd_game w) st) (loadState h gid w)"
  unfolding loadState_def
proof (rule leaves_and_then[OF getEngine_leaves[OF h inv]], goal_cases)
  case (2 w1 eng)
  then have s: "steady V (wd_game w) (wd_game w1)" by simp
  obtain st' r where l: "Engine_State S eng (wd_game w1) = (st', r)" by fastforce
  show ?case
    unfolding h by (rule leaves_call[where f = "Engine_State S eng" and w = w1, OF l])
      (rule steady_trans[OF s Engine_State_steady(1)[OF steady_inv[OF s] l]])
qed simp

lemma GetGame_steady:
  fixes w :: "('st, 'd) world"
  assumes "gh_manager h = S" and "ob_inv V (wd_game w)"
  shows "steady V (wd_game w) (wd_game (fst (GetGame h cx gid w)))"
  unfolding GetGame_def
  by (rule leaves_answered[where Q = "steady V (wd_game w)"], rule leaves_and_then[OF loadState_steady[OF assms]])
    (simp_all add: leaves_def)

lemma GamesOf_loop_steady:
  assumes "ob_inv V st" and "GamesOf_loop S gids st = (st', r)"
  shows "steady V st st'"
  using assms
proof (induction gids arbitrary: st st' r)
  case (Cons gid gids)
  obtain st1 x where l: "ss_Load S gid st = (st1, x)" by fastforce
  have s: "steady V st st1" using Engine_State_steady(1)[OF Cons.prems(1)] l by (simp add: Engine_State_def)
  obtain st2 y where m: "GamesOf_loop S gids st1 = (st2, y)" by fastforce
  have "steady V st st2" by (rule steady_trans[OF s Cons.IH[OF steady_inv[OF s] m]])
  then show ?case using Cons.prems(2) l m s by (cases x; cases y) (auto split: if_splits)
qed (simp add: steady_refl)

lemma GamesOf_steady:
  assumes "ob_inv V st" and "GamesOf S a st = (st', r)"
  shows "steady V st st'"
proof -
  obtain st1 x where l: "ss_GamesOfActor S a st = (st1, x)" by fastforce
  note L = GamesOfActor[OF assms(1) l]
  have s: "steady V st st1" by (rule steadyI[of _ _ _ x]) (use L in simp_all)
  show ?thesis
  proof (cases x)
    case (Inl e)
    then show ?thesis using assms(2) l s by (simp add: GamesOf_def)
  next
    case (Inr gids)
    obtain st2 y where m: "GamesOf_loop S gids st1 = (st2, y)" by fastforce
    then have "st' = st2" using assms(2) l Inr by (cases y) (auto simp: GamesOf_def)
    then show ?thesis using steady_trans[OF s GamesOf_loop_steady[OF steady_inv[OF s] m]] by simp
  qed
qed

lemma ListMyGames_steady:
  fixes w :: "('st, 'd) world"
  assumes h: "gh_manager h = S" and inv: "ob_inv V (wd_game w)"
  shows "steady V (wd_game w) (wd_game (fst (ListMyGames h cx w)))"
proof -
  obtain st' r where l: "GamesOf S (actor_id cx) (wd_game w) = (st', r)" by fastforce
  have "leaves (\<lambda>st r. steady V (wd_game w) st) (fail_with writeEngineError (on_game (GamesOf S (actor_id cx)) w))"
    by (rule leaves_call[where f = "GamesOf S (actor_id cx)" and w = w, OF l]) (rule GamesOf_steady[OF inv l])
  then have "leaves (\<lambda>st r. steady V (wd_game w) st) (and_then (fail_with writeEngineError (on_game (GamesOf S (actor_id cx)) w))
      (\<lambda>w states. (w, Inr (writeJSON 200 (JArr (my_games (actor_id cx) states))))))"
    by (rule leaves_and_then) (simp_all add: leaves_def)
  then show ?thesis
    unfolding ListMyGames_def Let_def h actor_id_def[symmetric] by (rule leaves_answered[where Q = "steady V (wd_game w)"])
qed

end

section \<open>The host\<close>

context state_store begin

lemma host_only_refuses:
  fixes w :: "('st, 'd) world"
  assumes h: "gh_manager h = S" and inv: "ob_inv V (wd_game w)" and up: "ob_up V (wd_game w)"
    and g: "ob_view V (wd_game w) gid = Some g" "HostActorID (ag_State g) \<noteq> actor_id cx"
  obtains w' where "host_only h cx msg gid w = (w', Inl (writeError 403 msg))" and "steady V (wd_game w) (wd_game w')"
    and "wd_db w' = wd_db w" and "wd_events w' = wd_events w"
proof -
  obtain st1 r1 where 1: "Manager_Get S gid (wd_game w) = (st1, r1)" by fastforce
  have r1: "r1 = Inr gid" using Manager_Get_steady(2)[OF inv 1 up] g(1) by simp
  have s1: "steady V (wd_game w) st1" by (rule Manager_Get_steady(1)[OF inv 1])
  then have up1: "ob_up V st1" using up by (simp add: steady_def)
  obtain st2 r2 where 2: "Engine_State S gid st1 = (st2, r2)" by fastforce
  have "loaded g \<noteq> Inl ErrStorage" using View[OF inv g(1)] by simp
  then obtain s where s: "loaded g = Inr s" by (auto simp: loaded_def Let_def split: if_splits option.splits)
  have r2: "r2 = Inr s" using Engine_State_steady(3)[OF steady_inv[OF s1] 2 up1] g(1) s steady_view[OF s1] by simp
  have "host_only h cx msg gid w = (w\<lparr>wd_game := st2\<rparr>, Inl (writeError 403 msg))"
    using g(2) by (simp add: host_only_def getEngine_def h on_game_def 1 2 r1 r2 loaded_host[OF s] actor_id_def)
  moreover have "steady V (wd_game w) st2" by (rule steady_trans[OF s1 Engine_State_steady(1)[OF steady_inv[OF s1] 2]])
  ultimately show thesis by (intro that[of "w\<lparr>wd_game := st2\<rparr>"]) simp_all
qed

end

context state_store begin

text \<open>What a request to an existing game, by an actor who is not its host, does to the game.\<close>

lemma serve_game_effect:
  fixes w :: "('st, 'd) world"
  assumes h: "gh_manager h = S" and inv: "ob_inv V (wd_game w)" and free: "\<forall>gid. ob_lock V (wd_game w) gid = None"
    and wf: "games_ok V (wd_game w)" and now: "time_ok (cx_now cx)" and g: "ob_view V (wd_game w) gid = Some g"
    and host: "HostActorID (ag_State g) \<noteq> actor_id cx" and req: "\<And>body. req \<noteq> PostGame body"
  defines "w' \<equiv> fst (serve_game h cx req w)"
  shows "ob_view V (wd_game w') gid = Some g \<or>
    (\<exists>name. req = PostJoin gid (Some name) \<and> name \<noteq> '''' \<and> s_Status (ag_State g) = GameStatusWaiting \<and>
       cx_uuid cx 0 |\<notin>| fmdom (s_Players (ag_State g)) \<and>
       ob_view V (wd_game w') gid = Some (joined_by gid (actor_id cx) (cx_uuid cx 0) name g))"
proof (cases req)
  case (PostGame body)
  then show ?thesis using req by simp
next
  case ListGames
  then show ?thesis using ListMyGames_steady[OF h inv, THEN steady_view, of cx] g by (simp add: w'_def)
next
  case (ReadGame gid')
  then show ?thesis using GetGame_steady[OF h inv, THEN steady_view, of cx gid'] g by (simp add: w'_def)
next
  case (PostJoin gid' body)
  then show ?thesis using JoinGame_effect[OF h inv free g, of cx gid' body] by (simp add: w'_def)
next
  case (PostStart gid')
  then show ?thesis using StartQuestion_keeps[OF h inv free now g host, of gid'] by (simp add: w'_def)
next
  case (PostClose gid')
  then show ?thesis using CloseGameQuestion_keeps[OF h inv free wf g host, of gid'] by (simp add: w'_def)
qed

lemma host_requests_refused:
  fixes w :: "('st, 'd) world"
  assumes "gh_manager h = S" and "ob_inv V (wd_game w)" and "ob_up V (wd_game w)" and "ob_view V (wd_game w) gid = Some g"
    and "HostActorID (ag_State g) \<noteq> actor_id cx" and "req = PostStart gid \<or> req = PostClose gid"
    and "serve_game h cx req w = (w', r)"
  shows "rp_status r = 403 \<and> wd_db w' = wd_db w \<and> wd_events w' = wd_events w"
  using assms(6)
proof
  assume "req = PostStart gid"
  then show ?thesis
    using assms(7) by (cases rule: host_only_refuses[OF assms(1-5), of "''only the game host can start questions''"]) (auto simp: StartQuestion_def)
next
  assume "req = PostClose gid"
  then show ?thesis
    using assms(7) by (cases rule: host_only_refuses[OF assms(1-5), of "''only the game host can close questions''"]) (auto simp: CloseGameQuestion_def)
qed

end

text \<open>
  C37: only the host moves a game. On Redis, whatever is lost, a request of an actor who is not the
  host of a game leaves it exactly as it is, except that joining a waiting game adds one player, with a
  new ID and the game's lives, that belongs to the actor. While Redis is up, his requests to start or
  close a question are refused with 403 and have no effect at all: no event and no row.
\<close>

theorem only_host_moves:
  assumes "redis_store R up" and "gh_manager h = gameStateStore R"
    and "db_ok (rs_db (wd_game w))" and "\<forall>g. str (rs_db (wd_game w)) (lockKey g) = None"
    and "\<forall>gid g. db_view (rs_db (wd_game w)) gid = Some g \<longrightarrow> wf_game g" and "time_ok (cx_now cx)"
    and "db_view (rs_db (wd_game w)) gid = Some g" and "HostActorID (ag_State g) \<noteq> actor_id cx"
    and "\<And>body. req \<noteq> PostGame body" and "serve_game h cx req w = (w', r)"
  shows "(db_view (rs_db (wd_game w')) gid = Some g \<or>
      (\<exists>name. req = PostJoin gid (Some name) \<and> name \<noteq> '''' \<and> s_Status (ag_State g) = GameStatusWaiting \<and>
         cx_uuid cx 0 |\<notin>| fmdom (s_Players (ag_State g)) \<and>
         db_view (rs_db (wd_game w')) gid = Some (joined_by gid (actor_id cx) (cx_uuid cx 0) name g))) \<and>
    (up (rs_net (wd_game w)) \<and> (req = PostStart gid \<or> req = PostClose gid) \<longrightarrow>
      rp_status r = 403 \<and> wd_db w' = wd_db w \<and> wd_events w' = wd_events w)"
proof -
  have S: "state_store (gameStateStore R) (observer up)" using redis_store.is_state_store[OF assms(1)] .
  have W: "ob_inv (observer up) (wd_game w)" "\<forall>gid. ob_lock (observer up) (wd_game w) gid = None"
    "games_ok (observer up) (wd_game w)" "ob_view (observer up) (wd_game w) gid = Some g"
    using assms(3-5,7) by (simp_all add: games_ok_def)
  show ?thesis
    using state_store.serve_game_effect[OF S assms(2) W(1-3) assms(6) W(4) assms(8,9)]
      state_store.host_requests_refused[OF S assms(2) W(1) _ W(4) assms(8) _ assms(10)] assms(10)
    by simp
qed

definition ex_handler :: "(mem_net rstate, mem_pgnet pgstate) GameHandler" where
  "ex_handler = \<lparr>gh_manager = mem_S, gh_gameStore = Some (pgGameStore mem_pg), gh_playerStore = Some (pgPlayerStore mem_pg),
     gh_questionListStore = pgQuestionListStore mem_pg, gh_cfg = mem_cfg\<rparr>"

definition ex_game_ctx :: "string \<Rightarrow> game_ctx" where
  "ex_game_ctx i = \<lparr>cx_Actor = Some \<lparr>ac_Sub = i, ac_Name = i, ac_Email = '''', ac_ActorType = ActorTypeUser\<rparr>, cx_now = mem_now,
     cx_uuid = (\<lambda>n. ''u'' @ itoa (int n)), cx_later = mem_now\<rparr>"

definition ex_world :: "mem_net rstate \<Rightarrow> (mem_net rstate, mem_pgnet pgstate) world" where
  "ex_world st = \<lparr>wd_game = st, wd_db = ex_pg [], wd_events = []\<rparr>"

lemma ex_handler_simps [simp]: "gh_manager ex_handler = mem_S" "wd_game (ex_world st) = st" "wd_events (ex_world st) = []"
  "wd_db (ex_world st) = ex_pg []" "actor_id (ex_game_ctx i) = i" "cx_now (ex_game_ctx i) = mem_now"
  by (simp_all add: ex_handler_def ex_world_def ex_game_ctx_def actor_id_def extractActor_def)

theorem only_host_moves_witness:
  "let (w, r) = serve_game ex_handler (ex_game_ctx ''eve'') (PostClose ''g'') (ex_world mem_joined)
   in rp_status r = 403 \<and> wd_events w = [] \<and> db_view (rs_db (wd_game w)) ''g'' = Some mem_ag_joined"
proof -
  obtain w r where run: "serve_game ex_handler (ex_game_ctx ''eve'') (PostClose ''g'') (ex_world mem_joined) = (w, r)" by fastforce
  have ok: "mem_ok mem_joined" and v: "db_view (rs_db mem_joined) = [''g'' \<mapsto> mem_ag_joined]" by (fact mem_joined_view)+
  have wf: "wf_game mem_ag_joined"
    by (auto simp: wf_game_def wf_State_def wf_players_def wf_player_def wf_progress_def Let_def mem_ag_defs split: if_splits)
  have host: "HostActorID (ag_State mem_ag_joined) \<noteq> ''eve''" by (simp add: HostActorID_def mem_ag_defs)
  show ?thesis
    using only_host_moves[OF mem.redis_store_axioms, of ex_handler "ex_world mem_joined" "ex_game_ctx ''eve''" "''g''" mem_ag_joined "PostClose ''g''" w r]
      ok v wf host mem_time_ok run by (simp add: mem_ok_def)
qed

end
