(* ===== verification/Game_Creation.thy ===== *)
theory Game_Creation
  imports Game_Requests
begin

text \<open>
  Creating a game: the catalog of PostgreSQL, the games of Redis and the relational copy together.
\<close>

section \<open>Rows\<close>

definition stores :: "('n rstate, 'm pgstate) GameHandler \<Rightarrow> 'n GameStateStore \<Rightarrow> 'm pgconn \<Rightarrow> bool" where
  "stores h R L \<longleftrightarrow> gh_manager h = gameStateStore R \<and> gh_gameStore h = Some (pgGameStore L) \<and>
     gh_playerStore h = Some (pgPlayerStore L) \<and> gh_questionListStore h = pgQuestionListStore L"

lemma storesD:
  assumes "stores h R L"
  shows "gh_manager h = gameStateStore R" "gh_gameStore h = Some (pgGameStore L)" "gh_playerStore h = Some (pgPlayerStore L)"
    "gh_questionListStore h = pgQuestionListStore L"
  using assms by (simp_all add: stores_def)

lemma read_tables:
  "pg_tables (fst (db_GetQuestionList L i st)) = pg_tables st" "pg_tables (fst (db_ListQuestions L i st)) = pg_tables st"
  by (auto simp: db_GetQuestionList_def db_ListQuestions_def returning_def query_row_def query_def Let_def
      split: prod.splits delivery.splits option.splits sum.splits)

lemma tables_ok_games:
  "tables_ok (t\<lparr>t_games := x\<rparr>) = tables_ok t" "tables_ok (t\<lparr>t_players := y\<rparr>) = tables_ok t"
  "catalog_of (t\<lparr>t_games := x\<rparr>) = catalog_of t" "catalog_of (t\<lparr>t_players := y\<rparr>) = catalog_of t"
  by (simp_all add: tables_ok_def catalog_of_def)

context pg_connection begin

lemma sent_up:
  assumes "pg_up alive d"
  obtains n where "pc_send L (pg_net d) = (n, Delivered)" and "alive n"
  using assms alive_send[of "pg_net d"] by (cases "pc_send L (pg_net d)") (auto simp: pg_up_def)

lemma create_game_row:
  assumes up: "pg_up alive d" and fresh: "gr_ID g |\<notin>| fmdom (t_games (pg_tables d))"
    and list: "gr_QuestionListID g \<noteq> ''''" "gr_QuestionListID g |\<in>| fmdom (t_lists (pg_tables d))"
    and texts: "list_all text_param [gr_ID g, gr_OwnerID g, gr_QuestionListID g, gr_Status g]"
  shows "pg_up alive (fst (db_CreateGame L g d))"
    and "pg_tables (fst (db_CreateGame L g d)) = (pg_tables d)\<lparr>t_games := fmupd (gr_ID g)
      \<lparr>gw_owner = gr_OwnerID g, gw_list = Some (gr_QuestionListID g), gw_status = gr_Status g,
       gw_created = micros (gr_CreatedAt g), gw_updated = micros (gr_UpdatedAt g)\<rparr> (t_games (pg_tables d))\<rparr>"
proof -
  obtain n where "pc_send L (pg_net d) = (n, Delivered)" "alive n" by (rule sent_up[OF up])
  then show "pg_up alive (fst (db_CreateGame L g d))"
    and "pg_tables (fst (db_CreateGame L g d)) = (pg_tables d)\<lparr>t_games := fmupd (gr_ID g)
      \<lparr>gw_owner = gr_OwnerID g, gw_list = Some (gr_QuestionListID g), gw_status = gr_Status g,
       gw_created = micros (gr_CreatedAt g), gw_updated = micros (gr_UpdatedAt g)\<rparr> (t_games (pg_tables d))\<rparr>"
    using up fresh list texts
    by (simp_all add: db_CreateGame_def returning_def query_def references_def nullableText_def pg_up_def pg_ok_def tables_ok_games)
qed

lemma create_player_row:
  assumes up: "pg_up alive d" and fresh: "pr_ID p |\<notin>| fmdom (t_players (pg_tables d))"
    and game: "pr_GameID p |\<in>| fmdom (t_games (pg_tables d))" and lives: "int4 (pr_Lives p)"
    and texts: "list_all text_param [pr_ID p, pr_GameID p, pr_Name p]"
  shows "pg_up alive (fst (db_CreatePlayer L p d))"
    and "pg_tables (fst (db_CreatePlayer L p d)) = (pg_tables d)\<lparr>t_players := fmupd (pr_ID p)
      \<lparr>pw_game = pr_GameID p, pw_name = pr_Name p, pw_lives = pr_Lives p, pw_active = pr_Active p,
       pw_created = micros (pr_CreatedAt p)\<rparr> (t_players (pg_tables d))\<rparr>"
proof -
  obtain n where "pc_send L (pg_net d) = (n, Delivered)" "alive n" by (rule sent_up[OF up])
  then show "pg_up alive (fst (db_CreatePlayer L p d))"
    and "pg_tables (fst (db_CreatePlayer L p d)) = (pg_tables d)\<lparr>t_players := fmupd (pr_ID p)
      \<lparr>pw_game = pr_GameID p, pw_name = pr_Name p, pw_lives = pr_Lives p, pw_active = pr_Active p,
       pw_created = micros (pr_CreatedAt p)\<rparr> (t_players (pg_tables d))\<rparr>"
    using up fresh game lives texts
    by (simp_all add: db_CreatePlayer_def returning_def query_def pg_up_def pg_ok_def tables_ok_games)
qed

end

section \<open>The request\<close>

text \<open>The stored game of a new game: waiting, with the snapshot of the list and its owner as a player.\<close>

definition new_game :: "(time \<Rightarrow> time) \<Rightarrow> string \<Rightarrow> string \<Rightarrow> string \<Rightarrow> string \<Rightarrow> string \<Rightarrow> time \<Rightarrow> question list \<Rightarrow> EngineConfig \<Rightarrow> agame" where
  "new_game tm gid ownerID actorID name lid now qs cfg =
     joined_by gid actorID ownerID name (created tm (initial_state gid ownerID lid now (length qs) cfg) qs)"

lemma new_game_simps:
  "s_Config (ag_State (created tm (initial_state gid o' lid now n cfg) qs)) = cfg"
  "add_spec gid o' name a (created tm (initial_state gid o' lid now n cfg) qs) =
     Inr (joined_by gid a o' name (created tm (initial_state gid o' lid now n cfg) qs))"
  by (simp_all add: created_def initial_state_def add_spec_def joined_by_def Let_def)

lemma created_host: "HostActorID (ag_State (new_game tm gid o' a name lid now qs cfg)) = a"
  by (simp add: new_game_def joined_by_def created_def initial_state_def put_players_def HostActorID_def new_player_def)

context state_store begin

lemma create_and_join:
  assumes inv: "ob_inv V st" and up: "ob_up V st" and free: "\<forall>gid. ob_lock V st gid = None" and fresh: "ob_fresh V st gid"
    and i64: "int64 (InitialLives cfg)" "int64 (AnswerTimeoutSeconds cfg)" "int64 (int (length qs))" "int64 (UnixMilli now)"
  obtains st1 st2 where "Manager_Create S gid ownerID lid qs cfg now st = (st1, Inr gid)"
    and "AddPlayer S gid ownerID name a st1 = (st2, [Broadcast (EventPlayerJoined ownerID name (InitialLives cfg))], Inr ())"
    and "ob_inv V st2" and "ob_up V st2" and "\<forall>gid. ob_lock V st2 gid = None"
    and "ob_view V st2 = (ob_view V st)(gid \<mapsto> new_game (ob_time V) gid ownerID a name lid now qs cfg)"
proof -
  let ?g = "created (ob_time V) (initial_state gid ownerID lid now (length qs) cfg) qs"
  obtain st1 r1 where c: "Manager_Create S gid ownerID lid qs cfg now st = (st1, r1)" by fastforce
  have W: "write_ok V st st1 gid ?g (map_sum id (\<lambda>_. ()) r1)" and r: "r1 \<in> {Inr gid, Inl ErrStorage}"
    using Manager_Create_creates[OF inv fresh i64 c] by auto
  have r1: "r1 = Inr gid" and up1: "ob_up V st1" and inv1: "ob_inv V st1" and l1: "ob_lock V st1 = ob_lock V st"
    and v1: "ob_view V st1 = (ob_view V st)(gid \<mapsto> ?g)"
    using W r up by (auto simp: write_ok_def Game_Store.call_ok_def wrote_def)
  obtain st2 effs r2 where a: "AddPlayer S gid ownerID name a st1 = (st2, effs, r2)" by (rule prod_cases3)
  have f1: "ob_lock V st1 gid = None" using free l1 by simp
  have I: "implements V st1 st2 gid (Inr (new_game (ob_time V) gid ownerID a name lid now qs cfg)) (ob_due V st1) r2"
    using AddPlayer_implements[OF inv1 f1 a] v1 by (simp add: at_game_def new_game_simps new_game_def)
  then have r2: "r2 = Inr ()" using up1 by (auto simp: implements_def achieves_def)
  moreover have "effs = [Broadcast (EventPlayerJoined ownerID name (InitialLives cfg))]"
    using AddPlayer_events[OF inv1 f1 a] r2 v1 by (simp add: new_game_simps)
  ultimately show thesis
    using I up1 l1 free v1 c r1 a by (intro that[of st1 st2]) (auto simp: implements_def achieves_def)
qed

end

lemma load_questions_up:
  assumes L: "pg_connection L alive" and h: "gh_questionListStore h = pgQuestionListStore L" and up: "pg_up alive (wd_db w)"
    and l: "fmlookup (c_lists (pg_cat (wd_db w))) lid = Some l" "canReadList (extractActor (cx_Actor cx)) l"
    and n: "numbered (pg_cat (wd_db w)) lid ids" "ids \<noteq> []" and t: "text_param lid"
  obtains d where "loadGameQuestions h cx lid w = (w\<lparr>wd_db := d\<rparr>, Inr (map game_question (listed (pg_cat (wd_db w)) ids)))"
    and "pg_up alive d" and "pg_tables d = pg_tables (wd_db w)"
proof -
  note cs = pg_connection.pg_store[OF L]
  obtain d1 where 1: "qs_GetQuestionList (pgQuestionListStore L) lid (wd_db w) = (d1, Inr l)" "pg_up alive d1"
    by (rule catalog_store.get_list_up[OF cs up l(1) t])
  have t1: "pg_tables d1 = pg_tables (wd_db w)"
    using read_tables(1)[of L lid "wd_db w"] 1(1) by (simp add: pgQuestionListStore_def)
  then have n1: "numbered (pg_cat d1) lid ids" using n(1) by (simp add: pg_cat_def)
  obtain d2 where 2: "qs_ListQuestions (pgQuestionListStore L) lid d1 = (d2, Inr (listed (pg_cat d1) ids))" "pg_up alive d2"
    by (rule catalog_store.list_questions_up[OF cs 1(2) n1 t])
  have t2: "pg_tables d2 = pg_tables d1"
    using read_tables(2)[of L lid d1] 2(1) by (simp add: pgQuestionListStore_def)
  have c1: "pg_cat d1 = pg_cat (wd_db w)" using t1 by (simp add: pg_cat_def)
  have ne: "listed (pg_cat (wd_db w)) ids \<noteq> []" using n(2) by (simp add: listed_def)
  show thesis
    by (rule that[OF _ 2(2)])
      (use l(2) ne t1 t2 in \<open>simp_all add: loadGameQuestions_def h on_db_def 1 2 require_def c1\<close>)
qed

lemma persist_create_up:
  assumes L: "pg_connection L alive" and h: "stores h R L" and up: "pg_up alive (wd_db w)"
    and lid: "cg_QuestionListID req = lid" "lid \<noteq> ''''" "lid |\<in>| fmdom (t_lists (pg_tables (wd_db w)))"
    and fresh: "gid |\<notin>| fmdom (t_games (pg_tables (wd_db w)))" "own |\<notin>| fmdom (t_players (pg_tables (wd_db w)))"
    and lives: "int4 (InitialLives cfg)" and texts: "list_all text_param [gid, own, lid, cg_OwnerName req]"
  obtains d where "persist_create h gid own req cfg now w = w\<lparr>wd_db := d\<rparr>" and "pg_cat d = pg_cat (wd_db w)"
    and "fmlookup (t_games (pg_tables d)) gid = Some \<lparr>gw_owner = own, gw_list = Some lid, gw_status = GameStatusWaiting,
      gw_created = micros now, gw_updated = micros now\<rparr>"
    and "fmlookup (t_players (pg_tables d)) own = Some \<lparr>pw_game = gid, pw_name = cg_OwnerName req,
      pw_lives = InitialLives cfg, pw_active = True, pw_created = micros now\<rparr>"
proof -
  let ?G = "\<lparr>gr_ID = gid, gr_OwnerID = own, gr_QuestionListID = lid, gr_Status = GameStatusWaiting, gr_CreatedAt = now, gr_UpdatedAt = now\<rparr>"
  let ?P = "\<lparr>pr_ID = own, pr_GameID = gid, pr_Name = cg_OwnerName req, pr_Lives = InitialLives cfg, pr_Active = True, pr_CreatedAt = now\<rparr>"
  have g: "gr_ID ?G |\<notin>| fmdom (t_games (pg_tables (wd_db w)))" "gr_QuestionListID ?G \<noteq> ''''"
    "gr_QuestionListID ?G |\<in>| fmdom (t_lists (pg_tables (wd_db w)))"
    "list_all text_param [gr_ID ?G, gr_OwnerID ?G, gr_QuestionListID ?G, gr_Status ?G]"
    using lid fresh texts by (simp_all add: text_param_def)
  define d1 where "d1 = fst (db_CreateGame L ?G (wd_db w))"
  note r1 = pg_connection.create_game_row[OF L up g, folded d1_def]
  have p: "pr_ID ?P |\<notin>| fmdom (t_players (pg_tables d1))" "pr_GameID ?P |\<in>| fmdom (t_games (pg_tables d1))" "int4 (pr_Lives ?P)"
    "list_all text_param [pr_ID ?P, pr_GameID ?P, pr_Name ?P]"
    using fresh lives texts r1(2) by simp_all
  define d2 where "d2 = fst (db_CreatePlayer L ?P d1)"
  note r2 = pg_connection.create_player_row[OF L r1(1) p, folded d2_def]
  show thesis
  proof (rule that[of d2])
    show "persist_create h gid own req cfg now w = w\<lparr>wd_db := d2\<rparr>"
      by (simp add: persist_create_def storesD[OF h] lid(1) best_effort_def on_db_def pgGameStore_def pgPlayerStore_def d1_def d2_def Let_def)
    show "pg_cat d2 = pg_cat (wd_db w)" by (simp add: pg_cat_def r1(2) r2(2) tables_ok_games)
  qed (use r1(2) r2(2) in simp_all)
qed


definition ex_create :: createGameRequest where
  "ex_create = \<lparr>cg_OwnerName = ''Eve'', cg_QuestionListID = ''L'', cg_InitialLives = Some 2, cg_AnswerTimeoutSeconds = None\<rparr>"


end
