(* ===== verification/Origins.thy ===== *)
theory Origins
  imports Auth
begin

text \<open>
  Browser origins: \<open>internal/app/cors.go\<close> and the check of WebSocket handshakes (\<open>newUpgrader\<close> in
  \<open>internal/handler/game.go\<close>). Both take the list that \<open>parseOrigins\<close> makes of the configuration. A
  response has its headers as an association list; \<open>Add\<close> appends, \<open>Set\<close> replaces.
\<close>

record web_request = http_request +
  rq_method :: string

type_synonym headers = "(string \<times> string) list"

definition header_Add :: "string \<Rightarrow> string \<Rightarrow> headers \<Rightarrow> headers" where
  "header_Add k v hs = hs @ [(k, v)]"

definition header_Set :: "string \<Rightarrow> string \<Rightarrow> headers \<Rightarrow> headers" where
  "header_Set k v hs = filter (\<lambda>kv. fst kv \<noteq> k) hs @ [(k, v)]"

text \<open>A handler adds headers to those that are there, and answers.\<close>

type_synonym 'w web_handler = "web_request \<Rightarrow> headers \<Rightarrow> 'w \<Rightarrow> 'w \<times> headers \<times> response"

definition cors_headers :: "string \<Rightarrow> headers \<Rightarrow> headers" where
  "cors_headers origin hs = header_Set ''Access-Control-Allow-Credentials'' ''true''
     (header_Set ''Access-Control-Allow-Origin'' origin (header_Add ''Vary'' ''Origin'' hs))"

definition preflight_headers :: "headers \<Rightarrow> headers" where
  "preflight_headers hs = header_Set ''Access-Control-Max-Age'' ''600''
     (header_Set ''Access-Control-Allow-Headers'' ''Content-Type, X-Debug-Actor-Type, X-Debug-Actor-Id''
     (header_Set ''Access-Control-Allow-Methods'' ''GET, POST, PUT, DELETE, OPTIONS'' hs))"

definition corsMiddleware :: "string list \<Rightarrow> 'w web_handler \<Rightarrow> 'w web_handler" where
  "corsMiddleware allowed next r hs w =
     (if allowed = [] then next r hs w
      else let origin = param (rq_headers r) ''Origin'' in
        if origin = '''' \<or> origin \<notin> set allowed then next r hs w
        else let hs' = cors_headers origin hs in
          if rq_method r = ''OPTIONS'' \<and> param (rq_headers r) ''Access-Control-Request-Method'' \<noteq> ''''
          then (w, preflight_headers hs', noContent)
          else next r hs' w)"

text \<open>The loop of \<open>parseOrigins\<close>.\<close>

fun kept_origins :: "string list \<Rightarrow> string list" where
  "kept_origins [] = []"
| "kept_origins (o1 # os) = (let o2 = TrimRight (TrimSpace o1) CHR ''/'' in
     if o2 \<noteq> '''' then o2 # kept_origins os else kept_origins os)"

definition parseOrigins :: "string \<Rightarrow> string list" where
  "parseOrigins s = kept_origins (Split s CHR '','')"

text \<open>The upgrader of the game handler: \<open>newUpgrader\<close>, after \<open>RestrictOrigins\<close> if there are origins.\<close>

definition CheckOrigin :: "string list \<Rightarrow> http_request \<Rightarrow> bool" where
  "CheckOrigin allowed r = (let origin = param (rq_headers r) ''Origin'' in
     allowed = [] \<or> origin = '''' \<or> origin \<in> set allowed)"

section \<open>Lemmas\<close>

lemma last_TrimRight: "TrimRight s c \<noteq> [] \<Longrightarrow> last (TrimRight s c) \<noteq> c"
  unfolding TrimRight_def by (metis (full_types) hd_dropWhile last_rev rev_is_Nil_conv)

lemma TrimRight_prefix: "\<exists>n. s = TrimRight s c @ replicate n c"
proof -
  have "takeWhile (\<lambda>x. x = c) (rev s) = replicate (length (takeWhile (\<lambda>x. x = c) (rev s))) c"
    by (rule replicate_eqI[symmetric, OF refl, symmetric]) (auto dest: set_takeWhileD)
  then have "s = rev (dropWhile (\<lambda>x. x = c) (rev s)) @ rev (replicate (length (takeWhile (\<lambda>x. x = c) (rev s))) c)"
    by (metis rev_append rev_rev_ident takeWhile_dropWhile_id)
  then show ?thesis unfolding TrimRight_def by (metis rev_replicate)
qed

lemma kept_origins_iff: "x \<in> set (kept_origins os) \<longleftrightarrow> x \<noteq> '''' \<and> (\<exists>e \<in> set os. x = TrimRight (TrimSpace e) CHR ''/'')"
  by (induction os) (auto simp: Let_def)

lemma param_header [simp]:
  "param (header_Set k v hs) k' = (if k = k' then v else param hs k')"
  "param (header_Add k v hs) k' = (if k = k' \<and> map_of hs k = None then v else param hs k')"
proof -
  have "map_of (filter (\<lambda>kv. fst kv \<noteq> k) hs) k' = (if k = k' then None else map_of hs k')"
    by (induction hs) auto
  then show "param (header_Set k v hs) k' = (if k = k' then v else param hs k')"
    by (auto simp: param_def header_Set_def map_add_def split: option.splits)
  show "param (header_Add k v hs) k' = (if k = k' \<and> map_of hs k = None then v else param hs k')"
    by (auto simp: param_def header_Add_def map_add_def split: option.splits)
qed

lemma cors_origin [simp]:
  "param (cors_headers origin hs) ''Access-Control-Allow-Origin'' = origin"
  "param (preflight_headers hs) ''Access-Control-Allow-Origin'' = param hs ''Access-Control-Allow-Origin''"
  by (simp_all add: cors_headers_def preflight_headers_def)

section \<open>The policy\<close>

text \<open>
  C35: one origin policy. If the API sets no \<open>Access-Control-Allow-Origin\<close> itself, a response carries
  it exactly for a request whose origin is one of the configured ones, and then with that origin; the
  WebSocket handshake of a browser is accepted exactly then, or if no origin is configured; a preflight
  of such an origin is answered without running the API. A configured origin is an entry of the list
  without spaces around it and without trailing slashes, and never empty.
\<close>

theorem origin_policy:
  assumes "\<And>r hs w. param (fst (snd (next r hs w))) ''Access-Control-Allow-Origin'' = param hs ''Access-Control-Allow-Origin''"
    and "corsMiddleware (parseOrigins conf) next r [] w = (w', hs, resp)"
    and "origin = param (rq_headers r) ''Origin''"
  shows "param hs ''Access-Control-Allow-Origin'' = (if origin \<in> set (parseOrigins conf) then origin else '''') \<and>
    (origin \<noteq> '''' \<longrightarrow> CheckOrigin (parseOrigins conf) (http_request.truncate r) =
       (parseOrigins conf = [] \<or> param hs ''Access-Control-Allow-Origin'' = origin)) \<and>
    (origin \<in> set (parseOrigins conf) \<and> rq_method r = ''OPTIONS'' \<and>
       param (rq_headers r) ''Access-Control-Request-Method'' \<noteq> '''' \<longrightarrow> w' = w \<and> resp = noContent) \<and>
    (\<forall>x \<in> set (parseOrigins conf). x \<noteq> '''' \<and> last x \<noteq> CHR ''/'' \<and>
       (\<exists>e \<in> set (Split conf CHR '',''). \<exists>n. TrimSpace e = x @ replicate n CHR ''/''))"
proof -
  let ?os = "parseOrigins conf"
  have nonempty: "x \<noteq> ''''" if "x \<in> set ?os" for x using that by (simp add: parseOrigins_def kept_origins_iff)
  have entries: "last x \<noteq> CHR ''/'' \<and> (\<exists>e \<in> set (Split conf CHR '',''). \<exists>n. TrimSpace e = x @ replicate n CHR ''/'')"
    if "x \<in> set ?os" for x
    using that last_TrimRight TrimRight_prefix unfolding parseOrigins_def kept_origins_iff by blast
  have keeps: "param hs ''Access-Control-Allow-Origin'' = param hs0 ''Access-Control-Allow-Origin''"
    if "next r hs0 w = (w', hs, resp)" for hs0
    using assms(1)[of r hs0 w] that by simp
  have origin: "param hs ''Access-Control-Allow-Origin'' = (if origin \<in> set ?os then origin else '''')"
  proof (cases "origin \<in> set ?os")
    case True
    then consider "next r (cors_headers origin []) w = (w', hs, resp)" | "hs = preflight_headers (cors_headers origin [])"
      using assms(2) nonempty[OF True] by (auto simp: corsMiddleware_def assms(3) Let_def split: if_splits)
    then show ?thesis using keeps True by cases simp_all
  next
    case False
    then have "next r [] w = (w', hs, resp)" using assms(2) by (auto simp: corsMiddleware_def assms(3) Let_def split: if_splits)
    then show ?thesis using keeps False by (simp add: param_def)
  qed
  have preflight: "w' = w \<and> resp = noContent"
    if "origin \<in> set ?os" "rq_method r = ''OPTIONS''" "param (rq_headers r) ''Access-Control-Request-Method'' \<noteq> ''''"
    using that assms(2,3) nonempty by (auto simp: corsMiddleware_def Let_def split: if_splits)
  have check: "CheckOrigin ?os (http_request.truncate r) = (?os = [] \<or> param hs ''Access-Control-Allow-Origin'' = origin)"
    if "origin \<noteq> ''''"
    using that assms(3) origin by (simp add: CheckOrigin_def http_request.truncate_def)
  show ?thesis using nonempty entries origin preflight check by blast
qed

definition ex_browser :: "string \<Rightarrow> web_request" where
  "ex_browser origin = \<lparr>rq_headers = [(''Origin'', origin)], rq_query = [], rq_cookies = [], rq_now = 0, rq_method = ''GET''\<rparr>"

theorem origin_policy_witness:
  "param (cors_headers ''https://a'' []) ''Access-Control-Allow-Origin'' = ''https://a'' \<and>
   CheckOrigin [''https://a'', ''https://b''] (http_request.truncate (ex_browser ''https://a''))"
proof -
  let ?next = "\<lambda>r hs w. (w, hs, noContent)" and ?r = "ex_browser ''https://a''"
  have "strip_one space_encodings ''https://a/'' = None" "strip_one (map rev space_encodings) (rev ''https://a/'') = None"
    "strip_one space_encodings ''https://b'' = None" "strip_one (map rev space_encodings) (rev ''https://b'') = None"
    by (simp_all add: space_encodings_def) (simp_all add: char_of_eq_iff eq_commute[of _ "char_of _"])
  note trims = this[THEN strip_front_id]
  have os: "parseOrigins ''https://a/,https://b'' = [''https://a'', ''https://b'']"
    using trims by (simp add: parseOrigins_def Let_def TrimSpace_def TrimRight_def)
  have "corsMiddleware [''https://a'', ''https://b''] ?next ?r [] () = ((), cors_headers ''https://a'' [], noContent)"
    by (simp add: corsMiddleware_def ex_browser_def param_def Let_def)
  then show ?thesis
    using origin_policy[of ?next "''https://a/,https://b''" ?r "()" "()" "cors_headers ''https://a'' []" noContent "''https://a''",
        THEN conjunct2, THEN conjunct1]
    by (simp add: os) (simp add: ex_browser_def param_def)
qed

end
