(* ===== verification/Ws_Handler.thy ===== *)
theory Ws_Handler
  imports Ws_Cluster Game_Requests Origins
begin

text \<open>
  The WebSocket handler of \<open>internal/handler/game.go\<close>: opening a connection, the messages of its client,
  and its end. It runs on one instance, over the instance's sessions (\<open>Game_Sessions\<close>) and Redis.
  \<open>open_socket\<close> is the handler up to the pumps, with the deferred calls of every early return;
  \<open>close_socket\<close> what it does when \<open>ReadPump\<close> returns; \<open>client_message\<close> the function that \<open>ReadPump\<close>
  calls for each message. A client is an address \<open>c\<close> of the hub's heap.

  The upgrade is the library's: it refuses a request whose origin the upgrader rejects (\<open>CheckOrigin\<close>),
  and may fail otherwise (\<open>upgraded\<close>). \<open>msgErr\<close> is the text of a storage error.
\<close>

datatype socket_result = Refused response | NotUpgraded | Superseded | Panicked | Connected

type_synonym ('m, 'n) instance_state = "('m, 'n) gameSessionStore \<times> 'n rstate"

record ('m, 'n) SocketHandler =
  sk_manager :: "'n rstate StateStore"
  sk_origins :: "string list"
  sk_marshal :: "event option \<Rightarrow> 'm option"

section \<open>Opening\<close>

definition socket_state :: "('m, 'n) SocketHandler \<Rightarrow> string \<Rightarrow> 'n rstate \<Rightarrow> 'n rstate \<times> (game_error + State)" where
  "socket_state h gameID st = and_then (Manager_Get (sk_manager h) gameID st) (\<lambda>st eng. Engine_State (sk_manager h) eng st)"

text \<open>The event \<open>game_joined\<close>, for a player of the game.\<close>

definition joined_event :: "State \<Rightarrow> string \<Rightarrow> string \<Rightarrow> player \<Rightarrow> event" where
  "joined_event s gameID playerID me = EventGameJoined gameID playerID (playerID = s_OwnerID s) (p_Lives me) (p_Active me)
     (s_Status s) (s_QuestionListID s) (s_TotalQuestions s) (CurrentQuestion s)"

text \<open>\<open>hub.Register\<close> of a new client, on the hub that \<open>Acquire\<close> returned.\<close>

definition register_client :: "string \<Rightarrow> string \<Rightarrow> int \<Rightarrow> conn_id \<Rightarrow> ('m, 'n) gameSessionStore \<Rightarrow> ('m, 'n) gameSessionStore \<times> bool" where
  "register_client gameID playerID seq c A = (case fmlookup (sst_sessions A) gameID of
       None \<Rightarrow> (A, False)
     | Some sess \<Rightarrow> (let (w, ok) = Hub_Register playerID c (alloc c (NewClient playerID gameID seq) (ses_hub sess))
                     in (put_session gameID (sess\<lparr>ses_hub := w\<rparr>) A, ok)))"

definition close_socket :: "string \<Rightarrow> string \<Rightarrow> conn_id \<Rightarrow> ('m, 'n) gameSessionStore \<Rightarrow> ('m, 'n) gameSessionStore" where
  "close_socket gameID playerID c A = Release gameID (on_hub gameID (Hub_Unregister playerID c) A)"

text \<open>From the registration on: the state is loaded again, and kept as it was if that fails.\<close>

definition greet :: "('m, 'n) SocketHandler \<Rightarrow> string \<Rightarrow> string \<Rightarrow> int \<Rightarrow> conn_id \<Rightarrow> State \<Rightarrow> ('m, 'n) gameSessionStore \<Rightarrow> 'n rstate
    \<Rightarrow> ('m, 'n) instance_state \<times> socket_result" where
  "greet h gameID playerID seq c s A st = (let (A1, ok) = register_client gameID playerID seq c A in
     if \<not> ok then ((Release gameID A1, st), Superseded)
     else let (st1, r) = socket_state h gameID st; s1 = (case r of Inl e \<Rightarrow> s | Inr fresh \<Rightarrow> fresh) in
       case fmlookup (s_Players s1) playerID of
         None \<Rightarrow> ((close_socket gameID playerID c A1, st1), Panicked)
       | Some me \<Rightarrow> ((on_hub gameID (Hub_BroadcastTo (sk_marshal h) playerID (Some (joined_event s1 gameID playerID me))) A1, st1), Connected))"

definition open_socket :: "('m, 'n) SocketHandler \<Rightarrow> ctx \<Rightarrow> http_request \<Rightarrow> bool \<Rightarrow> conn_id \<Rightarrow> ('m, 'n) gameSessionStore \<Rightarrow> 'n rstate
    \<Rightarrow> ('m, 'n) instance_state \<times> socket_result" where
  "open_socket h cx rq upgraded c A st = (let
       a = extractActor (cx_Actor cx);
       gameID = param (rq_query rq) ''gameId'';
       playerID = param (rq_query rq) ''playerId'';
       unavailable = Refused (writeError 503 ''event stream unavailable'')
     in if gameID = '''' \<or> playerID = '''' then ((A, st), Refused (writeError 400 ''gameId and playerId are required''))
     else (case socket_state h gameID st of
         (st1, Inl e) \<Rightarrow> ((A, st1), Refused (writeEngineError e))
       | (st1, Inr s) \<Rightarrow> (case PlayerActorID s playerID of
             None \<Rightarrow> ((A, st1), Refused (writeError 403 ''player not in game''))
           | Some actorID \<Rightarrow>
               if actorID \<noteq> da_ID a then ((A, st1), Refused (writeError 403 ''player belongs to another actor''))
               else (case Acquire gameID A st1 of
                   (A1, st2, Inl e) \<Rightarrow> ((A1, st2), unavailable)
                 | (A1, st2, Inr u) \<Rightarrow> (case Sessions_ClaimConnection A1 gameID playerID st2 of
                       (st3, Inl e) \<Rightarrow> ((Release gameID A1, st3), unavailable)
                     | (st3, Inr seq) \<Rightarrow>
                         if \<not> CheckOrigin (sk_origins h) rq \<or> \<not> upgraded then ((Release gameID A1, st3), NotUpgraded)
                         else greet h gameID playerID seq c s A1 st3)))))"

section \<open>Messages\<close>

definition answerRejectCode :: "game_error \<Rightarrow> string" where
  "answerRejectCode err = (case err of
       ErrNoActiveQuestion \<Rightarrow> ''no_active_question''
     | ErrWrongQuestion \<Rightarrow> ''wrong_question''
     | ErrAlreadyAnswered \<Rightarrow> ''already_answered''
     | ErrInvalidOption \<Rightarrow> ''invalid_option''
     | ErrPlayerEliminated \<Rightarrow> ''player_eliminated''
     | ErrGameNotRunning \<Rightarrow> ''game_not_running''
     | _ \<Rightarrow> ''rejected'')"

definition rejectAnswer :: "('m, 'n) SocketHandler \<Rightarrow> string \<Rightarrow> string \<Rightarrow> SubmitAnswerData \<Rightarrow> string \<Rightarrow> string
    \<Rightarrow> ('m, 'n) gameSessionStore \<Rightarrow> ('m, 'n) gameSessionStore" where
  "rejectAnswer h gameID playerID data code msg A = on_hub gameID (Hub_BroadcastTo (sk_marshal h) playerID
     (Some (EventAnswerRejected (sa_QuestionID data) (sa_OptionID data) code msg))) A"

text \<open>\<open>im_Data\<close> is what decoding has filled of the data, and whether it succeeded.\<close>

definition client_message :: "('m, 'n) SocketHandler \<Rightarrow> string \<Rightarrow> string \<Rightarrow> string \<Rightarrow> IncomingMessage \<Rightarrow> ('m, 'n) gameSessionStore \<Rightarrow> 'n rstate
    \<Rightarrow> ('m, 'n) instance_state" where
  "client_message h msgErr gameID playerID msg A st = (case Manager_Get (sk_manager h) gameID st of
       (st1, Inl e) \<Rightarrow> (A, st1)
     | (st1, Inr eng) \<Rightarrow>
         if im_Type msg = ''submit_answer'' then
           (let (data, decoded) = im_Data msg in
            if \<not> decoded then (rejectAnswer h gameID playerID data ''invalid_message'' ''invalid submit_answer payload'' A, st1)
            else (case SubmitAnswer (sk_manager h) eng playerID (sa_QuestionID data) (sa_OptionID data) st1 of
                (st2, effs, Inl e) \<Rightarrow> (rejectAnswer h gameID playerID data (answerRejectCode e) (error_text msgErr e) A, st2)
              | (st2, effs, Inr u) \<Rightarrow> (A, fold (publish_effect (Sessions_Broadcaster A gameID)) effs st2)))
         else (A, st1))"

section \<open>References\<close>

lemma acquire_counted:
  assumes "counted A held" and "Acquire gid A st = (A', st', r)"
  shows "counted A' (if isl r then held else held(gid := held gid + 1))"
  using step_counted[OF assms(1), of undefined "OpAcquire gid" st A' st' "if isl r then held else held(gid := held gid + 1)"] assms(2)
  by (cases r) auto

lemma release_counted:
  assumes "counted A (held(gid := held gid + 1))"
  shows "counted (Release gid A) held"
  using step_counted[OF assms, of undefined "OpRelease gid" undefined "Release gid A" undefined held] by simp

lemma on_hub_counted: "counted A held \<Longrightarrow> counted (on_hub gid f A) held"
  by (auto simp: on_hub_def intro: counted_keep split: option.splits)

lemma register_counted: "counted A held \<Longrightarrow> counted (fst (register_client gid pid seq c A)) held"
  by (auto simp: register_client_def Let_def intro: counted_keep split: option.splits prod.splits)

lemma close_counted: "counted A (held(gid := held gid + 1)) \<Longrightarrow> counted (close_socket gid pid c A) held"
  unfolding close_socket_def by (rule release_counted) (rule on_hub_counted)

text \<open>The client of a player on this instance.\<close>

definition client_of :: "('m, 'n) gameSessionStore \<Rightarrow> string \<Rightarrow> string \<Rightarrow> conn_id option" where
  "client_of A gid pid = (case fmlookup (sst_sessions A) gid of
     None \<Rightarrow> None | Some sess \<Rightarrow> fmlookup (hb_clients (hs_hub (ses_hub sess))) pid)"

lemma hub_after_closing [simp]: "hs_hub (fold hub_close cs w) = hs_hub w"
  by (induction cs arbitrary: w) (simp_all add: hub_close_def)

lemma registered_client:
  assumes "register_client gid pid seq c A = (A', True)"
  shows "client_of A' gid pid = Some c"
  using assms
  by (auto simp: register_client_def client_of_def Hub_Register_def Register_cs_def Let_def split: option.splits prod.splits if_splits)

lemma client_of_broadcast [simp]: "client_of (on_hub gid (Hub_BroadcastTo m pid' e) A) gid pid = client_of A gid pid"
  by (auto simp: client_of_def on_hub_def Hub_BroadcastTo_def send_to_def split: option.splits)

lemma greet_counted:
  assumes "counted A (held(gid := held gid + 1))" and "greet h gid pid seq c s A st = ((A', st'), res)"
  shows "counted A' (if res = Connected then held(gid := held gid + 1) else held)"
    and "res = Connected \<Longrightarrow> client_of A' gid pid = Some c"
proof -
  obtain A1 ok where r: "register_client gid pid seq c A = (A1, ok)" by fastforce
  have c1: "counted A1 (held(gid := held gid + 1))" using register_counted[OF assms(1), of gid pid seq c] r by simp
  have "counted A' (if res = Connected then held(gid := held gid + 1) else held) \<and> (res = Connected \<longrightarrow> client_of A' gid pid = Some c)"
  proof (cases ok)
    case False
    then show ?thesis using assms(2) r release_counted[OF c1] by (auto simp: greet_def)
  next
    case True
    then show ?thesis
      using assms(2) r c1 close_counted[OF c1] on_hub_counted[OF c1] registered_client[of gid pid seq c A A1]
      by (auto simp: greet_def Let_def split: prod.splits option.splits)
  qed
  then show "counted A' (if res = Connected then held(gid := held gid + 1) else held)"
    and "res = Connected \<Longrightarrow> client_of A' gid pid = Some c" by blast+
qed

section \<open>On Redis\<close>

text \<open>The generations of a game's connections are no part of the games.\<close>

lemma connections_key_neq [simp]:
  "metaKey h \<noteq> connectionsKey g" "questionsKey h \<noteq> connectionsKey g" "playersKey h \<noteq> connectionsKey g"
  "answersKey h i \<noteq> connectionsKey g" "lockKey h \<noteq> connectionsKey g" "actorGamesKey a \<noteq> connectionsKey g"
  "deadlinesKey \<noteq> connectionsKey g"
proof -
  have l: "last (connectionsKey g) = CHR ''s''" "last (butlast (connectionsKey g)) = CHR ''n''"
    "last (butlast (butlast (connectionsKey g))) = CHR ''n''"
    by (simp_all add: connectionsKey_def butlast_append)
  have "last (butlast (butlast (questionsKey h))) = CHR ''o''" "last (butlast (playersKey h)) = CHR ''r''"
    by (simp_all add: questionsKey_def playersKey_def butlast_append)
  then show "questionsKey h \<noteq> connectionsKey g" "playersKey h \<noteq> connectionsKey g" using l by fastforce+
  show "metaKey h \<noteq> connectionsKey g" "lockKey h \<noteq> connectionsKey g" using l(1) last_keys(1,4)[of h] by fastforce+
  show "answersKey h i \<noteq> connectionsKey g" using l(1) last_keys(5)[of h i] char_digit_letters by metis
qed (simp_all add: connectionsKey_def actorGamesKey_def deadlinesKey_def)

lemma connections_frame:
  assumes "db_ok db"
  shows "db_ok (put (connectionsKey g) (RHash h) db)" "db_view (put (connectionsKey g) (RHash h) db) = db_view db"
    "db_ok (del (connectionsKey g) db)" "db_view (del (connectionsKey g) db) = db_view db"
  using assms by (simp_all add: db_ok_def db_typed_def game_ok_def db_view_def fun_eq_iff)

text \<open>An instance whose sessions use the server and the connection of the games.\<close>

definition on_redis :: "'n GameStateStore \<Rightarrow> ('m, 'n) gameSessionStore \<Rightarrow> bool" where
  "on_redis R A \<longleftrightarrow> pb_exec (sst_pub A) = gs_exec R \<and> pb_conn (sst_pub A) = gs_conn R \<and> 0 < sst_claimTTL A"

text \<open>The next generation of a player can be drawn, and the instance's hub knows none later.\<close>

definition next_is_newest :: "redis_db \<Rightarrow> ('m, 'n) gameSessionStore \<Rightarrow> string \<Rightarrow> string \<Rightarrow> bool" where
  "next_is_newest db A gid pid \<longleftrightarrow> counters_ok db gid \<and> counter db gid pid < int64_max \<and>
     (\<forall>sess. fmlookup (sst_sessions A) gid = Some sess \<longrightarrow> latest_of (hs_hub (ses_hub sess)) pid \<le> counter db gid pid)"

context redis_store
begin

lemma socket_state_reads:
  assumes h: "sk_manager h = gameStateStore R" and ok: "db_ok (rs_db st)" and load: "socket_state h gid st = (st1, r)"
  shows "rs_db st1 = rs_db st" and "up (rs_net st) \<Longrightarrow> up (rs_net st1) \<and> r = load_view (db_view (rs_db st) gid)"
proof -
  obtain st0 b where e: "Store_Exists R gid st = (st0, b)" by fastforce
  note E = Exists_reads[OF ok e]
  obtain st2 s where l: "Store_Load R gid st0 = (st2, s)" by fastforce
  have ok0: "db_ok (rs_db st0)" using E ok by simp
  note L = Load_reads[OF ok0 l]
  have run: "(st1, r) = (case b of Inl e \<Rightarrow> (st0, Inl e) | Inr ok \<Rightarrow> if ok then (st2, s) else (st0, Inl ErrGameNotFound))"
    using load e l by (auto simp: socket_state_def Manager_Get_def Engine_State_def h gameStateStore_def split: sum.splits if_splits)
  show "rs_db st1 = rs_db st" using run E L by (auto split: sum.splits if_splits)
  show "up (rs_net st1) \<and> r = load_view (db_view (rs_db st) gid)" if u: "up (rs_net st)"
  proof -
    have b: "b = Inr (db_view (rs_db st) gid \<noteq> None)" and u0: "up (rs_net st0)" using E u by (auto simp: call_ok_def)
    have "s = load_view (db_view (rs_db st) gid)" and "up (rs_net st2)" using E L u0 by (auto simp: call_ok_def)
    then show ?thesis using run b u0 by (cases "db_view (rs_db st) gid") auto
  qed
qed

lemma claim_up:
  assumes A: "on_redis R A" and ok: "db_ok (rs_db st)" and u: "up (rs_net st)"
    and c: "counters_ok (rs_db st) gid" "counter (rs_db st) gid pid < int64_max"
  obtains st' where "Sessions_ClaimConnection A gid pid st = (st', Inr (counter (rs_db st) gid pid + 1))"
    and "up (rs_net st')" and "db_ok (rs_db st')" and "db_view (rs_db st') = db_view (rs_db st)"
proof -
  let ?k = "connectionsKey gid" and ?i = "counter (rs_db st) gid pid" and ?t = "now_ms R st" and ?P = "sst_pub A"
  let ?db = "put ?k (RHash (fmupd pid (FText (itoa (?i + 1))) (hash (rs_db st) ?k))) (rs_db st)"
  have P: "pb_exec ?P = gs_exec R" "pb_conn ?P = gs_conn R" "0 < sst_claimTTL A" using A by (simp_all add: on_redis_def)
  have inc: "gs_exec R (HINCRBY ?k pid 1) ?t (rs_db st) = (?db, RInt (?i + 1))"
    using hincrby[where db = "rs_db st" and k = ?k and f = pid and i = ?i and n = 1 and t = ?t] counter_field[OF c(1), of pid]
      counter_max[OF c(1), of pid] counter_nonneg[OF c(1), of pid] c
    by (simp add: counters_ok_def int64_min_def)
  obtain n where ex: "gs_exec R (EXPIRE ?k (sst_claimTTL A)) ?t ?db = (set_expiry ?k (?t + whole_seconds (sst_claimTTL A)) ?db, RInt n)"
    using expire[OF P(3)] by blast
  obtain st1 a where p: "pipelined (gs_exec R) (gs_conn R) [HINCRBY ?k pid 1, EXPIRE ?k (sst_claimTTL A)] st = (st1, a)" by fastforce
  have "requested up st st1 (set_expiry ?k (?t + whole_seconds (sst_claimTTL A)) ?db) [RInt (?i + 1), RInt n] a"
    using pipelined_requested[OF p] inc ex by (simp add: reply_error_def)
  then have 1: "a = Inr [RInt (?i + 1), RInt n]" "up (rs_net st1)" "rkeys (rs_db st1) = rkeys ?db"
    using u by (auto simp: requested_def)
  obtain m where pu: "gs_exec R (PUBLISH (channel gid) (claim_msg pid (?i + 1))) (now_ms R st1) (rs_db st1) =
      (publish_log (channel gid) (claim_msg pid (?i + 1)) (rs_db st1), RInt m)"
    using publish by blast
  obtain st2 b where q: "request (gs_conn R) (gs_exec R (PUBLISH (channel gid) (claim_msg pid (?i + 1)))) st1 = (st2, b)" by fastforce
  have 2: "b = Inr (RInt m)" "up (rs_net st2)" "rkeys (rs_db st2) = rkeys (rs_db st1)"
    using request_requested[OF q pu] 1(2) by (auto simp: requested_def)
  have "Sessions_ClaimConnection A gid pid st = (st2, Inr (?i + 1))"
    using p q 1(1) 2(1)
    by (simp add: Sessions_ClaimConnection_def Publisher_ClaimConnection_def next_generation_def publish_msg_def P reply_error_def)
  moreover have "db_ok (rs_db st2)" "db_view (rs_db st2) = db_view (rs_db st)"
    using db_cong[OF 2(3)] db_cong[OF 1(3)] connections_frame[OF ok] by simp_all
  ultimately show thesis using 2(2) by (intro that)
qed

lemma acquire_up:
  assumes A: "on_redis R A" and u: "up (rs_net st)" and new: "next_is_newest (rs_db st) A gid pid"
  obtains A' st' sess where "Acquire gid A st = (A', st', Inr ())" and "up (rs_net st')" and "rs_db st' = rs_db st"
    and "on_redis R A'" and "fmlookup (sst_sessions A') gid = Some sess"
    and "latest_of (hs_hub (ses_hub sess)) pid \<le> counter (rs_db st) gid pid"
proof (cases "fmlookup (sst_sessions A) gid")
  case (Some sess)
  then show thesis
    using A u new
    by (intro that[of "put_session gid (sess\<lparr>ses_refs := ses_refs sess + 1\<rparr>) A" st "sess\<lparr>ses_refs := ses_refs sess + 1\<rparr>"])
      (auto simp: Acquire_def put_session_def on_redis_def next_is_newest_def)
next
  case None
  obtain st1 r where q: "Subscribe (sst_pub A) gid st = (st1, r)" by fastforce
  have "request (gs_conn R) (\<lambda>t db. (db, length (rlog db (channel gid)))) st = (st1, r)"
    using q A by (simp add: Subscribe_def on_redis_def)
  then have "requested up st st1 (rs_db st) (length (rlog (rs_db st) (channel gid))) r"
    by (rule request_requested) simp
  then have r: "r = Inr (length (rlog (rs_db st) (channel gid)))" "up (rs_net st1)" "rs_db st1 = rs_db st"
    using u by (auto simp: requested_def)
  have "0 \<le> counter (rs_db st) gid pid" using new counter_nonneg by (simp add: next_is_newest_def)
  then show thesis
    using None q r A
    by (intro that[of "put_session gid (new_session (length (rlog (rs_db st) (channel gid)))) A" st1
        "new_session (length (rlog (rs_db st) (channel gid)))"]) (auto simp: Acquire_def put_session_def on_redis_def new_session_def new_hub_state_def NewHub_def latest_of_def)
qed

text \<open>The way to a connection, when nothing is in its way.\<close>

lemma open_socket_connects:
  assumes h: "sk_manager h = gameStateStore R" and ok: "db_ok (rs_db st)" and u: "up (rs_net st)" and A: "on_redis R A"
    and rq: "param (rq_query rq) ''gameId'' = gid" "param (rq_query rq) ''playerId'' = pid" "gid \<noteq> ''''" "pid \<noteq> ''''"
      "CheckOrigin (sk_origins h) rq"
    and new: "next_is_newest (rs_db st) A gid pid" and g: "db_view (rs_db st) gid = Some g"
    and p: "fmlookup (s_Players (ag_State g)) pid = Some p" "p_ActorID p = actor_id cx"
  shows "snd (open_socket h cx rq True c A st) = Connected"
proof -
  obtain st1 r where load: "socket_state h gid st = (st1, r)" by fastforce
  note S1 = socket_state_reads[OF h ok load]
  have "loaded g \<noteq> Inl ErrStorage" using games.View[of st gid g] ok g by simp
  then obtain s where s: "loaded g = Inr s" by (auto simp: loaded_def Let_def split: if_splits option.splits)
  have r: "r = Inr s" "up (rs_net st1)" "rs_db st1 = rs_db st" using S1 u g s by auto
  have pid: "fmlookup (s_Players s) pid = Some p" using p(1) loaded_fields(10)[OF s] by simp
  obtain A1 st2 sess where 2: "Acquire gid A st1 = (A1, st2, Inr ())" "up (rs_net st2)" "rs_db st2 = rs_db st1" "on_redis R A1"
    "fmlookup (sst_sessions A1) gid = Some sess" "latest_of (hs_hub (ses_hub sess)) pid \<le> counter (rs_db st1) gid pid"
    by (rule acquire_up[OF A r(2), of gid pid]) (simp_all add: r(3) new)
  have db2: "rs_db st2 = rs_db st" using 2(3) r(3) by simp
  let ?seq = "counter (rs_db st) gid pid + 1"
  obtain st3 where 3: "Sessions_ClaimConnection A1 gid pid st2 = (st3, Inr ?seq)" "up (rs_net st3)" "db_ok (rs_db st3)"
    "db_view (rs_db st3) = db_view (rs_db st)"
    by (rule claim_up[OF 2(4) _ 2(2), of gid pid]) (use ok new in \<open>simp_all add: db2 next_is_newest_def\<close>)
  obtain w' k where reg: "Hub_Register pid c (alloc c (NewClient pid gid ?seq) (ses_hub sess)) = (w', k)" by fastforce
  have k: "k" using register_effect[OF reg] 2(6) r(3) by simp
  obtain st4 q where load': "socket_state h gid st3 = (st4, q)" by fastforce
  have q: "q = Inr s" using socket_state_reads(2)[OF h 3(3) load' 3(2)] 3(4) g s by simp
  have "snd (greet h gid pid ?seq c s A1 st3) = Connected"
    using 2(5) reg k load' q pid by (simp add: greet_def register_client_def)
  then show ?thesis
    using load r(1) 2(1) 3(1) rq pid p(2) by (simp add: open_socket_def PlayerActorID_def actor_id_def)
qed

end

section \<open>Who is connected\<close>

text \<open>The state that the handler reads is the stored one.\<close>

lemma socket_state_stored:
  assumes "redis_store R up" and h: "sk_manager h = gameStateStore R" and "db_ok (rs_db st)"
    and load: "socket_state h gid st = (st1, Inr s)"
  obtains g where "db_view (rs_db st) gid = Some g" and "loaded g = Inr s"
proof -
  have S: "state_store (gameStateStore R) (observer up)" using redis_store.is_state_store[OF assms(1)] .
  have inv: "ob_inv (observer up) st" using assms(3) by simp
  obtain st0 q where get: "Manager_Get (gameStateStore R) gid st = (st0, q)" by fastforce
  then have q: "q = Inr gid" "Engine_State (gameStateStore R) gid st0 = (st1, Inr s)"
    using load state_store.Manager_Get_steady(3)[OF S inv get]
    by (cases q; simp add: socket_state_def h)+
  note s0 = state_store.Manager_Get_steady(1)[OF S inv get]
  have "load_view (ob_view (observer up) st gid) = Inr s"
    using state_store.Engine_State_steady(2)[OF S steady_inv[OF s0] q(2)] steady_view[OF s0] by simp
  then show thesis by (rule state_store.load_view_InrD[OF S inv]) (simp add: that)
qed

text \<open>The ways through the handler: what was checked of a client that is connected, and the references.\<close>

lemma open_socket_outcome:
  assumes A: "counted A held" and run: "open_socket h cx rq upgraded c A st = ((A', st'), res)"
  defines "gid \<equiv> param (rq_query rq) ''gameId''" and "pid \<equiv> param (rq_query rq) ''playerId''"
  shows "counted A' (if res = Connected then held(gid := held gid + 1) else held) \<and>
    (res = Connected \<longrightarrow> client_of A' gid pid = Some c \<and> CheckOrigin (sk_origins h) rq \<and>
      (\<exists>st1 s. socket_state h gid st = (st1, Inr s) \<and> PlayerActorID s pid = Some (actor_id cx)))"
proof -
  obtain st1 r where load: "socket_state h gid st = (st1, r)" by fastforce
  note run = run[unfolded open_socket_def Let_def gid_def[symmetric] pid_def[symmetric] load]
  show ?thesis
  proof (cases "gid = '''' \<or> pid = '''' \<or> isl r \<or> PlayerActorID (projr r) pid \<noteq> Some (actor_id cx)")
    case True
    then show ?thesis using run A by (cases r) (auto simp: actor_id_def split: if_splits option.splits)
  next
    case False
    then obtain s where r: "r = Inr s" "gid \<noteq> ''''" "pid \<noteq> ''''" "PlayerActorID s pid = Some (actor_id cx)" by (cases r) auto
    obtain A1 st2 a where acq: "Acquire gid A st1 = (A1, st2, a)" by (rule prod_cases3)
    note counted = acquire_counted[OF A acq]
    show ?thesis
    proof (cases a)
      case (Inl e)
      then show ?thesis using run r acq counted by (auto simp: actor_id_def)
    next
      case (Inr u)
      then have c1: "counted A1 (held(gid := held gid + 1))" using counted by simp
      obtain st3 q where cl: "Sessions_ClaimConnection A1 gid pid st2 = (st3, q)" by fastforce
      show ?thesis
      proof (cases "isl q \<or> \<not> CheckOrigin (sk_origins h) rq \<or> \<not> upgraded")
        case True
        then show ?thesis using run r acq Inr cl release_counted[OF c1] by (cases q) (auto simp: actor_id_def)
      next
        case False
        then obtain seq where q: "q = Inr seq" "CheckOrigin (sk_origins h) rq" "upgraded" by (cases q) auto
        have "greet h gid pid seq c s A1 st3 = ((A', st'), res)" using run r acq Inr cl q by (simp add: actor_id_def)
        then show ?thesis using greet_counted[OF c1] q(2) r load by blast
      qed
    qed
  qed
qed

text \<open>
  C39: who is connected. A WebSocket request connects only a player of the game, for the actor who created
  the player, from an accepted origin; the new client is then the player's on this instance, and the
  handler holds one more reference on the game's session. Every other end of the handler, whatever call
  fails, gives back what it took, and so does the end of the connection. And while Redis is up, and the
  instance knows no generation of the player that is not yet drawn, the player's actor is connected.
\<close>

theorem socket_authorized:
  assumes "redis_store R up" and "sk_manager h = gameStateStore R" and "db_ok (rs_db st)" and "counted A held"
    and "open_socket h cx rq upgraded c A st = ((A', st'), res)"
  defines "gid \<equiv> param (rq_query rq) ''gameId''" and "pid \<equiv> param (rq_query rq) ''playerId''"
  defines "may_connect \<equiv> CheckOrigin (sk_origins h) rq \<and>
    (\<exists>g p. db_view (rs_db st) gid = Some g \<and> fmlookup (s_Players (ag_State g)) pid = Some p \<and> p_ActorID p = actor_id cx)"
  shows "counted A' (if res = Connected then held(gid := held gid + 1) else held) \<and>
    (res = Connected \<longrightarrow> may_connect \<and> client_of A' gid pid = Some c \<and> counted (close_socket gid pid c A') held) \<and>
    (may_connect \<and> gid \<noteq> '''' \<and> pid \<noteq> '''' \<and> upgraded \<and> up (rs_net st) \<and> on_redis R A \<and>
       next_is_newest (rs_db st) A gid pid \<longrightarrow> res = Connected)"
proof -
  note T = open_socket_outcome[OF assms(4,5), folded gid_def pid_def]
  have may: "may_connect \<and> counted (close_socket gid pid c A') held" if "res = Connected"
  proof -
    from T that obtain st1 s where s: "socket_state h gid st = (st1, Inr s)" "PlayerActorID s pid = Some (actor_id cx)" by blast
    obtain g where g: "db_view (rs_db st) gid = Some g" "loaded g = Inr s"
      by (rule socket_state_stored[OF assms(1-3) s(1)])
    have "\<exists>p. fmlookup (s_Players (ag_State g)) pid = Some p \<and> p_ActorID p = actor_id cx"
      using s(2) loaded_fields(10)[OF g(2)] by (auto simp: PlayerActorID_def split: option.splits)
    with g(1) show ?thesis using T that close_counted by (auto simp: may_connect_def)
  qed
  have "res = Connected" if ready: "may_connect" "gid \<noteq> ''''" "pid \<noteq> ''''" "upgraded" "up (rs_net st)" "on_redis R A"
      "next_is_newest (rs_db st) A gid pid"
  proof -
    from ready(1) obtain g p where "CheckOrigin (sk_origins h) rq" "db_view (rs_db st) gid = Some g"
      "fmlookup (s_Players (ag_State g)) pid = Some p" "p_ActorID p = actor_id cx" by (auto simp: may_connect_def)
    from redis_store.open_socket_connects[OF assms(1-3) ready(5,6) gid_def[THEN meta_eq_to_obj_eq, symmetric]
        pid_def[THEN meta_eq_to_obj_eq, symmetric] ready(2,3) this(1) ready(7) this(2-4), of c]
    show ?thesis using assms(5) ready(4) by simp
  qed
  with T may show ?thesis by blast
qed

definition ex_socket :: "(nat, mem_net) SocketHandler" where
  "ex_socket = \<lparr>sk_manager = mem_S, sk_origins = [], sk_marshal = (\<lambda>e. Some 0)\<rparr>"

definition ex_instance :: "(nat, mem_net) gameSessionStore" where
  "ex_instance = put_session ''g'' (new_session 0) (newGameSessionStore mem_exec mem_conn 7200000000000)"

definition ex_handshake :: http_request where
  "ex_handshake = \<lparr>rq_headers = [], rq_query = [(''gameId'', ''g''), (''playerId'', ''p'')], rq_cookies = [], rq_now = 0\<rparr>"

text \<open>The run: the player's actor, on a server whose generations of the game have expired.\<close>

definition ex_redis :: "mem_net rstate" where
  "ex_redis = mem_joined\<lparr>rs_db := del (connectionsKey ''g'') (rs_db mem_joined)\<rparr>"

theorem socket_authorized_witness:
  "case open_socket ex_socket (ex_ctx ''user'' ''u'') ex_handshake True 0 ex_instance ex_redis of
     ((A', st'), res) \<Rightarrow> res = Connected \<and> client_of A' ''g'' ''p'' = Some 0 \<and> counted A' ((\<lambda>g. 0)(''g'' := 2))"
proof -
  obtain A' st' res where run: "open_socket ex_socket (ex_ctx ''user'' ''u'') ex_handshake True 0 ex_instance ex_redis = ((A', st'), res)"
    by (metis prod.collapse)
  have c: "counted ex_instance ((\<lambda>g. 0)(''g'' := 1))"
    by (simp add: counted_def ex_instance_def new_session_def newGameSessionStore_def)
  have ok: "db_ok (rs_db ex_redis)" and v: "db_view (rs_db ex_redis) ''g'' = Some mem_ag_joined" and u: "mem_up (rs_net ex_redis)"
    using mem_joined_view(1,2) by (simp_all add: ex_redis_def connections_frame mem_ok_def)
  have "sk_manager ex_socket = gameStateStore mem_R" by (simp add: ex_socket_def)
  note T = socket_authorized[OF mem.redis_store_axioms this ok c run]
  have rq: "param (rq_query ex_handshake) ''gameId'' = ''g''" "param (rq_query ex_handshake) ''playerId'' = ''p''"
    "CheckOrigin (sk_origins ex_socket) ex_handshake" "actor_id (ex_ctx ''user'' ''u'') = ''u''"
    by (simp_all add: ex_handshake_def param_def CheckOrigin_def ex_socket_def actor_id_def extractActor_def ex_ctx_def)
  have p: "fmlookup (s_Players (ag_State mem_ag_joined)) ''p'' = Some (new_player ''p'' ''P'' 1 ''g'' ''u'')"
    by (simp add: mem_ag_defs)
  have A: "on_redis mem_R ex_instance"
    by (simp add: on_redis_def ex_instance_def put_session_def newGameSessionStore_def NewPublisher_def mem_R_def NewGameStateStore_def)
  have n: "next_is_newest (rs_db ex_redis) ex_instance ''g'' ''p''"
    by (simp add: next_is_newest_def ex_redis_def counters_ok_def counter_def int64_max_def ex_instance_def put_session_def
        new_session_def new_hub_state_def NewHub_def latest_of_def)
  have "res = Connected" using T u A n v p rq by (simp add: new_player_def)
  then show ?thesis using T run rq(1,2) by (simp add: numeral_2_eq_2)
qed

end
