(* ===== verification/Service.thy ===== *)
theory Service
  imports Game_Creation Ws_Handler Auth_Properties Configuration
begin

text \<open>
  The service: \<open>app.New\<close> (\<open>internal/app/app.go\<close>), which wires the components from the configuration, and
  the protected routes behind CORS and authentication. The connections to Redis and PostgreSQL, the
  migrations and the discovery of the OpenID provider are parameters; \<open>discover\<close> may fail. The session
  secret is a text, as the configuration has it.
\<close>

section \<open>Wiring\<close>

record ('m, 'n, 'p) App =
  ap_tokens :: "string tokens"
  ap_oidcEnabled :: bool
  ap_secret :: string
  ap_origins :: "string list"
  ap_game :: "('n rstate, 'p pgstate) GameHandler"
  ap_socket :: "('m, 'n) SocketHandler"
  ap_ql :: "'p pgstate QuestionListHandler"
  ap_theme :: "'p pgstate ThemeHandler"
  ap_auth :: "string AuthHandler"

type_synonym discovery = "string \<Rightarrow> string \<Rightarrow> string \<Rightarrow> string \<Rightarrow> OIDCProvider option"

definition NewOIDCProvider :: "discovery \<Rightarrow> string \<Rightarrow> string \<Rightarrow> string \<Rightarrow> string \<Rightarrow> string \<Rightarrow> string \<Rightarrow> OIDCProvider option" where
  "NewOIDCProvider discover issuerURL clientID clientSecret redirectURL roleClaim adminRole =
     map_option (\<lambda>p. p\<lparr>op_roleClaim := roleClaim, op_adminRole := adminRole\<rparr>)
       (discover issuerURL clientID clientSecret redirectURL)"

text \<open>The nil provider, which no handler uses while OIDC is off.\<close>

definition nil_provider :: OIDCProvider where
  "nil_provider = \<lparr>op_auth_url = (\<lambda>s n. ''''), op_exchange = (\<lambda>c. None), op_verify = (\<lambda>t. None), op_roleClaim = '''', op_adminRole = ''''\<rparr>"

text \<open>The state store of the games.\<close>

definition app_redis :: "Config \<Rightarrow> server \<Rightarrow> 'n conn \<Rightarrow> 'n GameStateStore" where
  "app_redis cfg exec conn = NewGameStateStore exec conn (GameIdleTTL cfg) (GameFinishedTTL cfg)"

definition New :: "Config \<Rightarrow> server \<Rightarrow> 'n conn \<Rightarrow> 'p pgconn \<Rightarrow> string tokens \<Rightarrow> discovery \<Rightarrow> (event option \<Rightarrow> 'm option)
    \<Rightarrow> (('m, 'n, 'p) App \<times> ('m, 'n) gameSessionStore) option" where
  "New cfg exec conn pg J discover marshal = (let
       sessions = newGameSessionStore exec conn (GameIdleTTL cfg);
       defaultEngineCfg = \<lparr>InitialLives = GameInitialLives cfg, AnswerTimeoutSeconds = 0\<rparr>;
       manager = gameStateStore (app_redis cfg exec conn);
       qls = pgQuestionListStore pg; ts = pgThemeStore pg;
       sessionSecret = SessionSecret cfg;
       oidcProvider = (if OIDCEnabled cfg
         then NewOIDCProvider discover (OIDCIssuerURL cfg) (OIDCClientID cfg) (OIDCClientSecret cfg) (OIDCRedirectURL cfg)
                (OIDCRoleClaim cfg) (OIDCAdminRole cfg)
         else Some nil_provider);
       allowedOrigins = parseOrigins (CORSAllowedOrigins cfg)
     in map_option (\<lambda>provider.
       (\<lparr>ap_tokens = J, ap_oidcEnabled = OIDCEnabled cfg, ap_secret = sessionSecret, ap_origins = allowedOrigins,
         ap_game = \<lparr>gh_manager = manager, gh_gameStore = Some (pgGameStore pg), gh_playerStore = Some (pgPlayerStore pg),
                    gh_questionListStore = qls, gh_cfg = defaultEngineCfg\<rparr>,
         ap_socket = \<lparr>sk_manager = manager, sk_origins = allowedOrigins, sk_marshal = marshal\<rparr>,
         ap_ql = \<lparr>qh_store = qls, qh_themes = ts\<rparr>, ap_theme = \<lparr>hh_themes = ts, hh_lists = qls\<rparr>,
         ap_auth = \<lparr>ah_provider = provider, ah_sessionSecret = sessionSecret, ah_frontendURL = OIDCFrontendURL cfg,
                    ah_oidcEnabled = OIDCEnabled cfg, ah_secureCookies = SessionCookieSecure cfg\<rparr>\<rparr>,
        sessions)) oidcProvider)"

section \<open>Protected routes\<close>

text \<open>The context of a handler: the actor that the middleware found, the clock and the UUIDs.\<close>

definition with_actor :: "Actor \<Rightarrow> game_ctx \<Rightarrow> game_ctx" where
  "with_actor a cx = cx\<lparr>cx_Actor := Some a\<rparr>"

definition authMW :: "('m, 'n, 'p) App \<Rightarrow> (Actor \<Rightarrow> 'w web_handler) \<Rightarrow> 'w web_handler" where
  "authMW app next r hs w = (case Middleware (ap_tokens app) (ap_secret app) (ap_oidcEnabled app) (http_request.truncate r) of
       Inl refusal \<Rightarrow> (w, hs, refusal)
     | Inr a \<Rightarrow> next a r hs w)"

datatype api_request = GamesAPI game_request | CatalogAPI catalog_request | AuthMe

fun serve_api :: "('m, 'n, 'p) App \<Rightarrow> game_ctx \<Rightarrow> api_request \<Rightarrow> Actor \<Rightarrow> ('n rstate, 'p pgstate) world web_handler" where
  "serve_api app cx (GamesAPI req) a r hs w =
     (let (w', resp) = serve_game (ap_game app) (with_actor a cx) req w in (w', hs, resp))"
| "serve_api app cx (CatalogAPI req) a r hs w =
     (let (d, resp) = serve_catalog (ap_ql app) (ap_theme app) (ctx.truncate (with_actor a cx)) req (wd_db w) in (w\<lparr>wd_db := d\<rparr>, hs, resp))"
| "serve_api app cx AuthMe a r hs w = (w, hs, Me (ap_auth app) (Some a))"

definition serve :: "('m, 'n, 'p) App \<Rightarrow> game_ctx \<Rightarrow> api_request \<Rightarrow> ('n rstate, 'p pgstate) world web_handler" where
  "serve app cx req = corsMiddleware (ap_origins app) (authMW app (serve_api app cx req))"

text \<open>The WebSocket route: the middleware's refusal, or what the handler does for the actor.\<close>

definition serve_socket :: "('m, 'n, 'p) App \<Rightarrow> game_ctx \<Rightarrow> web_request \<Rightarrow> bool \<Rightarrow> conn_id \<Rightarrow> ('m, 'n) instance_state
    \<Rightarrow> ('m, 'n) instance_state \<times> socket_result" where
  "serve_socket app cx r upgraded c inst =
     (case Middleware (ap_tokens app) (ap_secret app) (ap_oidcEnabled app) (http_request.truncate r) of
       Inl refusal \<Rightarrow> (inst, Refused refusal)
     | Inr a \<Rightarrow> open_socket (ap_socket app) (ctx.truncate (with_actor a cx)) (http_request.truncate r) upgraded c (fst inst) (snd inst))"

section \<open>Sessions\<close>

text \<open>The actor of a request that is signed in.\<close>

definition signed_in :: "string tokens \<Rightarrow> Config \<Rightarrow> web_request \<Rightarrow> Actor \<Rightarrow> bool" where
  "signed_in J cfg r a \<longleftrightarrow> (\<exists>tok. map_of (rq_cookies r) SessionCookie = Some tok \<and>
     ParseSessionToken J (SessionSecret cfg) (rq_now r) tok = Some a)"

lemma New_parts:
  assumes "New cfg exec conn pg J discover marshal = Some (app, sessions)"
  shows "ap_tokens app = J" "ap_oidcEnabled app = OIDCEnabled cfg" "ap_secret app = SessionSecret cfg"
    "ap_origins app = parseOrigins (CORSAllowedOrigins cfg)" "stores (ap_game app) (app_redis cfg exec conn) pg"
    "serve_catalog (ap_ql app) (ap_theme app) = pg_serve pg"
    "sk_manager (ap_socket app) = gameStateStore (app_redis cfg exec conn)"
    "sk_origins (ap_socket app) = parseOrigins (CORSAllowedOrigins cfg)"
    "sessions = newGameSessionStore exec conn (GameIdleTTL cfg)"
  using assms by (auto simp: New_def Let_def stores_def pg_serve_def qlHandler_def themeHandler_def)

lemma Middleware_signed_in:
  assumes "Middleware J (SessionSecret cfg) True (http_request.truncate r) = Inr a"
  shows "signed_in J cfg r a"
  using assms by (auto simp: Middleware_def signed_in_def http_request.truncate_def split: option.splits)

text \<open>A request that has an effect has passed the middleware.\<close>

lemma serve_effect:
  assumes "serve app cx req r hs w = (w', hs', resp)" and "w' \<noteq> w"
  obtains a hs1 where "Middleware (ap_tokens app) (ap_secret app) (ap_oidcEnabled app) (http_request.truncate r) = Inr a"
    and "serve_api app cx req a r hs1 w = (w', hs', resp)"
  using assms by (auto simp: serve_def corsMiddleware_def authMW_def Let_def split: if_splits sum.splits)

lemma with_actor_simps [simp]:
  "actor (ctx.truncate (with_actor a cx)) = extractActor (Some a)" "actor_id (with_actor a cx) = ac_Sub a"
  "cx_now (with_actor a cx) = cx_now cx" "actor_id (ctx.truncate (with_actor a cx)) = ac_Sub a"
  by (simp_all add: actor_def actor_id_def with_actor_def ctx.truncate_def extractActor_def)

lemma serve_unsigned:
  assumes "New cfg exec conn pg J discover marshal = Some (app, sessions)" and "OIDCEnabled cfg" and "\<nexists>a. signed_in J cfg r a"
    and "serve app cx req r [] w = (w', hs, resp)"
  shows "w' = w \<and> (resp = noContent \<or> rp_status resp = 401)"
proof -
  note N = New_parts[OF assms(1)]
  obtain refusal where m: "Middleware J (SessionSecret cfg) True (http_request.truncate r) = Inl refusal"
    using assms(3) Middleware_signed_in[of J cfg r] by (metis sum.exhaust)
  then have "rp_status refusal = 401"
    by (auto simp: Middleware_def unauthorized_def writeJSON_def split: option.splits)
  then show ?thesis
    using assms(4) m N assms(2) by (auto simp: serve_def corsMiddleware_def authMW_def Let_def split: if_splits)
qed

lemma load_oidc: "OIDCEnabled (Load env) \<longleftrightarrow> env ''OIDC_ENABLED'' \<in> true_values"
  by (auto simp: Load_def getenv_def parseBool_iff) (simp_all add: true_values_def)

lemma catalog_effect:
  assumes "pg_connection pg alive" and "pg_ok (wd_db w)" and "serve_catalog (ap_ql app) (ap_theme app) = pg_serve pg"
    and "named_list q \<noteq> Some ''''" and "lid |\<in>| fmdom (c_lists (pg_cat (wd_db w)))" and "lid \<noteq> ''''"
    and "serve_api app cx (CatalogAPI q) a r hs w = (w', hs', resp)"
    and "\<not> untouched (pg_cat (wd_db w)) (pg_cat (wd_db w')) lid"
  shows "editable (extractActor (Some a)) (pg_cat (wd_db w)) lid"
proof -
  have "wd_db w' = fst (pg_serve pg (ctx.truncate (with_actor a cx)) q (wd_db w))"
    using assms(3,7) by (auto simp: Let_def split: prod.splits)
  then have "catalog_step (pc_lower pg) (extractActor (Some a)) (pg_cat (wd_db w)) (pg_cat (wd_db w'))"
    using pg_handled(2)[OF assms(1,2,4), of "ctx.truncate (with_actor a cx)"] by simp
  then show ?thesis using step_untouched assms(5,6,8) by blast
qed

lemma games_effect:
  fixes w :: "('n rstate, 'p pgstate) world"
  assumes S: "state_store (gameStateStore R) (observer up)" and h: "stores (ap_game app) R pg"
    and inv: "db_ok (rs_db (wd_game w))" and free: "\<forall>g. str (rs_db (wd_game w)) (lockKey g) = None"
    and wf: "\<forall>gid g. db_view (rs_db (wd_game w)) gid = Some g \<longrightarrow> wf_game g" and now: "time_ok (cx_now cx)"
    and g: "db_view (rs_db (wd_game w)) gid = Some g" and req: "\<And>body. req \<noteq> GamesAPI (PostGame body)"
    and run: "serve_api app cx req a r hs w = (w', hs', resp)" and moved: "db_view (rs_db (wd_game w')) gid \<noteq> Some g"
  shows "HostActorID (ag_State g) = ac_Sub a \<or> (\<exists>name pid. req = GamesAPI (PostJoin gid (Some name)) \<and>
    db_view (rs_db (wd_game w')) gid = Some (joined_by gid (ac_Sub a) pid name g))"
proof (cases req)
  case (GamesAPI q)
  have m: "gh_manager (ap_game app) = gameStateStore R" using h by (simp add: stores_def)
  have W: "ob_inv (observer up) (wd_game w)" "\<forall>gid. ob_lock (observer up) (wd_game w) gid = None"
    "games_ok (observer up) (wd_game w)" "ob_view (observer up) (wd_game w) gid = Some g"
    using inv free wf g by (simp_all add: games_ok_def)
  have w': "w' = fst (serve_game (ap_game app) (with_actor a cx) q w)"
    using run GamesAPI by (auto simp: Let_def split: prod.splits)
  show ?thesis
  proof (cases "HostActorID (ag_State g) = ac_Sub a")
    case False
    have q: "\<And>body. q \<noteq> PostGame body" using req GamesAPI by blast
    have "db_view (rs_db (wd_game w')) gid = Some g \<or> (\<exists>name. q = PostJoin gid (Some name) \<and>
        db_view (rs_db (wd_game w')) gid = Some (joined_by gid (ac_Sub a) (cx_uuid (with_actor a cx) 0) name g))"
      using state_store.serve_game_effect[OF S m W(1-3) _ W(4) _ q, of "with_actor a cx"] now False by (auto simp: w')
    then show ?thesis using moved GamesAPI by blast
  qed simp
next
  case (CatalogAPI q)
  then show ?thesis using run g moved by (auto simp: Let_def split: prod.splits)
next
  case AuthMe
  then show ?thesis using run g moved by simp
qed

lemma socket_effect:
  assumes "redis_store R up" and "sk_manager (ap_socket app) = gameStateStore R" and "db_ok (rs_db st)"
    and "open_socket (ap_socket app) (ctx.truncate (with_actor a cx)) rq upgraded c A st = ((A', st'), Connected)"
  shows "\<exists>g p. p_ActorID p = ac_Sub a \<and> db_view (rs_db st) (param (rq_query rq) ''gameId'') = Some g \<and>
    fmlookup (s_Players (ag_State g)) (param (rq_query rq) ''playerId'') = Some p"
proof -
  let ?gid = "param (rq_query rq) ''gameId''" and ?pid = "param (rq_query rq) ''playerId''"
  have "\<exists>st1 s. socket_state (ap_socket app) ?gid st = (st1, Inr s) \<and> PlayerActorID s ?pid = Some (ac_Sub a)"
    using assms(4) by (auto simp: open_socket_def Let_def actor_id_def[symmetric] split: if_splits prod.splits sum.splits option.splits)
  then obtain st1 s where s: "socket_state (ap_socket app) ?gid st = (st1, Inr s)" "PlayerActorID s ?pid = Some (ac_Sub a)"
    by blast
  obtain g where "db_view (rs_db st) ?gid = Some g" "loaded g = Inr s" by (rule socket_state_stored[OF assms(1-3) s(1)])
  then show ?thesis
    using s(2) loaded_fields(10)[of g s] by (auto simp: PlayerActorID_def split: option.splits)
qed

section \<open>From the cookie to the rows\<close>

text \<open>
  C7: who may do what, end to end. In a service that \<open>New\<close> has made of an environment with OIDC on, a
  request without a token that was signed with the session secret and is in force has no effect, and is
  answered with 401 (or 204, if it is a preflight). Whatever is lost on the way to the stores, a catalog
  request changes an existing list only if the token's actor may edit it; a request changes an existing
  game only if the token's subject hosts it, or by letting the subject join; and a WebSocket connects only
  a player whom the token's subject created.
\<close>

theorem service_access:
  assumes "New (Load env) exec conn pg J discover marshal = Some (app, sessions)" and "env ''OIDC_ENABLED'' \<in> true_values"
    and "redis_store (app_redis (Load env) exec conn) up" and "pg_connection pg alive"
    and "db_ok (rs_db (wd_game w))" and "\<forall>g. str (rs_db (wd_game w)) (lockKey g) = None"
    and "\<forall>gid g. db_view (rs_db (wd_game w)) gid = Some g \<longrightarrow> wf_game g" and "time_ok (cx_now cx)" and "pg_ok (wd_db w)"
    and "serve app cx req r [] w = (w', hs, resp)"
  shows "((\<nexists>a. signed_in J (Load env) r a) \<longrightarrow> w' = w \<and> (resp = noContent \<or> rp_status resp = 401)) \<and>
    (\<forall>q lid. req = CatalogAPI q \<and> named_list q \<noteq> Some '''' \<and> lid |\<in>| fmdom (c_lists (pg_cat (wd_db w))) \<and> lid \<noteq> '''' \<and>
       \<not> untouched (pg_cat (wd_db w)) (pg_cat (wd_db w')) lid \<longrightarrow>
       (\<exists>a. signed_in J (Load env) r a \<and> editable (extractActor (Some a)) (pg_cat (wd_db w)) lid)) \<and>
    (\<forall>gid g. db_view (rs_db (wd_game w)) gid = Some g \<and> db_view (rs_db (wd_game w')) gid \<noteq> Some g \<and>
       (\<forall>body. req \<noteq> GamesAPI (PostGame body)) \<longrightarrow>
       (\<exists>a. signed_in J (Load env) r a \<and> (HostActorID (ag_State g) = ac_Sub a \<or>
          (\<exists>name pid. req = GamesAPI (PostJoin gid (Some name)) \<and>
             db_view (rs_db (wd_game w')) gid = Some (joined_by gid (ac_Sub a) pid name g))))) \<and>
    (\<forall>c upgraded A A' st'. serve_socket app cx r upgraded c (A, wd_game w) = ((A', st'), Connected) \<longrightarrow>
       (\<exists>a g p. signed_in J (Load env) r a \<and> p_ActorID p = ac_Sub a \<and>
          db_view (rs_db (wd_game w)) (param (rq_query r) ''gameId'') = Some g \<and>
          fmlookup (s_Players (ag_State g)) (param (rq_query r) ''playerId'') = Some p))"
proof -
  note N = New_parts[OF assms(1)]
  have on: "OIDCEnabled (Load env)" using assms(2) by (simp add: load_oidc)
  have S: "state_store (gameStateStore (app_redis (Load env) exec conn)) (observer up)"
    using redis_store.is_state_store[OF assms(3)] .
  have auth: "\<exists>a hs1. signed_in J (Load env) r a \<and> serve_api app cx req a r hs1 w = (w', hs, resp)" if "w' \<noteq> w"
  proof (rule serve_effect[OF assms(10) that])
    fix a hs1
    assume "Middleware (ap_tokens app) (ap_secret app) (ap_oidcEnabled app) (http_request.truncate r) = Inr a"
      and "serve_api app cx req a r hs1 w = (w', hs, resp)"
    then show ?thesis using Middleware_signed_in[of J "Load env" r a] N on by auto
  qed
  have catalog: "\<exists>a. signed_in J (Load env) r a \<and> editable (extractActor (Some a)) (pg_cat (wd_db w)) lid"
    if "req = CatalogAPI q" "named_list q \<noteq> Some ''''" "lid |\<in>| fmdom (c_lists (pg_cat (wd_db w)))" "lid \<noteq> ''''"
      "\<not> untouched (pg_cat (wd_db w)) (pg_cat (wd_db w')) lid" for q lid
  proof -
    have "w' \<noteq> w" using that(5) untouched_refl by blast
    then obtain a hs1 where a: "signed_in J (Load env) r a" "serve_api app cx req a r hs1 w = (w', hs, resp)" using auth by blast
    show ?thesis using catalog_effect[OF assms(4,9) N(6) that(2-4) a(2)[unfolded that(1)] that(5)] a(1) by blast
  qed
  have games: "\<exists>a. signed_in J (Load env) r a \<and> (HostActorID (ag_State g) = ac_Sub a \<or>
      (\<exists>name pid. req = GamesAPI (PostJoin gid (Some name)) \<and>
         db_view (rs_db (wd_game w')) gid = Some (joined_by gid (ac_Sub a) pid name g)))"
    if "db_view (rs_db (wd_game w)) gid = Some g" "db_view (rs_db (wd_game w')) gid \<noteq> Some g" "\<And>body. req \<noteq> GamesAPI (PostGame body)"
    for gid g
  proof -
    have "w' \<noteq> w" using that(1,2) by blast
    then obtain a hs1 where a: "signed_in J (Load env) r a" "serve_api app cx req a r hs1 w = (w', hs, resp)" using auth by blast
    show ?thesis using games_effect[OF S N(5) assms(5-8) that(1,3) a(2) that(2)] a(1) by blast
  qed
  have socket: "\<exists>a g p. signed_in J (Load env) r a \<and> p_ActorID p = ac_Sub a \<and>
      db_view (rs_db (wd_game w)) (param (rq_query r) ''gameId'') = Some g \<and>
      fmlookup (s_Players (ag_State g)) (param (rq_query r) ''playerId'') = Some p"
    if s: "serve_socket app cx r upgraded c (A, wd_game w) = ((A', st'), Connected)" for c upgraded A A' st'
  proof -
    obtain a where a: "signed_in J (Load env) r a"
      "open_socket (ap_socket app) (ctx.truncate (with_actor a cx)) (http_request.truncate r) upgraded c A (wd_game w) = ((A', st'), Connected)"
      using s Middleware_signed_in[of J "Load env" r] N on by (auto simp: serve_socket_def split: sum.splits)
    show ?thesis using socket_effect[OF assms(3) N(7) assms(5) a(2)] a(1) by (auto simp: http_request.truncate_def)
  qed
  note unsigned = serve_unsigned[OF assms(1) on _ assms(10)]
  show ?thesis
    by (intro conjI impI allI; (elim conjE)?; (rule unsigned[THEN conjunct1] unsigned[THEN conjunct2] catalog games socket; (assumption | blast)))
qed

definition ex_oidc_env :: "string \<Rightarrow> string" where
  "ex_oidc_env v = (if v = ''OIDC_ENABLED'' then ''true'' else '''')"

text \<open>An administrator by the headers, but without a session.\<close>

definition ex_unsigned :: web_request where
  "ex_unsigned = \<lparr>rq_headers = [(''X-Debug-Actor-Type'', ''admin'')], rq_query = [], rq_cookies = [], rq_now = 0, rq_method = ''DELETE''\<rparr>"

lemma ex_oidc_load: "app_redis (Load ex_oidc_env) mem_exec mem_conn = mem_R" "CORSAllowedOrigins (Load ex_oidc_env) = ''''"
proof -
  have "ParseDuration (nat_digits 2 @ ''h'') = Some (int (2 * 3600000000000))" "ParseDuration (nat_digits 10 @ ''m'') = Some (int (10 * 60000000000))"
    by (rule ParseDuration_units; simp add: unitMap_def)+
  moreover have "nat_digits 2 @ ''h'' = ''2h''" "nat_digits 10 @ ''m'' = ''10m''" by code_simp+
  ultimately show "app_redis (Load ex_oidc_env) mem_exec mem_conn = mem_R" "CORSAllowedOrigins (Load ex_oidc_env) = ''''"
    by (simp_all add: app_redis_def mem_R_def Load_def getenv_def ex_oidc_env_def parseDuration_def)
qed

theorem service_access_witness:
  "case New (Load ex_oidc_env) mem_exec mem_conn mem_pg plain_tokens (\<lambda>u i s d. Some nil_provider) (\<lambda>e. Some (0::nat)) of
     None \<Rightarrow> False
   | Some (app, sessions) \<Rightarrow>
       (let (w', hs, resp) = serve app (ex_game_ctx ''eve'') (CatalogAPI (DeleteList ''L'')) ex_unsigned [] (ex_world mem_joined)
        in w' = ex_world mem_joined \<and> rp_status resp = 401)"
proof -
  have on: "ex_oidc_env ''OIDC_ENABLED'' \<in> true_values" by (simp add: ex_oidc_env_def true_values_def)
  then have e: "OIDCEnabled (Load ex_oidc_env)" by (simp add: load_oidc)
  obtain app sessions where n: "New (Load ex_oidc_env) mem_exec mem_conn mem_pg plain_tokens (\<lambda>u i s d. Some nil_provider) (\<lambda>e. Some (0::nat)) =
      Some (app, sessions)" by (auto simp: New_def NewOIDCProvider_def Let_def e)
  obtain w' hs resp where run: "serve app (ex_game_ctx ''eve'') (CatalogAPI (DeleteList ''L'')) ex_unsigned [] (ex_world mem_joined) = (w', hs, resp)"
    by (metis prod.collapse)
  have S: "redis_store (app_redis (Load ex_oidc_env) mem_exec mem_conn) mem_up" using mem.redis_store_axioms by (simp add: ex_oidc_load)
  have ok: "mem_ok mem_joined" and v: "db_view (rs_db mem_joined) = [''g'' \<mapsto> mem_ag_joined]" by (fact mem_joined_view)+
  have wf: "wf_game mem_ag_joined"
    by (auto simp: wf_game_def wf_State_def wf_players_def wf_player_def wf_progress_def Let_def mem_ag_defs split: if_splits)
  have no: "\<nexists>a. signed_in plain_tokens (Load ex_oidc_env) ex_unsigned a" by (simp add: signed_in_def ex_unsigned_def)
  have "w' = ex_world mem_joined \<and> (resp = noContent \<or> rp_status resp = 401)"
    using service_access[OF n on S mem_pg_connection _ _ _ _ _ run, THEN conjunct1] ok v wf mem_time_ok no by (simp add: mem_ok_def)
  moreover have "resp \<noteq> noContent"
    using run New_parts[OF n] e by (auto simp: serve_def corsMiddleware_def authMW_def ex_unsigned_def ex_oidc_load parseOrigins_def
        Middleware_def unauthorized_def writeJSON_def noContent_def http_request.truncate_def Let_def split: if_splits sum.splits)
  ultimately show ?thesis using n run by simp
qed

end
