(* ===== verification/Spec2Isabelle.thy ===== *)
theory Spec2Isabelle
  imports Redis_Properties Ws_Properties Catalog_Properties Auth_Properties Game_Creation Ws_Handler Service
begin

text \<open>
  A verification library for the quiz backend.

  \<^bold>\<open>The program.\<close> A Go service hosts quiz games. A host creates a game from a question list, players
  join, questions open and close, a wrong or missing answer costs a life, and the game ends with one
  player left, none left, or no question left. Any instance can serve any game: all game state is in
  Redis, behind a per-game lock; events reach the players of every instance through Redis channels and
  the WebSocket hubs of the instances. The catalog (question lists, questions, themes) is in PostgreSQL,
  which also keeps a best-effort copy of games and players. Actors come from an OpenID provider, as
  signed session cookies, or from debug headers.

  \<^bold>\<open>Shared theories.\<close>
  \<^item> \<open>Quiz_Prelude\<close>: finite maps, sorted lists, and the sequencing of fallible store calls (\<open>and_then\<close>).
  \<^item> \<open>Go_Strconv\<close>: Go's \<open>strconv\<close> as the program uses it; \<open>Http\<close>: JSON values, responses
    (\<open>internal/handler/health.go\<close>) and the parts of Go's \<open>strings\<close> package the program uses.

  \<^bold>\<open>Games.\<close>
  \<^item> \<open>Game_State\<close>: the domain types (\<open>internal/domain/domain.go\<close>) and the state of a game with its
    queries (\<open>internal/game/state.go\<close>); \<open>Game_Rules\<close>: the penalties and the end of the game
    (\<open>applyPenalties\<close> in \<open>internal/game/engine.go\<close>), with their exact effect (C1, C3).
  \<^item> \<open>Game_Store\<close>: the \<open>StateStore\<close> interface (\<open>internal/game/store.go\<close>) as a record of operations,
    and the locale \<open>state_store\<close> of the laws its comments promise, for every store and every failure.
  \<^item> \<open>Game_Engine\<close>: the operations of the engine, as the code runs them over any store;
    \<open>Engine_Spec\<close>: what each does to the stored game; \<open>Game_Lifecycle\<close>: the step relation of a game's
    life, its invariants and its end (C4 to C6, C8); \<open>Game_Manager\<close>: the manager and the deadline loop
    (\<open>internal/game/manager.go\<close>).
  \<^item> \<open>Redis_Client\<close>: what the program relies on of Redis and of its client: a server that executes
    commands (\<open>redis_server\<close>), a connection that may lose a request or a reply (\<open>redis_conn\<close>).
    \<open>Redis_Games\<close>: the store on Redis (\<open>internal/redis/gamestate.go\<close>), Lua scripts included;
    \<open>Redis_Store\<close>: every law of \<open>state_store\<close> holds of it; \<open>Redis_Memory\<close>: a concrete server, for
    runs; \<open>Redis_Properties\<close>: the engine, the lock and the deadlines on Redis (C2, C9 to C16, C31).
  \<^item> \<open>Game_Handlers\<close>: the HTTP handlers of \<open>internal/handler/game.go\<close>; \<open>Game_Requests\<close>: their effect on
    any store, and who may change a game (C37); \<open>Game_Secrecy\<close>: open questions are secrets (C36);
    \<open>Game_Creation\<close>: the creation of a game across its three stores (C38).

  \<^bold>\<open>Connections.\<close>
  \<^item> \<open>Ws_Hub\<close>: clients and hubs (\<open>internal/ws/client.go\<close>, \<open>internal/ws/hub.go\<close>), critical section by
    critical section (C17, C18); \<open>Redis_Broadcaster\<close>: publishing, generations and subscriptions
    (\<open>internal/redis/broadcaster.go\<close>); \<open>Game_Sessions\<close>: the sessions of an instance and the sweeper
    (\<open>internal/app/app.go\<close>).
  \<^item> \<open>Ws_Cluster\<close>: the steps of any number of connections on any number of instances, interleaved;
    \<open>Ws_Properties\<close>: one connection per player, and when that fails (C19 to C23); \<open>Ws_Handler\<close>: the
    WebSocket handler and who gets connected (C39).

  \<^bold>\<open>The catalog.\<close>
  \<^item> \<open>Catalog_Store\<close>: the storage interfaces (\<open>internal/store/store.go\<close>) and their contract, the locale
    \<open>catalog_store\<close>, over abstract rows; \<open>Postgres\<close>: the statements of \<open>internal/postgres\<close> over the
    tables of \<open>migrations\<close>; \<open>Postgres_Catalog\<close>: they keep the contract; \<open>Postgres_Memory\<close>: a concrete
    connection, for runs.
  \<^item> \<open>Question_Lists\<close> and \<open>Themes\<close>: the handlers (\<open>internal/handler/question_list.go\<close>, \<open>theme.go\<close>);
    \<open>Catalog_Invariant\<close>, \<open>Catalog_Steps\<close>, \<open>Catalog_Routes\<close>: the invariant of the catalog and the
    changes that each request may make; \<open>Catalog_Runs\<close>: what the handlers do on a store that is up;
    \<open>Catalog_Properties\<close>: the catalog on PostgreSQL (C24 to C30).

  \<^bold>\<open>Access.\<close>
  \<^item> \<open>Auth\<close>: actors, session and state tokens, the middleware, login and callback (\<open>internal/auth\<close>,
    \<open>internal/handler/auth.go\<close>), over a token library with the laws of the locale \<open>jwt\<close>;
    \<open>Auth_Properties\<close>: C32 to C34. \<open>Origins\<close>: CORS and the origins of WebSocket handshakes
    (\<open>internal/app/cors.go\<close>), C35.
  \<^item> \<open>Configuration\<close>: the environment (\<open>internal/config/config.go\<close>) with the parsers of Go it uses (C40);
    \<open>Service\<close>: the wiring of \<open>app.New\<close> and the protected routes, from the environment and the cookie of a
    request to the rows and the games it changes (C7).

  \<^bold>\<open>Failures and bounds.\<close> A call to Redis or PostgreSQL may be lost before or after it takes effect; an
  observer's \<open>up\<close> says of a state that this no longer happens, and properties that need it say so.
  Integers that the code stores are 64-bit: the properties assume \<open>int64\<close> where values come from
  outside. Times are nanoseconds; \<open>exact_time\<close> says that \<open>float64\<close> milliseconds represent a deadline
  exactly, which holds for every time until the year 287396. \<open>Lock_loop\<close> has fuel; C14 gives an amount
  that always suffices. A deadline loop is a finite list of ticks.

  \<^bold>\<open>Not modelled.\<close> The logger; HTTP parsing and the router (a request is its route with parameters, body
  and headers); decoding of JSON (a body is what decoding yields, or \<open>None\<close>); the time limits of
  contexts, apart from the lock's; opening connections, migrations, start-up and shutdown
  (\<open>cmd\<close>, the first half of \<open>app.New\<close>, \<open>app.Run\<close>); the health probe; the load-balancer check under
  \<open>tools\<close>. The libraries for tokens, OpenID, WebSockets, Redis and PostgreSQL are parameters.
\<close>

end
